(* ===== verification/Prelude.thy ===== *)
theory Prelude
  imports Main "HOL-Library.Char_ord" "HOL-Library.List_Lexorder"
begin

text \<open>
  Shared vocabulary of the development: the type names used by every component, the generic
  lemmas on lists of rows that the SQL tables need, and the collections of hints the component
  proofs draw on.  Nothing here models a line of the program.

  A table is a list of rows (\<open>SELECT\<close> is \<open>filter\<close>, \<open>UPDATE\<close> is \<open>map\<close> over
  the rows that match, \<open>DELETE\<close> is \<open>filter\<close>, \<open>INSERT\<close> appends), so the lemmas
  say how keys behave under these four list operations.
\<close>

named_theorems row_simps \<open>how SELECT, UPDATE, DELETE and INSERT act on keys\<close>
named_theorems wf_intros \<open>introduction rules for table invariants\<close>
named_theorems keeps_intros \<open>composition rules of the invariant logic of the runtime\<close>

text \<open>Instants are integers counted in milliseconds, the resolution of the time columns.\<close>

type_synonym instant = int

text \<open>A Go string, and a byte slice, is a sequence of bytes.\<close>

type_synonym bytes = "char list"

subsection \<open>Rows and keys\<close>

definition update_where :: "('r \<Rightarrow> bool) \<Rightarrow> ('r \<Rightarrow> 'r) \<Rightarrow> 'r list \<Rightarrow> 'r list" where
  "update_where P f = map (\<lambda>r. if P r then f r else r)"

definition delete_where :: "('r \<Rightarrow> bool) \<Rightarrow> 'r list \<Rightarrow> 'r list" where
  "delete_where P = filter (\<lambda>r. \<not> P r)"

definition select_one :: "('r \<Rightarrow> bool) \<Rightarrow> 'r list \<Rightarrow> 'r option" where
  "select_one P rs = find P rs"

lemma length_update_where [row_simps]: "length (update_where P f rs) = length rs"
  by (simp add: update_where_def)

lemma set_update_where:
  "r \<in> set (update_where P f rs) \<longleftrightarrow> (\<exists>s \<in> set rs. r = (if P s then f s else s))"
  by (auto simp: update_where_def)

lemma map_update_where [row_simps]:
  "(\<And>r. k (f r) = k r) \<Longrightarrow> map k (update_where P f rs) = map k rs"
  by (induction rs) (auto simp: update_where_def)

lemma update_where_Nil [simp]: "update_where P f [] = []"
  by (simp add: update_where_def)

lemma update_where_Cons [simp]:
  "update_where P f (r # rs) = (if P r then f r else r) # update_where P f rs"
  by (simp add: update_where_def)

lemma delete_where_Nil [simp]: "delete_where P [] = []"
  by (simp add: delete_where_def)

lemma delete_where_Cons [simp]:
  "delete_where P (r # rs) = (if P r then delete_where P rs else r # delete_where P rs)"
  by (simp add: delete_where_def)

lemma set_delete_where [row_simps, simp]: "set (delete_where P rs) = {r \<in> set rs. \<not> P r}"
  by (simp add: delete_where_def)

lemma distinct_map_delete_where [row_simps]:
  "distinct (map k rs) \<Longrightarrow> distinct (map k (delete_where P rs))"
  by (simp add: delete_where_def distinct_map_filter)

lemma distinct_map_append_one [row_simps]:
  "distinct (map k (rs @ [r])) \<longleftrightarrow> distinct (map k rs) \<and> k r \<notin> k ` set rs"
  by auto

lemma select_one_Some:
  "select_one P rs = Some r \<Longrightarrow> r \<in> set rs \<and> P r"
  by (auto simp: select_one_def find_Some_iff)

lemma select_one_None: "select_one P rs = None \<longleftrightarrow> (\<forall>r \<in> set rs. \<not> P r)"
  by (auto simp: select_one_def find_None_iff)

lemma select_one_key:
  assumes "distinct (map k rs)" and "r \<in> set rs" and "k r = x"
  shows "select_one (\<lambda>r. k r = x) rs = Some r"
  using assms by (induction rs) (auto simp: select_one_def)

lemma key_inj: "distinct (map k rs) \<Longrightarrow> r \<in> set rs \<Longrightarrow> s \<in> set rs \<Longrightarrow> k r = k s \<Longrightarrow> r = s"
  by (induction rs) (auto simp: rev_image_eqI)

lemma filter_key:
  assumes "distinct (map k rs)"
  shows "filter (\<lambda>r. k r = x) rs = (case select_one (\<lambda>r. k r = x) rs of None \<Rightarrow> [] | Some r \<Rightarrow> [r])"
  using assms
proof (induction rs)
  case Nil
  then show ?case by (simp add: select_one_def)
next
  case (Cons a rs)
  have "filter (\<lambda>r. k r = k a) rs = []"
    using Cons.prems by (auto simp: filter_empty_conv rev_image_eqI)
  with Cons show ?case by (auto simp: select_one_def)
qed

lemma distinct_map_update_unique:
  assumes "distinct (map k rs)" and "distinct (map h rs)"
    and "\<And>r. k (f r) = k r"
    and "\<And>r s. r \<in> set rs \<Longrightarrow> s \<in> set rs \<Longrightarrow> k r = x \<Longrightarrow> k s \<noteq> x \<Longrightarrow> h (f r) \<noteq> h s"
  shows "distinct (map h (update_where (\<lambda>r. k r = x) f rs))"
  using assms
proof (induction rs)
  case Nil
  then show ?case by simp
next
  case (Cons a rs)
  have IH: "distinct (map h (update_where (\<lambda>r. k r = x) f rs))"
    by (rule Cons.IH) (use Cons.prems in auto)
  show ?case
  proof (cases "k a = x")
    case True
    then have "\<forall>s \<in> set rs. k s \<noteq> x" using Cons.prems(1) by (auto simp: image_iff)
    then have "update_where (\<lambda>r. k r = x) f rs = rs" by (induction rs) auto
    moreover have "h (f a) \<notin> h ` set rs"
      using Cons.prems(4)[of a] True \<open>\<forall>s \<in> set rs. k s \<noteq> x\<close> by auto
    ultimately show ?thesis using True Cons.prems(2) by simp
  next
    case False
    have "h a \<notin> h ` set (update_where (\<lambda>r. k r = x) f rs)"
    proof
      assume "h a \<in> h ` set (update_where (\<lambda>r. k r = x) f rs)"
      then obtain s where s: "s \<in> set rs" "h a = h (if k s = x then f s else s)"
        by (auto simp: set_update_where)
      then show False
        using Cons.prems(2) Cons.prems(4)[of s a] False by (auto split: if_splits)
    qed
    with False IH show ?thesis by simp
  qed
qed

lemma map_eq_image: "map f xs = map f ys \<Longrightarrow> f ` set xs = f ` set ys"
  by (metis list.set_map)

lemma ball_update_where:
  "(\<forall>x \<in> set (update_where P f rs). R x) \<longleftrightarrow> (\<forall>r \<in> set rs. R (if P r then f r else r))"
  by (auto simp: update_where_def)

lemma image_update_where [row_simps]:
  "(\<And>r. k (f r) = k r) \<Longrightarrow> k ` set (update_where P f rs) = k ` set rs"
  by (rule map_eq_image) (rule map_update_where)

subsection \<open>Sums as results\<close>

lemma sum_case_Inr: "(case x of Inl e \<Rightarrow> Inl (f e) | Inr a \<Rightarrow> g a) = Inr b
    \<longleftrightarrow> (\<exists>a. x = Inr a \<and> g a = Inr b)"
  by (cases x) auto

end
