(* ===== verification/GoStrings.thy ===== *)
theory GoStrings
  imports Prelude
begin

text \<open>
  The functions of Go's packages \<open>strings\<close>, \<open>unicode\<close> and \<open>unicode/utf8\<close> the program
  calls, on byte strings.  They are the standard library and model no line of the repository.
  Case mapping is the ASCII one: bytes from 128 on are left as they are.
\<close>

definition HasPrefix :: "bytes \<Rightarrow> bytes \<Rightarrow> bool" where
  "HasPrefix s p \<longleftrightarrow> take (length p) s = p"

definition HasSuffix :: "bytes \<Rightarrow> bytes \<Rightarrow> bool" where
  "HasSuffix s p \<longleftrightarrow> length p \<le> length s \<and> drop (length s - length p) s = p"

definition TrimPrefix :: "bytes \<Rightarrow> bytes \<Rightarrow> bytes" where
  "TrimPrefix s p = (if HasPrefix s p then drop (length p) s else s)"

fun Contains :: "bytes \<Rightarrow> bytes \<Rightarrow> bool" where
  "Contains [] p \<longleftrightarrow> p = []"
| "Contains (c # s) p \<longleftrightarrow> HasPrefix (c # s) p \<or> Contains s p"

definition lower_char :: "char \<Rightarrow> char" where
  "lower_char c = (if 65 \<le> (of_char c :: nat) \<and> (of_char c :: nat) \<le> 90
     then char_of ((of_char c :: nat) + 32) else c)"

definition ToLower :: "bytes \<Rightarrow> bytes" where
  "ToLower s = map lower_char s"

text \<open>\<open>strings.Split\<close> and \<open>strings.SplitN(s, sep, 2)\<close> at a one-byte separator.\<close>

fun Split :: "char \<Rightarrow> bytes \<Rightarrow> bytes list" where
  "Split c [] = [[]]"
| "Split c (x # xs) = (if x = c then [] # Split c xs
     else (case Split c xs of [] \<Rightarrow> [[x]] | p # ps \<Rightarrow> (x # p) # ps))"

fun join :: "char \<Rightarrow> bytes list \<Rightarrow> bytes" where
  "join c [] = []"
| "join c [p] = p"
| "join c (p # ps) = p @ c # join c ps"

text \<open>The part of a string after its last byte from a set (\<open>s[LastIndexAny(s, set)+1:]\<close>).\<close>

definition after_last :: "(char \<Rightarrow> bool) \<Rightarrow> bytes \<Rightarrow> bytes" where
  "after_last P s = rev (takeWhile (\<lambda>c. \<not> P c) (rev s))"

text \<open>Decimal text of a number (\<open>strconv.Itoa\<close> of a non-negative integer).\<close>

fun Itoa :: "nat \<Rightarrow> bytes" where
  "Itoa n = (if n < 10 then [char_of (48 + n)] else Itoa (n div 10) @ [char_of (48 + n mod 10)])"

declare Itoa.simps [simp del]

subsection \<open>UTF-8\<close>

definition byte :: "char \<Rightarrow> nat" where
  "byte c = of_char c"

definition is_cont :: "char \<Rightarrow> bool" where
  "is_cont c \<longleftrightarrow> 128 \<le> byte c \<and> byte c \<le> 191"

definition in_range :: "nat \<Rightarrow> nat \<Rightarrow> char \<Rightarrow> bool" where
  "in_range lo hi c \<longleftrightarrow> lo \<le> byte c \<and> byte c \<le> hi"

text \<open>The range of the second byte that each lead byte of a multi-byte sequence accepts.\<close>

definition second_lo :: "nat \<Rightarrow> nat" where
  "second_lo b = (if b = 224 then 160 else if b = 240 then 144 else 128)"

definition second_hi :: "nat \<Rightarrow> nat" where
  "second_hi b = (if b = 237 then 159 else if b = 244 then 143 else 191)"

text \<open>\<open>utf8.DecodeRuneInString\<close>: the code point and the width; an invalid byte is 65533, width 1.\<close>

definition decode_rune :: "bytes \<Rightarrow> nat \<times> nat" where
  "decode_rune s = (case s of [] \<Rightarrow> (65533, 0)
    | c0 # t \<Rightarrow> (let b = byte c0 in
        if b < 128 then (b, 1)
        else if 194 \<le> b \<and> b \<le> 223 then
          (case t of c1 # _ \<Rightarrow> if is_cont c1 then ((b - 192) * 64 + (byte c1 - 128), 2) else (65533, 1)
            | _ \<Rightarrow> (65533, 1))
        else if 224 \<le> b \<and> b \<le> 239 then
          (case t of c1 # c2 # _ \<Rightarrow>
              if in_range (second_lo b) (second_hi b) c1 \<and> is_cont c2
              then ((b - 224) * 4096 + (byte c1 - 128) * 64 + (byte c2 - 128), 3) else (65533, 1)
            | _ \<Rightarrow> (65533, 1))
        else if 240 \<le> b \<and> b \<le> 244 then
          (case t of c1 # c2 # c3 # _ \<Rightarrow>
              if in_range (second_lo b) (second_hi b) c1 \<and> is_cont c2 \<and> is_cont c3
              then ((b - 240) * 262144 + (byte c1 - 128) * 4096 + (byte c2 - 128) * 64
                    + (byte c3 - 128), 4) else (65533, 1)
            | _ \<Rightarrow> (65533, 1))
        else (65533, 1)))"

lemma decode_rune_width:
  "s \<noteq> [] \<Longrightarrow> 1 \<le> snd (decode_rune s) \<and> snd (decode_rune s) \<le> length s"
  by (cases s) (auto simp: decode_rune_def Let_def split: list.splits if_splits)

text \<open>The runes of a string, each with the bytes it was read from.\<close>

function runes :: "bytes \<Rightarrow> (nat \<times> bytes) list" where
  "runes s = (if s = [] then []
     else (fst (decode_rune s), take (snd (decode_rune s)) s) # runes (drop (snd (decode_rune s)) s))"
  by pat_completeness auto
termination
  by (relation "measure length") (use decode_rune_width in fastforce)+

declare runes.simps [simp del]

lemma runes_Nil [simp]: "runes [] = []"
  by (simp add: runes.simps)

lemma runes_bytes: "concat (map snd (runes s)) = s"
proof (induction s rule: runes.induct)
  case (1 s)
  then show ?case
    by (cases "s = []") (simp_all add: runes.simps [of s])
qed

definition RuneCountInString :: "bytes \<Rightarrow> nat" where
  "RuneCountInString s = length (runes s)"

lemma RuneCount_le_length: "RuneCountInString s \<le> length s"
proof (induction s rule: runes.induct)
  case (1 s)
  show ?case
  proof (cases "s = []")
    case True
    then show ?thesis by (simp add: RuneCountInString_def)
  next
    case False
    then have "RuneCountInString (drop (snd (decode_rune s)) s) \<le> length s - snd (decode_rune s)"
      using "1.IH" by simp
    moreover have "RuneCountInString s = Suc (RuneCountInString (drop (snd (decode_rune s)) s))"
      using False by (simp add: RuneCountInString_def runes.simps [of s])
    ultimately show ?thesis using decode_rune_width [OF False] by linarith
  qed
qed

text \<open>\<open>unicode.IsSpace\<close>.\<close>

definition IsSpace :: "nat \<Rightarrow> bool" where
  "IsSpace r \<longleftrightarrow> (9 \<le> r \<and> r \<le> 13) \<or> r = 32 \<or> r = 133 \<or> r = 160 \<or> r = 5760
     \<or> (8192 \<le> r \<and> r \<le> 8202) \<or> r = 8232 \<or> r = 8233 \<or> r = 8239 \<or> r = 8287 \<or> r = 12288"

text \<open>The same comparisons on binary integers, for evaluation.\<close>

lemma IsSpace_code [code]: "IsSpace r \<longleftrightarrow> (let i = int r in (9 \<le> i \<and> i \<le> 13) \<or> i = 32 \<or> i = 133 \<or> i = 160
    \<or> i = 5760 \<or> (8192 \<le> i \<and> i \<le> 8202) \<or> i = 8232 \<or> i = 8233 \<or> i = 8239 \<or> i = 8287 \<or> i = 12288)"
  by (simp only: IsSpace_def Let_def nat_int_comparison of_nat_numeral)

definition TrimSpace :: "bytes \<Rightarrow> bytes" where
  "TrimSpace s = concat (map snd (rev (dropWhile (\<lambda>p. IsSpace (fst p))
     (rev (dropWhile (\<lambda>p. IsSpace (fst p)) (runes s))))))"

lemma TrimSpace_Nil [simp]: "TrimSpace [] = []"
  by (simp add: TrimSpace_def)

lemma length_concat_dropWhile: "length (concat (map f (dropWhile P xs))) \<le> length (concat (map f xs))"
  by (induction xs) auto

lemma length_concat_rev: "length (concat (map f (rev xs))) = length (concat (map f xs))"
  by (induction xs) auto

lemma length_TrimSpace: "length (TrimSpace s) \<le> length s"
proof -
  let ?P = "\<lambda>p :: nat \<times> bytes. IsSpace (fst p)"
  have "length (TrimSpace s) = length (concat (map snd (dropWhile ?P (rev (dropWhile ?P (runes s))))))"
    unfolding TrimSpace_def by (rule length_concat_rev)
  also have "\<dots> \<le> length (concat (map snd (rev (dropWhile ?P (runes s)))))"
    by (rule length_concat_dropWhile)
  also have "\<dots> = length (concat (map snd (dropWhile ?P (runes s))))"
    by (rule length_concat_rev)
  also have "\<dots> \<le> length (concat (map snd (runes s)))"
    by (rule length_concat_dropWhile)
  also have "\<dots> = length s" by (simp add: runes_bytes)
  finally show ?thesis .
qed

subsection \<open>Facts about the string functions\<close>

lemma HasPrefix_append [simp]: "HasPrefix (p @ s) p"
  by (simp add: HasPrefix_def)

lemma TrimPrefix_append [simp]: "TrimPrefix (p @ s) p = s"
  by (simp add: TrimPrefix_def)

lemma HasPrefix_iff: "HasPrefix s p \<longleftrightarrow> (\<exists>t. s = p @ t)"
  by (metis HasPrefix_def append_eq_conv_conj append_take_drop_id)

lemma Contains_iff: "Contains s p \<longleftrightarrow> (\<exists>a b. s = a @ p @ b)"
proof (induction s)
  case Nil
  then show ?case by auto
next
  case (Cons c s)
  show ?case
  proof
    assume "Contains (c # s) p"
    then consider "HasPrefix (c # s) p" | "Contains s p" by auto
    then show "\<exists>a b. c # s = a @ p @ b"
    proof cases
      case 1
      then obtain t where "c # s = p @ t" by (auto simp: HasPrefix_iff)
      then have "c # s = [] @ p @ t" by simp
      then show ?thesis by blast
    next
      case 2
      then obtain a b where "s = a @ p @ b" using Cons.IH by auto
      then have "c # s = (c # a) @ p @ b" by simp
      then show ?thesis by blast
    qed
  next
    assume "\<exists>a b. c # s = a @ p @ b"
    then obtain a b where ab: "c # s = a @ p @ b" by blast
    show "Contains (c # s) p"
    proof (cases a)
      case Nil
      with ab have "HasPrefix (c # s) p" by (simp add: HasPrefix_iff)
      then show ?thesis by simp
    next
      case (Cons c' a')
      with ab have "s = a' @ p @ b" by simp
      then show ?thesis using Cons.IH by auto
    qed
  qed
qed

lemma byte_lt: "byte c < 256"
  by (simp add: byte_def)

lemma lower_char_idem [simp]: "lower_char (lower_char c) = lower_char c"
proof -
  have "(of_char c :: nat) < 256" by simp
  then show ?thesis
    by (auto simp: lower_char_def)
qed

lemma ToLower_idem [simp]: "ToLower (ToLower s) = ToLower s"
  by (simp add: ToLower_def)

lemma length_ToLower [simp]: "length (ToLower s) = length s"
  by (simp add: ToLower_def)

lemma Split_nonempty [simp]: "Split c s \<noteq> []"
  by (induction s) (auto split: list.splits)

lemma Split_no_sep: "\<forall>p \<in> set (Split c s). c \<notin> set p"
  by (induction s) (auto split: list.splits)

lemma Split_id: "c \<notin> set s \<Longrightarrow> Split c s = [s]"
  by (induction s) auto

lemma Split_append: "c \<notin> set s \<Longrightarrow> Split c (s @ c # t) = s # Split c t"
  by (induction s) auto

lemma join_Split: "join c (Split c s) = s"
proof (induction s)
  case Nil
  then show ?case by simp
next
  case (Cons x s)
  obtain p ps where ps: "Split c s = p # ps" by (cases "Split c s") auto
  with Cons show ?case by (cases ps) auto
qed

lemma after_last_no: "c \<in> set (after_last P s) \<Longrightarrow> \<not> P c"
  by (auto simp: after_last_def dest: set_takeWhileD)

lemma length_after_last: "length (after_last P s) \<le> length s"
  by (simp add: after_last_def length_takeWhile_le [of _ "rev s", simplified])

end
