(* ===== verification/Fault.thy ===== *)
theory Fault
  imports GoStrings
begin

text \<open>
  The package \<open>internal/fault\<close>: the error kinds a service reports, the translation of a
  database error into one of them (\<open>fault.DB\<close>) and the input checks \<open>fault.Email\<close>,
  \<open>fault.Name\<close> and \<open>fault.UUID\<close>.

  A Go \<open>error\<close> is a value of \<open>goerr\<close>; a nil error is \<open>None\<close>.  Every error the
  program distinguishes has its constructor: \<open>NoRows\<close> is \<open>sql.ErrNoRows\<close>, \<open>PgError\<close>
  and \<open>MySQLError\<close> carry the code the driver reports, \<open>FaultError\<close> is \<open>*fault.Error\<close>
  with the cause it wraps, \<open>ErrRecipient\<close>, \<open>ErrItem\<close> and \<open>ErrInvalid\<close> are the sentinels
  of the notification service, \<open>ApiError\<close> is the transport's error and \<open>OtherError\<close> any
  other one (a lost connection, a failing random source).
\<close>

datatype kind = Invalid | Missing | Duplicate | Unauthorized | Forbidden | Internal
  | TooLarge | Unavailable

datatype goerr = NoRows | PgError bytes | MySQLError nat
  | FaultError kind bytes "goerr option"
  | ErrRecipient | ErrItem | ErrInvalid
  | ApiError nat bytes "bytes list"
  | OtherError bytes

fun Unwrap :: "goerr \<Rightarrow> goerr option" where
  "Unwrap (FaultError k m c) = c"
| "Unwrap _ = None"

text \<open>\<open>errors.Is\<close> and \<open>errors.As\<close> walk the chain of wrapped causes.\<close>

fun Is :: "goerr \<Rightarrow> goerr \<Rightarrow> bool" where
  "Is (FaultError k m (Some c)) t \<longleftrightarrow> FaultError k m (Some c) = t \<or> Is c t"
| "Is e t \<longleftrightarrow> e = t"

fun as_fault :: "goerr \<Rightarrow> (kind \<times> bytes) option" where
  "as_fault (FaultError k m c) = Some (k, m)"
| "as_fault _ = None"

fun as_mysql :: "goerr \<Rightarrow> nat option" where
  "as_mysql (MySQLError n) = Some n"
| "as_mysql (FaultError k m (Some c)) = as_mysql c"
| "as_mysql _ = None"

fun as_pg :: "goerr \<Rightarrow> bytes option" where
  "as_pg (PgError c) = Some c"
| "as_pg (FaultError k m (Some c)) = as_pg c"
| "as_pg _ = None"

definition New :: "kind \<Rightarrow> bytes \<Rightarrow> goerr" where
  "New k m = FaultError k m None"

text \<open>\<open>fault.DB\<close> of a non-nil error; a nil error stays nil in the callers.\<close>

definition DB :: "goerr \<Rightarrow> goerr" where
  "DB err =
    (if as_fault err \<noteq> None then err
     else if Is err NoRows then New Missing ''Not found''
     else (case as_mysql err of
        Some n \<Rightarrow>
          if n = 1062 then New Duplicate ''Record already exists''
          else if n = 1451 \<or> n = 1452 then New Invalid ''Referenced record does not exist or is in use''
          else if n = 1205 \<or> n = 1213 then New Duplicate ''Concurrent change; retry the request''
          else FaultError Internal ''Internal server error'' (Some err)
      | None \<Rightarrow> (case as_pg err of
          Some c \<Rightarrow>
            if c = ''23505'' then New Duplicate ''Record already exists''
            else if c = ''23503'' \<or> c = ''23001'' then
              New Invalid ''Referenced record does not exist or is in use''
            else if c = ''40001'' \<or> c = ''40P01'' then
              New Duplicate ''Concurrent change; retry the request''
            else FaultError Internal ''Internal server error'' (Some err)
        | None \<Rightarrow> FaultError Internal ''Internal server error'' (Some err))))"

text \<open>
  \<open>uuid.Parse\<close> is code of another module: the check takes the predicate "parses without an
  error" as its argument.
\<close>

definition UUID :: "(bytes \<Rightarrow> bool) \<Rightarrow> bytes \<Rightarrow> goerr option" where
  "UUID parses v = (if parses v then None else Some (New Invalid ''Invalid UUID''))"

text \<open>
  The bytes of the class \<open>[^\s@]\<close> of the expression for e-mail addresses, and the match of
  \<open>^[^\s@]+@[^\s@]+\.[^\s@]+$\<close>: one \<open>@\<close>, a non-empty local part, and a domain with a dot
  that is neither its first nor its last byte.
\<close>

definition email_class :: "char \<Rightarrow> bool" where
  "email_class c \<longleftrightarrow> byte c \<notin> {9, 10, 12, 13, 32} \<and> c \<noteq> CHR ''@''"

definition emailRE :: "bytes \<Rightarrow> bool" where
  "emailRE v = (case Split CHR ''@'' v of
      [a, d] \<Rightarrow> a \<noteq> [] \<and> list_all email_class a \<and> list_all email_class d
                \<and> CHR ''.'' \<in> set (butlast (tl d))
    | _ \<Rightarrow> False)"

definition Email :: "bytes \<Rightarrow> goerr option" where
  "Email v = (if \<not> emailRE v \<or> length v > 320 then Some (New Invalid ''Invalid email address'') else None)"

definition Name :: "bytes \<Rightarrow> nat \<Rightarrow> goerr option" where
  "Name v m = (if TrimSpace v = [] \<or> RuneCountInString v > m
     then Some (New Invalid (''name must contain 1-'' @ Itoa m @ '' characters'')) else None)"

subsection \<open>What the translation guarantees\<close>

lemma as_fault_New [simp]: "as_fault (New k m) = Some (k, m)"
  by (simp add: New_def)

lemma DB_fault [simp]: "as_fault e \<noteq> None \<Longrightarrow> DB e = e"
  by (simp add: DB_def)

lemma DB_New [simp]: "DB (New k m) = New k m"
  by simp

lemma DB_is_fault [simp]: "as_fault (DB e) \<noteq> None"
  by (simp add: DB_def split: option.splits)

text \<open>Every result is the error itself, a public kind without a cause, or an internal error.\<close>

definition DB_result :: "goerr \<Rightarrow> goerr \<Rightarrow> bool" where
  "DB_result e x \<longleftrightarrow> (\<exists>k m. x = New k m \<and> k \<in> {Missing, Duplicate, Invalid})
     \<or> x = FaultError Internal ''Internal server error'' (Some e)"

lemma DB_result_If: "DB_result e x \<Longrightarrow> DB_result e y \<Longrightarrow> DB_result e (if b then x else y)"
  by simp

lemma DB_result_case:
  "(\<And>a. DB_result e (f a)) \<Longrightarrow> DB_result e y \<Longrightarrow>
   DB_result e (case p of Some a \<Rightarrow> f a | None \<Rightarrow> y)"
  by (cases p) auto

lemma DB_result_New: "k \<in> {Missing, Duplicate, Invalid} \<Longrightarrow> DB_result e (New k m)"
  by (auto simp: DB_result_def)

lemma DB_result_Internal: "DB_result e (FaultError Internal ''Internal server error'' (Some e))"
  by (simp add: DB_result_def)

lemma DB_result: "as_fault e = None \<Longrightarrow> DB_result e (DB e)"
  unfolding DB_def
  by (simp only: simp_thms if_False)
     (intro DB_result_If DB_result_case DB_result_New DB_result_Internal, simp_all)

lemma DB_cases:
  obtains "as_fault e \<noteq> None" "DB e = e"
  | k m where "DB e = New k m" "k \<in> {Missing, Duplicate, Invalid}"
  | "as_fault e = None" "DB e = FaultError Internal ''Internal server error'' (Some e)"
proof (cases "as_fault e")
  case (Some a)
  then show thesis using that(1) by simp
next
  case None
  then show thesis using DB_result [of e] that(2,3) unfolding DB_result_def by blast
qed

lemma set_butlast_tl:
  "c \<in> set (butlast (tl d)) \<longleftrightarrow> (\<exists>a b. d = a @ c # b \<and> a \<noteq> [] \<and> b \<noteq> [])"
proof
  assume "c \<in> set (butlast (tl d))"
  then obtain x y where xy: "butlast (tl d) = x @ c # y" by (meson split_list)
  then have ne: "tl d \<noteq> []" "d \<noteq> []" by auto
  then have "tl d = (x @ c # y) @ [last (tl d)]" using xy by (metis append_butlast_last_id)
  then have "d = (hd d # x) @ c # (y @ [last (tl d)])"
    using ne by (metis append.assoc append_Cons list.collapse)
  then show "\<exists>a b. d = a @ c # b \<and> a \<noteq> [] \<and> b \<noteq> []" by blast
next
  assume "\<exists>a b. d = a @ c # b \<and> a \<noteq> [] \<and> b \<noteq> []"
  then obtain a b where d: "d = a @ c # b" "a \<noteq> []" "b \<noteq> []" by blast
  then have "tl d = tl a @ c # b" by simp
  then have "butlast (tl d) = tl a @ c # butlast b" using d by (simp add: butlast_append)
  then show "c \<in> set (butlast (tl d))" by simp
qed

lemma list_all_email_no_at: "list_all email_class a \<Longrightarrow> CHR ''@'' \<notin> set a"
  by (auto simp: list_all_iff email_class_def)

lemma emailRE_iff:
  "emailRE v \<longleftrightarrow> (\<exists>a b c. v = a @ ''@'' @ b @ ''.'' @ c \<and> a \<noteq> [] \<and> b \<noteq> [] \<and> c \<noteq> []
     \<and> list_all email_class a \<and> list_all email_class b \<and> list_all email_class c)"
  (is "?l \<longleftrightarrow> ?r")
proof
  assume ?l
  then obtain a d where s: "Split CHR ''@'' v = [a, d]" and a: "a \<noteq> []" "list_all email_class a"
    and d: "list_all email_class d" "CHR ''.'' \<in> set (butlast (tl d))"
    by (auto simp: emailRE_def split: list.splits)
  from s have v: "v = a @ ''@'' @ d" using join_Split [of "CHR ''@''" v] by simp
  from d(2) obtain b c where "d = b @ CHR ''.'' # c" "b \<noteq> []" "c \<noteq> []"
    by (auto simp: set_butlast_tl)
  with v a d(1) show ?r by (intro exI [of _ a] exI [of _ b] exI [of _ c]) auto
next
  assume ?r
  then obtain a b c where v: "v = a @ ''@'' @ b @ ''.'' @ c" and ne: "a \<noteq> []" "b \<noteq> []" "c \<noteq> []"
    and cl: "list_all email_class a" "list_all email_class b" "list_all email_class c" by blast
  let ?d = "b @ ''.'' @ c"
  have d: "list_all email_class ?d" using cl by (simp add: email_class_def byte_def)
  have "Split CHR ''@'' v = a # Split CHR ''@'' ?d"
    unfolding v using Split_append [OF list_all_email_no_at [OF cl(1)]] by simp
  also have "Split CHR ''@'' ?d = [?d]" by (rule Split_id) (rule list_all_email_no_at [OF d])
  finally have "Split CHR ''@'' v = [a, ?d]" .
  moreover have "CHR ''.'' \<in> set (butlast (tl ?d))"
    unfolding set_butlast_tl using ne by (intro exI [of _ b] exI [of _ c]) simp
  ultimately show ?l using ne cl(1) d by (simp add: emailRE_def)
qed

end
