(* ===== verification/Json.thy ===== *)
theory Json
  imports Fault
begin

text \<open>
  JSON values as \<open>encoding/json\<close> reads and writes them.  An object is the list of its members
  in the order they are written; reading one into a Go map keeps the last of several members
  with one name, and writing a map sorts the names.  \<open>JTime\<close> is the RFC 3339 text of an
  instant, which \<open>time.Time.MarshalJSON\<close> refuses outside the years 0 to 9999.
\<close>

datatype json = JNull | JBool bool | JNum int | JStr bytes | JTime instant
  | JArr "json list" | JObj "(bytes \<times> json) list"

definition time_marshals :: "instant \<Rightarrow> bool" where
  "time_marshals t \<longleftrightarrow> -62167219200000 \<le> t \<and> t < 253402300800000"

fun marshals :: "json \<Rightarrow> bool" where
  "marshals (JTime t) \<longleftrightarrow> time_marshals t"
| "marshals (JArr xs) \<longleftrightarrow> list_all marshals xs"
| "marshals (JObj kvs) \<longleftrightarrow> list_all (\<lambda>(k, v). marshals v) kvs"
| "marshals _ \<longleftrightarrow> True"

definition Marshal :: "json \<Rightarrow> goerr + json" where
  "Marshal j = (if marshals j then Inr j else Inl (OtherError ''Time.MarshalJSON: year outside of range [0,9999]''))"

text \<open>A Go map built from members and written back: sorted by name, the last member wins.\<close>

fun map_insert :: "bytes \<Rightarrow> 'v \<Rightarrow> (bytes \<times> 'v) list \<Rightarrow> (bytes \<times> 'v) list" where
  "map_insert k v [] = [(k, v)]"
| "map_insert k v ((k', v') # m) =
     (if k = k' then (k, v) # m else if k < k' then (k, v) # (k', v') # m
      else (k', v') # map_insert k v m)"

definition to_go_map :: "(bytes \<times> 'v) list \<Rightarrow> (bytes \<times> 'v) list" where
  "to_go_map kvs = fold (\<lambda>(k, v). map_insert k v) kvs []"

lemma keys_map_insert: "fst ` set (map_insert k v m) = insert k (fst ` set m)"
  by (induction k v m rule: map_insert.induct) auto

lemma sorted_map_insert:
  "sorted (map fst m) \<and> distinct (map fst m) \<Longrightarrow>
   sorted (map fst (map_insert k v m)) \<and> distinct (map fst (map_insert k v m))"
proof (induction k v m rule: map_insert.induct)
  case (1 k v)
  then show ?case by simp
next
  case (2 k v k' v' m)
  have keys: "set (map fst (map_insert k v m)) = insert k (set (map fst m))"
    using keys_map_insert [of k v m] by simp
  show ?case
    using 2 keys by (cases "k = k'"; cases "k < k'") (auto dest: order.strict_trans2)
qed

lemma map_insert_absent:
  "k \<notin> fst ` set m \<Longrightarrow> sorted (map fst m) \<Longrightarrow> set (map_insert k v m) = insert (k, v) (set m)"
  by (induction k v m rule: map_insert.induct) auto

lemma fold_map_insert_sorted:
  "sorted (map fst m) \<and> distinct (map fst m) \<Longrightarrow>
   sorted (map fst (fold (\<lambda>(k, v). map_insert k v) kvs m))
   \<and> distinct (map fst (fold (\<lambda>(k, v). map_insert k v) kvs m))"
  by (induction kvs arbitrary: m) (auto simp: sorted_map_insert)

lemma to_go_map_sorted:
  "sorted (map fst (to_go_map kvs))" "distinct (map fst (to_go_map kvs))"
  using fold_map_insert_sorted [of "[]" kvs] by (simp_all add: to_go_map_def)

lemma set_map_insert_subset: "set (map_insert k v m) \<subseteq> insert (k, v) (set m)"
  by (induction k v m rule: map_insert.induct) auto

lemma set_fold_map_insert: "set (fold (\<lambda>(k, v). map_insert k v) kvs m) \<subseteq> set kvs \<union> set m"
proof (induction kvs arbitrary: m)
  case Nil
  then show ?case by simp
next
  case (Cons p kvs)
  obtain k v where p: "p = (k, v)" by (cases p)
  have "set (fold (\<lambda>(k, v). map_insert k v) kvs (map_insert k v m))
      \<subseteq> set kvs \<union> set (map_insert k v m)" by (rule Cons.IH)
  with set_map_insert_subset [of k v m] p show ?case by auto
qed

lemma set_to_go_map: "set (to_go_map kvs) \<subseteq> set kvs"
  using set_fold_map_insert [of kvs "[]"] by (simp add: to_go_map_def)

lemma keys_to_go_map: "fst ` set (to_go_map kvs) = fst ` set kvs"
proof -
  have "fst ` set (fold (\<lambda>(k, v). map_insert k v) kvs m) = fst ` set kvs \<union> fst ` set m" for m
  proof (induction kvs arbitrary: m)
    case Nil
    then show ?case by simp
  next
    case (Cons p kvs)
    obtain k v where p: "p = (k, v)" by (cases p)
    show ?case using Cons.IH [of "map_insert k v m"] by (simp add: p keys_map_insert)
  qed
  from this [of "[]"] show ?thesis by (simp add: to_go_map_def)
qed

lemma map_insert_last:
  "\<forall>k' \<in> set (map fst m). k' < k \<Longrightarrow> map_insert k v m = m @ [(k, v)]"
  by (induction k v m rule: map_insert.induct) auto

lemma to_go_map_id:
  assumes "sorted (map fst kvs)" and "distinct (map fst kvs)"
  shows "to_go_map kvs = kvs"
  using assms
proof (induction kvs rule: rev_induct)
  case Nil
  then show ?case by (simp add: to_go_map_def)
next
  case (snoc p kvs)
  obtain k v where p: "p = (k, v)" by (cases p)
  from snoc.prems have s: "sorted (map fst kvs)" "distinct (map fst kvs)"
    and lt: "\<forall>k' \<in> set (map fst kvs). k' < k"
    by (force simp: p sorted_append order.strict_iff_order)+
  have "to_go_map (kvs @ [p]) = map_insert k v (to_go_map kvs)"
    by (simp add: to_go_map_def p)
  also have "\<dots> = kvs @ [p]"
    using snoc.IH [OF s] map_insert_last [OF lt] p by simp
  finally show ?case .
qed

end
