(* ===== verification/Schema.thy ===== *)
theory Schema
  imports Json
begin

text \<open>
  The rows of \<open>internal/db/sqlc/models.go\<close>, the database they live in, and the constraints
  the migrations of \<open>internal/db/migrations\<close> declare on the tables: primary keys, \<open>UNIQUE\<close>,
  \<open>FOREIGN KEY\<close>, \<open>CHECK\<close> and \<open>varchar\<close> lengths.  A column that is \<open>NOT NULL\<close> is a plain
  value, a nullable one an option.  The predicate \<open>wf_db\<close> collects the constraints; the
  statements of the query theories raise the engine's error code instead of breaking one.
\<close>

record role_row =
  r_id :: bytes
  r_name :: bytes
  r_created_at :: instant
  r_updated_at :: instant

record permission_row =
  p_id :: bytes
  p_name :: bytes
  p_created_at :: instant
  p_updated_at :: instant

record role_permission_row =
  rp_role_id :: bytes
  rp_permission_id :: bytes

record user_row =
  u_id :: bytes
  u_email :: bytes
  u_password :: bytes
  u_role_id :: bytes
  u_deleted_at :: "instant option"
  u_created_at :: instant
  u_updated_at :: instant

record activity_log =
  l_id :: bytes
  l_behavior :: bytes
  l_module :: bytes
  l_entity_id :: "bytes option"
  l_user_id :: "bytes option"
  l_actor_id_snapshot :: "bytes option"
  l_before :: "json option"
  l_after :: "json option"
  l_request_id :: "bytes option"
  l_endpoint_id :: "bytes option"
  l_created_at :: instant

record stored_file =
  f_id :: bytes
  f_storage :: bytes
  f_status :: bytes
  f_object_key :: bytes
  f_original_name :: bytes
  f_mime_type :: bytes
  f_size :: int
  f_uploader_id :: "bytes option"
  f_created_at :: instant

record refresh_token_row =
  t_id :: bytes
  t_family_id :: bytes
  t_user_id :: bytes
  t_token_hash :: bytes
  t_expires_at :: instant
  t_created_at :: instant
  t_revoked_at :: "instant option"

record refresh_family =
  m_id :: bytes
  m_user_id :: bytes
  m_created_at :: instant
  m_expires_at :: instant
  m_revoked_at :: "instant option"

record notification_row =
  n_id :: bytes
  n_recipient_id :: bytes
  n_actor_id :: "bytes option"
  n_title :: bytes
  n_body :: bytes
  n_email_status :: bytes
  n_read_at :: "instant option"
  n_created_at :: instant
  n_sequence :: int

record notification_counter =
  c_recipient_id :: bytes
  c_sequence :: int

record email_job =
  j_id :: bytes
  j_notification_id :: bytes
  j_recipient :: bytes
  j_title :: bytes
  j_body :: bytes
  j_status :: bytes
  j_attempts :: int
  j_available_at :: instant
  j_lease_id :: "bytes option"
  j_lease_until :: "instant option"
  j_completed_at :: "instant option"
  j_created_at :: instant

record database =
  roles :: "role_row list"
  permissions :: "permission_row list"
  role_permissions :: "role_permission_row list"
  users :: "user_row list"
  activity_logs :: "activity_log list"
  stored_files :: "stored_file list"
  auth_refresh_tokens :: "refresh_token_row list"
  refresh_families :: "refresh_family list"
  notifications :: "notification_row list"
  notification_counters :: "notification_counter list"
  email_jobs :: "email_job list"

definition empty_db :: database where
  "empty_db = \<lparr>roles = [], permissions = [], role_permissions = [], users = [],
     activity_logs = [], stored_files = [], auth_refresh_tokens = [], refresh_families = [],
     notifications = [], notification_counters = [], email_jobs = []\<rparr>"

subsection \<open>Engine errors\<close>

definition unique_violation :: goerr where "unique_violation = PgError ''23505''"
definition foreign_key_violation :: goerr where "foreign_key_violation = PgError ''23503''"
definition restrict_violation :: goerr where "restrict_violation = PgError ''23001''"
definition check_violation :: goerr where "check_violation = PgError ''23514''"
definition string_too_long :: goerr where "string_too_long = PgError ''22001''"
definition out_of_range :: goerr where "out_of_range = PgError ''22003''"
definition invalid_text :: goerr where "invalid_text = PgError ''22P02''"

lemmas engine_errors = unique_violation_def foreign_key_violation_def restrict_violation_def
  check_violation_def string_too_long_def out_of_range_def invalid_text_def

text \<open>
  A value stored in a \<open>varchar(n)\<close> column: at most \<open>n\<close> characters; characters beyond are
  dropped when they are all blanks and raise 22001 otherwise.
\<close>

definition varchar :: "nat \<Rightarrow> bytes \<Rightarrow> goerr + bytes" where
  "varchar n s = (let rs = runes s in
     if length rs \<le> n then Inr s
     else if list_all (\<lambda>p. fst p = 32) (drop n rs) then Inr (concat (map snd (take n rs)))
     else Inl string_too_long)"

subsection \<open>The constraints\<close>

text \<open>A nullable foreign key that refers to no row.\<close>

definition dangling :: "bytes option \<Rightarrow> bytes set \<Rightarrow> bool" where
  "dangling r ids \<longleftrightarrow> (case r of None \<Rightarrow> False | Some a \<Rightarrow> a \<notin> ids)"

lemma not_dangling [simp]: "\<not> dangling r ids \<longleftrightarrow> (\<forall>a. r = Some a \<longrightarrow> a \<in> ids)"
  by (cases r) (auto simp: dangling_def)

definition wf_roles :: "database \<Rightarrow> bool" where
  "wf_roles d \<longleftrightarrow> distinct (map r_id (roles d)) \<and> distinct (map r_name (roles d))"

definition wf_permissions :: "database \<Rightarrow> bool" where
  "wf_permissions d \<longleftrightarrow> distinct (map p_id (permissions d)) \<and> distinct (map p_name (permissions d))"

definition wf_role_permissions :: "database \<Rightarrow> bool" where
  "wf_role_permissions d \<longleftrightarrow> distinct (role_permissions d)
     \<and> rp_role_id ` set (role_permissions d) \<subseteq> r_id ` set (roles d)
     \<and> rp_permission_id ` set (role_permissions d) \<subseteq> p_id ` set (permissions d)"

definition wf_users :: "database \<Rightarrow> bool" where
  "wf_users d \<longleftrightarrow> distinct (map u_id (users d)) \<and> distinct (map u_email (users d))
     \<and> (\<forall>u \<in> set (users d). u_email u = ToLower (u_email u))
     \<and> u_role_id ` set (users d) \<subseteq> r_id ` set (roles d)"

definition wf_families :: "database \<Rightarrow> bool" where
  "wf_families d \<longleftrightarrow> distinct (map m_id (refresh_families d))
     \<and> m_user_id ` set (refresh_families d) \<subseteq> u_id ` set (users d)"

definition wf_tokens :: "database \<Rightarrow> bool" where
  "wf_tokens d \<longleftrightarrow> distinct (map t_id (auth_refresh_tokens d))
     \<and> distinct (map t_token_hash (auth_refresh_tokens d))
     \<and> (\<forall>t \<in> set (auth_refresh_tokens d). length (t_token_hash t) = 32)
     \<and> t_user_id ` set (auth_refresh_tokens d) \<subseteq> u_id ` set (users d)
     \<and> t_family_id ` set (auth_refresh_tokens d) \<subseteq> m_id ` set (refresh_families d)"

definition email_statuses :: "bytes list" where
  "email_statuses = [''NOT_REQUESTED'', ''PENDING'', ''SENT'', ''FAILED'']"

definition wf_notifications :: "database \<Rightarrow> bool" where
  "wf_notifications d \<longleftrightarrow> distinct (map n_id (notifications d))
     \<and> distinct (map (\<lambda>n. (n_recipient_id n, n_sequence n)) (notifications d))
     \<and> (\<forall>n \<in> set (notifications d). n_email_status n \<in> set email_statuses)
     \<and> n_recipient_id ` set (notifications d) \<subseteq> u_id ` set (users d)
     \<and> (\<forall>n \<in> set (notifications d). \<not> dangling (n_actor_id n) (u_id ` set (users d)))"

definition wf_counters :: "database \<Rightarrow> bool" where
  "wf_counters d \<longleftrightarrow> distinct (map c_recipient_id (notification_counters d))
     \<and> c_recipient_id ` set (notification_counters d) \<subseteq> u_id ` set (users d)"

definition job_statuses :: "bytes list" where
  "job_statuses = [''PENDING'', ''PROCESSING'', ''SENT'', ''FAILED'']"

definition wf_jobs :: "database \<Rightarrow> bool" where
  "wf_jobs d \<longleftrightarrow> distinct (map j_id (email_jobs d)) \<and> distinct (map j_notification_id (email_jobs d))
     \<and> (\<forall>j \<in> set (email_jobs d). j_status j \<in> set job_statuses)
     \<and> j_notification_id ` set (email_jobs d) \<subseteq> n_id ` set (notifications d)"

definition wf_logs :: "database \<Rightarrow> bool" where
  "wf_logs d \<longleftrightarrow> distinct (map l_id (activity_logs d))
     \<and> (\<forall>l \<in> set (activity_logs d). \<not> dangling (l_user_id l) (u_id ` set (users d)))"

definition wf_files :: "database \<Rightarrow> bool" where
  "wf_files d \<longleftrightarrow> distinct (map f_id (stored_files d)) \<and> distinct (map f_object_key (stored_files d))
     \<and> (\<forall>f \<in> set (stored_files d). f_storage f \<in> {''local'', ''s3''} \<and> f_status f \<in> {''READY'', ''PENDING''}
          \<and> 0 \<le> f_size f)
     \<and> (\<forall>f \<in> set (stored_files d). \<not> dangling (f_uploader_id f) (u_id ` set (users d)))"

definition wf_db :: "database \<Rightarrow> bool" where
  "wf_db d \<longleftrightarrow> wf_roles d \<and> wf_permissions d \<and> wf_role_permissions d \<and> wf_users d
     \<and> wf_families d \<and> wf_tokens d \<and> wf_notifications d \<and> wf_counters d \<and> wf_jobs d
     \<and> wf_logs d \<and> wf_files d"

lemmas wf_table_defs = wf_roles_def wf_permissions_def wf_role_permissions_def wf_users_def
  wf_families_def wf_tokens_def wf_notifications_def wf_counters_def wf_jobs_def wf_logs_def
  wf_files_def

lemma wf_empty_db: "wf_db empty_db"
  by (simp add: wf_db_def wf_table_defs empty_db_def)

text \<open>A well-formed database finds the row of a key by the key.\<close>

lemma wf_dbD:
  "wf_db d \<Longrightarrow> wf_roles d" "wf_db d \<Longrightarrow> wf_permissions d" "wf_db d \<Longrightarrow> wf_role_permissions d"
  "wf_db d \<Longrightarrow> wf_users d" "wf_db d \<Longrightarrow> wf_families d" "wf_db d \<Longrightarrow> wf_tokens d"
  "wf_db d \<Longrightarrow> wf_notifications d" "wf_db d \<Longrightarrow> wf_counters d" "wf_db d \<Longrightarrow> wf_jobs d"
  "wf_db d \<Longrightarrow> wf_logs d" "wf_db d \<Longrightarrow> wf_files d"
  by (simp_all add: wf_db_def)

end
