(* ===== verification/Runtime.thy ===== *)
theory Runtime
  imports Schema
begin

text \<open>
  How the services run against the database: \<open>internal/db\<close> (\<open>Connection.Queries\<close>,
  \<open>Connection.Transaction\<close>, \<open>InTx\<close>).

  An operation is a value of \<open>'a op\<close>: given the environment and the world it returns the
  result or a Go error, and the new world.  The environment is what the repository does not
  contain: the clocks, the random source, UUIDs, the cryptographic functions, and the failures
  of the database engine or the connection.  It answers by tick, a counter of the calls made
  so far, so every theorem holds for every schedule of failures and every clock.

  A statement (\<open>stmt\<close>) fails as a whole or takes effect as a whole.  \<open>now()\<close> is the start of
  the enclosing transaction, as in PostgreSQL.  A statement outside a transaction (\<open>Q\<close>) is a
  transaction of its own.  Transactions are serialised: the row locks the code takes
  (\<open>FOR UPDATE\<close>) are what makes this the right granularity, and interleaving of whole
  transactions and autocommitted statements is explicit where a property depends on it.  A
  \<open>COMMIT\<close> that reports an error is taken not to have happened.
\<close>

text \<open>The claims of an access token (\<open>auth.Claims\<close>), which the JWT library signs and parses.\<close>

record claims =
  cl_ID :: bytes
  cl_Email :: bytes
  cl_RoleID :: bytes
  cl_TokenUse :: bytes
  cl_Issuer :: bytes
  cl_Audience :: "bytes list"
  cl_IssuedAt :: instant
  cl_ExpiresAt :: instant

record env =
  fault_at :: "nat \<Rightarrow> goerr option"         \<comment> \<open>the engine or the connection fails at this tick\<close>
  app_now :: "nat \<Rightarrow> instant"               \<comment> \<open>\<open>time.Now()\<close>\<close>
  db_now :: "nat \<Rightarrow> instant"                \<comment> \<open>the clock of the database server\<close>
  gen_uuid :: "nat \<Rightarrow> bytes"                \<comment> \<open>\<open>uuid.NewString\<close>, \<open>gen_random_uuid()\<close>\<close>
  uuid_parses :: "bytes \<Rightarrow> bool"            \<comment> \<open>\<open>uuid.Parse\<close> returns no error\<close>
  uuid_in :: "bytes \<Rightarrow> bytes option"        \<comment> \<open>the text of the \<open>uuid\<close> value the engine reads\<close>
  rand_bytes :: "nat \<Rightarrow> goerr + bytes"      \<comment> \<open>\<open>crypto/rand.Read\<close>\<close>
  base64url :: "bytes \<Rightarrow> bytes"             \<comment> \<open>\<open>base64.RawURLEncoding\<close>\<close>
  sha256 :: "bytes \<Rightarrow> bytes"
  bcrypt_hash :: "nat \<Rightarrow> bytes \<Rightarrow> goerr + bytes"
  bcrypt_matches :: "bytes \<Rightarrow> bytes \<Rightarrow> bool"
  jwt_sign :: "bytes \<Rightarrow> claims \<Rightarrow> goerr + bytes"     \<comment> \<open>HS256 with this secret\<close>
  jwt_parse :: "bytes \<Rightarrow> bytes \<Rightarrow> bytes \<Rightarrow> instant \<Rightarrow> bytes \<Rightarrow> claims option"
    \<comment> \<open>secret, issuer and audience to require, the time: a valid HS256 token with an expiry\<close>

record world =
  db :: database
  tick :: nat
  txnow :: instant

type_synonym 'a op = "env \<Rightarrow> world \<Rightarrow> (goerr + 'a) \<times> world"

definition bump :: "world \<Rightarrow> world" where
  "bump w = w\<lparr>tick := Suc (tick w)\<rparr>"

definition returnE :: "'a \<Rightarrow> 'a op" where
  "returnE a = (\<lambda>e w. (Inr a, w))"

definition failE :: "goerr \<Rightarrow> 'a op" where
  "failE x = (\<lambda>e w. (Inl x, w))"

definition bindE :: "'a op \<Rightarrow> ('a \<Rightarrow> 'b op) \<Rightarrow> 'b op" where
  "bindE m k = (\<lambda>e w. case m e w of (Inl x, w') \<Rightarrow> (Inl x, w') | (Inr a, w') \<Rightarrow> k a e w')"

text \<open>\<open>if err != nil { return f(err) }\<close>.\<close>

definition mapE :: "(goerr \<Rightarrow> goerr) \<Rightarrow> 'a op \<Rightarrow> 'a op" where
  "mapE h m = (\<lambda>e w. case m e w of (Inl x, w') \<Rightarrow> (Inl (h x), w') | (Inr a, w') \<Rightarrow> (Inr a, w'))"

text \<open>The error as a value, for code that looks at it before it decides.\<close>

definition attempt :: "'a op \<Rightarrow> (goerr + 'a) op" where
  "attempt m = (\<lambda>e w. case m e w of (r, w') \<Rightarrow> (Inr r, w'))"

definition guardE :: "goerr option \<Rightarrow> unit op" where
  "guardE g = (case g of None \<Rightarrow> returnE () | Some x \<Rightarrow> failE x)"

definition liftE :: "goerr + 'a \<Rightarrow> 'a op" where
  "liftE r = (case r of Inl x \<Rightarrow> failE x | Inr a \<Rightarrow> returnE a)"

definition askE :: "env op" where
  "askE = (\<lambda>e w. (Inr e, w))"

text \<open>A query whose \<open>sql.ErrNoRows\<close> is not a failure.\<close>

definition optional_row :: "'a op \<Rightarrow> 'a option op" where
  "optional_row m = bindE (attempt m) (\<lambda>r. case r of
       Inl x \<Rightarrow> if Is x NoRows then returnE None else failE x
     | Inr a \<Rightarrow> returnE (Some a))"

text \<open>A loop that leaves at the first error.\<close>

primrec forE :: "'a list \<Rightarrow> ('a \<Rightarrow> unit op) \<Rightarrow> unit op" where
  "forE [] f = returnE ()"
| "forE (x # xs) f = bindE (f x) (\<lambda>_. forE xs f)"

primrec mapM :: "('a \<Rightarrow> 'b op) \<Rightarrow> 'a list \<Rightarrow> 'b list op" where
  "mapM f [] = returnE []"
| "mapM f (x # xs) = bindE (f x) (\<lambda>y. bindE (mapM f xs) (\<lambda>ys. returnE (y # ys)))"

subsection \<open>Statements, clocks and random values\<close>

type_synonym 'a sql = "env \<Rightarrow> instant \<Rightarrow> bytes \<Rightarrow> database \<Rightarrow> goerr + ('a \<times> database)"

definition stmt :: "'a sql \<Rightarrow> 'a op" where
  "stmt f = (\<lambda>e w. case fault_at e (tick w) of
      Some x \<Rightarrow> (Inl x, bump w)
    | None \<Rightarrow> (case f e (txnow w) (gen_uuid e (tick w)) (db w) of
        Inl x \<Rightarrow> (Inl x, bump w)
      | Inr (a, d) \<Rightarrow> (Inr a, (bump w)\<lparr>db := d\<rparr>)))"

definition time_Now :: "instant op" where
  "time_Now = (\<lambda>e w. (Inr (app_now e (tick w)), bump w))"

definition NewString :: "bytes op" where
  "NewString = (\<lambda>e w. (Inr (gen_uuid e (tick w)), bump w))"

definition rand_Read :: "bytes op" where
  "rand_Read = (\<lambda>e w. (rand_bytes e (tick w), bump w))"

definition bcrypt_Generate :: "bytes \<Rightarrow> bytes op" where
  "bcrypt_Generate pw = (\<lambda>e w. (bcrypt_hash e (tick w) pw, bump w))"

definition Transaction :: "'a op \<Rightarrow> 'a op" where
  "Transaction fn = (\<lambda>e w. case fault_at e (tick w) of
      Some x \<Rightarrow> (Inl x, bump w)
    | None \<Rightarrow> (case fn e ((bump w)\<lparr>txnow := db_now e (tick w)\<rparr>) of
        (Inl x, w2) \<Rightarrow> (Inl x, w2\<lparr>db := db w\<rparr>)
      | (Inr a, w2) \<Rightarrow> (case fault_at e (tick w2) of
          Some x \<Rightarrow> (Inl x, (bump w2)\<lparr>db := db w\<rparr>)
        | None \<Rightarrow> (Inr a, bump w2))))"

definition Q :: "'a op \<Rightarrow> 'a op" where
  "Q m = (\<lambda>e w. m e (w\<lparr>txnow := db_now e (tick w)\<rparr>))"

text \<open>\<open>WHERE id = $1\<close> on a \<open>uuid\<close> column: the engine reads the text of the parameter first.\<close>

definition with_uuid :: "bytes \<Rightarrow> (bytes \<Rightarrow> 'a sql) \<Rightarrow> 'a sql" where
  "with_uuid s f = (\<lambda>e now new d. case uuid_in e s of
      None \<Rightarrow> Inl invalid_text | Some u \<Rightarrow> f u e now new d)"

text \<open>A nullable \<open>uuid\<close> parameter.\<close>

definition with_uuid_opt :: "bytes option \<Rightarrow> (bytes option \<Rightarrow> 'a sql) \<Rightarrow> 'a sql" where
  "with_uuid_opt p f = (case p of None \<Rightarrow> f None | Some s \<Rightarrow> with_uuid s (\<lambda>u. f (Some u)))"

definition select_row :: "(database \<Rightarrow> 'r option) \<Rightarrow> 'r sql" where
  "select_row f = (\<lambda>e now new d. case f d of None \<Rightarrow> Inl NoRows | Some r \<Rightarrow> Inr (r, d))"

definition select_rows :: "(database \<Rightarrow> 'a) \<Rightarrow> 'a sql" where
  "select_rows f = (\<lambda>e now new d. Inr (f d, d))"

text \<open>
  To evaluate a construct is to run it: the equations for evaluation take the environment and the
  world too, so that an operation inside another is not unfolded before it runs.
\<close>

fun continue :: "('a \<Rightarrow> 'b op) \<Rightarrow> env \<Rightarrow> (goerr + 'a) \<times> world \<Rightarrow> (goerr + 'b) \<times> world" where
  "continue k e (Inl x, w) = (Inl x, w)"
| "continue k e (Inr a, w) = k a e w"

lemma op_code [code]:
  "returnE a e w = (Inr a, w)"
  "failE x e w = (Inl x, w)"
  "bindE m k e w = continue k e (m e w)"
  "mapE h m e w = (case m e w of (Inl x, w') \<Rightarrow> (Inl (h x), w') | (Inr a, w') \<Rightarrow> (Inr a, w'))"
  "attempt m e w = (case m e w of (r, w') \<Rightarrow> (Inr r, w'))"
  "askE e w = (Inr e, w)"
  by (simp_all add: returnE_def failE_def bindE_def mapE_def attempt_def askE_def
      split: prod.split sum.split)

lemma statement_code [code]:
  "stmt f e w = (case fault_at e (tick w) of
      Some x \<Rightarrow> (Inl x, bump w)
    | None \<Rightarrow> (case f e (txnow w) (gen_uuid e (tick w)) (db w) of
        Inl x \<Rightarrow> (Inl x, bump w)
      | Inr (a, d) \<Rightarrow> (Inr a, (bump w)\<lparr>db := d\<rparr>)))"
  "Transaction fn e w = (case fault_at e (tick w) of
      Some x \<Rightarrow> (Inl x, bump w)
    | None \<Rightarrow> (case fn e ((bump w)\<lparr>txnow := db_now e (tick w)\<rparr>) of
        (Inl x, w2) \<Rightarrow> (Inl x, w2\<lparr>db := db w\<rparr>)
      | (Inr a, w2) \<Rightarrow> (case fault_at e (tick w2) of
          Some x \<Rightarrow> (Inl x, (bump w2)\<lparr>db := db w\<rparr>)
        | None \<Rightarrow> (Inr a, bump w2))))"
  "Q m e w = m e (w\<lparr>txnow := db_now e (tick w)\<rparr>)"
  "with_uuid s g e now new d = (case uuid_in e s of None \<Rightarrow> Inl invalid_text | Some u \<Rightarrow> g u e now new d)"
  "select_row h e now new d = (case h d of None \<Rightarrow> Inl NoRows | Some r \<Rightarrow> Inr (r, d))"
  "select_rows k e now new d = Inr (k d, d)"
  by (simp_all add: stmt_def Transaction_def Q_def with_uuid_def select_row_def select_rows_def)

subsection \<open>Running an operation\<close>

named_theorems run_simps \<open>how each construct runs\<close>

lemma bump_simps [simp]:
  "db (bump w) = db w" "tick (bump w) = Suc (tick w)" "txnow (bump w) = txnow w"
  by (simp_all add: bump_def)

lemma run_returnE [run_simps]: "returnE a e w = (Inr a, w)"
  by (simp add: returnE_def)

lemma run_failE [run_simps]: "failE x e w = (Inl x, w)"
  by (simp add: failE_def)

lemma run_askE [run_simps]: "askE e w = (Inr e, w)"
  by (simp add: askE_def)

lemma run_bindE_Inr [run_simps]:
  "bindE m k e w = (Inr b, w') \<longleftrightarrow> (\<exists>a w1. m e w = (Inr a, w1) \<and> k a e w1 = (Inr b, w'))"
  by (auto simp: bindE_def split: prod.splits sum.splits)

lemma run_mapE_Inr [run_simps]: "mapE h m e w = (Inr b, w') \<longleftrightarrow> m e w = (Inr b, w')"
  by (auto simp: mapE_def split: prod.splits sum.splits)

lemma run_attempt [run_simps]:
  "attempt m e w = (r, w') \<longleftrightarrow> (\<exists>x. r = Inr x \<and> m e w = (x, w'))"
  by (auto simp: attempt_def split: prod.splits)

lemma run_guardE_Inr [run_simps]: "guardE g e w = (Inr b, w') \<longleftrightarrow> g = None \<and> w' = w"
  by (auto simp: guardE_def returnE_def failE_def split: option.splits)

lemma run_liftE_Inr [run_simps]: "liftE r e w = (Inr b, w') \<longleftrightarrow> r = Inr b \<and> w' = w"
  by (auto simp: liftE_def returnE_def failE_def split: sum.splits)

lemma run_time_Now [run_simps]:
  "time_Now e w = (r, w') \<longleftrightarrow> r = Inr (app_now e (tick w)) \<and> w' = bump w"
  by (auto simp: time_Now_def)

lemma run_NewString [run_simps]:
  "NewString e w = (r, w') \<longleftrightarrow> r = Inr (gen_uuid e (tick w)) \<and> w' = bump w"
  by (auto simp: NewString_def)

lemma run_rand_Read [run_simps]:
  "rand_Read e w = (r, w') \<longleftrightarrow> r = rand_bytes e (tick w) \<and> w' = bump w"
  by (auto simp: rand_Read_def)

lemma run_bcrypt [run_simps]:
  "bcrypt_Generate pw e w = (r, w') \<longleftrightarrow> r = bcrypt_hash e (tick w) pw \<and> w' = bump w"
  by (auto simp: bcrypt_Generate_def)

lemma run_stmt_Inr [run_simps]:
  "stmt f e w = (Inr a, w') \<longleftrightarrow> fault_at e (tick w) = None \<and>
     (\<exists>d. f e (txnow w) (gen_uuid e (tick w)) (db w) = Inr (a, d) \<and> w' = (bump w)\<lparr>db := d\<rparr>)"
  by (auto simp: stmt_def split: option.splits sum.splits prod.splits)

lemma stmt_Inl_db: "stmt f e w = (Inl x, w') \<Longrightarrow> w' = bump w"
  by (auto simp: stmt_def split: option.splits sum.splits prod.splits)

lemma run_Transaction_Inr [run_simps]:
  "Transaction fn e w = (Inr a, w') \<longleftrightarrow> fault_at e (tick w) = None \<and>
     (\<exists>w2. fn e ((bump w)\<lparr>txnow := db_now e (tick w)\<rparr>) = (Inr a, w2)
        \<and> fault_at e (tick w2) = None \<and> w' = bump w2)"
  by (auto simp: Transaction_def split: option.splits sum.splits prod.splits)

lemma Transaction_rollback: "Transaction fn e w = (Inl x, w') \<Longrightarrow> db w' = db w"
  by (auto simp: Transaction_def split: option.splits sum.splits prod.splits)

lemma run_Q [run_simps]: "Q m e w = m e (w\<lparr>txnow := db_now e (tick w)\<rparr>)"
  by (simp add: Q_def)

lemma run_mapM:
  "mapM f [] e w = (Inr zs, w') \<longleftrightarrow> zs = [] \<and> w' = w"
  "mapM f (x # xs) e w = (Inr zs, w') \<longleftrightarrow>
     (\<exists>y w1 ys. f x e w = (Inr y, w1) \<and> mapM f xs e w1 = (Inr ys, w') \<and> zs = y # ys)"
  by (auto simp: run_returnE run_bindE_Inr)

lemma run_forE:
  "forE [] f e w = (Inr u, w') \<longleftrightarrow> w' = w"
  "forE (x # xs) f e w = (Inr u, w') \<longleftrightarrow> (\<exists>w1. f x e w = (Inr (), w1) \<and> forE xs f e w1 = (Inr (), w'))"
  by (auto simp: run_returnE run_bindE_Inr)

text \<open>A statement succeeds past its checks.\<close>

lemma check_Inr [run_simps]:
  "(if c then Inl x else y) = Inr b \<longleftrightarrow> \<not> c \<and> y = Inr b"
  "(case p of None \<Rightarrow> Inl x | Some a \<Rightarrow> f a) = Inr b \<longleftrightarrow> (\<exists>a. p = Some a \<and> f a = Inr b)"
  "(case r of Inl y \<Rightarrow> Inl (h y) | Inr a \<Rightarrow> f a) = Inr b \<longleftrightarrow> (\<exists>a. r = Inr a \<and> f a = Inr b)"
  by (auto split: option.splits sum.splits)

lemma select_row_Inr [run_simps]:
  "select_row f e now new d = Inr (r, d') \<longleftrightarrow> f d = Some r \<and> d' = d"
  by (auto simp: select_row_def split: option.splits)

lemma select_rows_Inr [run_simps]:
  "select_rows f e now new d = Inr (r, d') \<longleftrightarrow> r = f d \<and> d' = d"
  by (auto simp: select_rows_def)

lemma with_uuid_Inr [run_simps]:
  "with_uuid s f e now new d = Inr r \<longleftrightarrow> (\<exists>u. uuid_in e s = Some u \<and> f u e now new d = Inr r)"
  by (auto simp: with_uuid_def split: option.splits)

lemma with_uuid_opt_Inr [run_simps]:
  "with_uuid_opt p f e now new d = Inr r \<longleftrightarrow>
     (p = None \<and> f None e now new d = Inr r)
     \<or> (\<exists>s u. p = Some s \<and> uuid_in e s = Some u \<and> f (Some u) e now new d = Inr r)"
  by (cases p) (auto simp: with_uuid_opt_def with_uuid_Inr)

text \<open>The successful runs of a composition, taken apart without looking into its parts.\<close>

lemma run_returnE_Inr: "returnE a e w = (Inr b, w') \<longleftrightarrow> b = a \<and> w' = w"
  by (auto simp: returnE_def)

lemma ex_unit: "(\<exists>u :: unit. P u) \<longleftrightarrow> P ()"
  by (metis (full_types) old.unit.exhaust)

lemmas run_parts = run_bindE_Inr run_mapE_Inr run_liftE_Inr run_guardE_Inr run_returnE_Inr ex_unit
  prod.inject

subsection \<open>What every operation keeps: relations between the old and the new database\<close>

text \<open>
  The interface between a service and a property of the database that evolves along it: a
  reflexive and transitive relation.  The composition rules hold for each such relation, so a
  property is proved for the statements and lifts to every service by the rules.
\<close>

definition evolves :: "(database \<Rightarrow> database \<Rightarrow> bool) \<Rightarrow> env \<Rightarrow> 'a op \<Rightarrow> bool" where
  "evolves R e m \<longleftrightarrow> (\<forall>w. R (db w) (db (snd (m e w))))"

lemma evolvesD: "evolves R e m \<Longrightarrow> m e w = (r, w') \<Longrightarrow> R (db w) (db w')"
  by (auto simp: evolves_def dest: spec [of _ w])

text \<open>The same of the successful runs only: what the body of a transaction has to show.\<close>

definition achieves :: "(database \<Rightarrow> database \<Rightarrow> bool) \<Rightarrow> env \<Rightarrow> 'a op \<Rightarrow> bool" where
  "achieves R e m \<longleftrightarrow> (\<forall>w a w'. m e w = (Inr a, w') \<longrightarrow> R (db w) (db w'))"

lemma achievesI:
  "(\<And>w a w'. m e w = (Inr a, w') \<Longrightarrow> R (db w) (db w')) \<Longrightarrow> achieves R e m"
  by (simp add: achieves_def)

lemma evolves_achieves: "evolves R e m \<Longrightarrow> achieves R e m"
  by (auto simp: achieves_def dest: evolvesD)

locale evolution =
  fixes R :: "database \<Rightarrow> database \<Rightarrow> bool"
  assumes refl: "R d d"
    and trans: "R a b \<Longrightarrow> R b c \<Longrightarrow> R a c"
begin

lemma ev_returnE: "evolves R e (returnE a)"
  by (simp add: evolves_def returnE_def refl)

lemma ev_failE: "evolves R e (failE x)"
  by (simp add: evolves_def failE_def refl)

lemma ev_askE: "evolves R e askE"
  by (simp add: evolves_def askE_def refl)

lemma ev_bindE:
  assumes "evolves R e m" and "\<And>a. evolves R e (k a)"
  shows "evolves R e (bindE m k)"
proof (unfold evolves_def, rule allI)
  fix w
  have "R (db w) (db (snd (m e w)))" using assms(1) by (simp add: evolves_def)
  moreover have "R (db v) (db (snd (k a e v)))" for a v using assms(2) by (simp add: evolves_def)
  ultimately show "R (db w) (db (snd (bindE m k e w)))"
    by (auto simp: bindE_def split: prod.splits sum.splits intro: trans)
qed

text \<open>The same with the environment the operation asked for.\<close>

lemma ev_askE_bind: "evolves R e (k e) \<Longrightarrow> evolves R e (bindE askE k)"
  by (simp add: evolves_def bindE_def askE_def)

lemma ev_mapE: "evolves R e m \<Longrightarrow> evolves R e (mapE h m)"
  by (auto simp: evolves_def mapE_def split: prod.splits sum.splits) (metis snd_conv)+

lemma ev_attempt: "evolves R e m \<Longrightarrow> evolves R e (attempt m)"
  by (auto simp: evolves_def attempt_def split: prod.splits) (metis snd_conv)

lemma ev_guardE: "evolves R e (guardE g)"
  by (cases g) (simp_all add: guardE_def ev_returnE ev_failE)

lemma ev_guardE_bind: "(g = None \<Longrightarrow> evolves R e (k ())) \<Longrightarrow> evolves R e (bindE (guardE g) k)"
  by (cases g) (simp_all add: guardE_def evolves_def bindE_def returnE_def failE_def refl)

lemma ev_liftE: "evolves R e (liftE r)"
  by (cases r) (simp_all add: liftE_def ev_returnE ev_failE)

lemma ev_forE: "(\<And>x. evolves R e (f x)) \<Longrightarrow> evolves R e (forE xs f)"
  by (induction xs) (auto intro: ev_returnE ev_bindE)

lemma ev_mapM: "(\<And>x. evolves R e (f x)) \<Longrightarrow> evolves R e (mapM f xs)"
  by (induction xs) (auto intro!: ev_returnE ev_bindE)

lemma ev_stmt:
  "(\<And>now new d a d'. f e now new d = Inr (a, d') \<Longrightarrow> R d d') \<Longrightarrow> evolves R e (stmt f)"
  by (auto simp: evolves_def stmt_def refl split: option.splits sum.splits prod.splits)

lemma ev_clocks: "evolves R e time_Now" "evolves R e NewString" "evolves R e rand_Read"
  "evolves R e (bcrypt_Generate pw)"
  by (simp_all add: evolves_def time_Now_def NewString_def rand_Read_def bcrypt_Generate_def refl)

lemma ev_Q: "evolves R e m \<Longrightarrow> evolves R e (Q m)"
  unfolding evolves_def Q_def by (metis world.select_convs(1) world.simps(8) world.surjective world.update_convs(3))

lemma ev_Transaction:
  assumes "evolves R e m"
  shows "evolves R e (Transaction m)"
proof (unfold evolves_def, rule allI)
  fix w
  have "R (db w) (db (snd (m e ((bump w)\<lparr>txnow := db_now e (tick w)\<rparr>))))"
    using assms [unfolded evolves_def, rule_format, of "(bump w)\<lparr>txnow := db_now e (tick w)\<rparr>"] by simp
  then show "R (db w) (db (snd (Transaction m e w)))"
    by (auto simp: Transaction_def refl split: option.splits sum.splits prod.splits)
qed

lemma ev_Transaction_achieves: "achieves R e m \<Longrightarrow> evolves R e (Transaction m)"
  by (auto simp: evolves_def achieves_def Transaction_def refl split: option.splits sum.splits prod.splits)
     (metis bump_simps(1) world.simps(8) world.ext_inject world.surjective world.update_convs(3))

lemma ach_bindE:
  "achieves R e m \<Longrightarrow> (\<And>a. achieves R e (k a)) \<Longrightarrow> achieves R e (bindE m k)"
  unfolding achieves_def run_bindE_Inr by (blast intro: trans)

lemma ach_mapE: "achieves R e m \<Longrightarrow> achieves R e (mapE h m)"
  by (auto simp: achieves_def run_mapE_Inr)

lemma ach_returnE: "achieves R e (returnE a)"
  by (simp add: achieves_def run_returnE refl)

lemma ach_failE: "achieves R e (failE x)"
  by (simp add: achieves_def failE_def)

lemma ach_If: "(b \<Longrightarrow> achieves R e x) \<Longrightarrow> (\<not> b \<Longrightarrow> achieves R e y) \<Longrightarrow> achieves R e (if b then x else y)"
  by simp

lemma ach_case_option:
  "achieves R e x \<Longrightarrow> (\<And>a. achieves R e (y a)) \<Longrightarrow> achieves R e (case p of None \<Rightarrow> x | Some a \<Rightarrow> y a)"
  by (cases p) auto

lemma ach_Let: "(\<And>a. achieves R e (x a)) \<Longrightarrow> achieves R e (let a = v in x a)"
  by simp

lemma ev_If: "evolves R e x \<Longrightarrow> evolves R e y \<Longrightarrow> evolves R e (if b then x else y)"
  by simp

lemma ev_case_option:
  "evolves R e x \<Longrightarrow> (\<And>a. evolves R e (y a)) \<Longrightarrow> evolves R e (case p of None \<Rightarrow> x | Some a \<Rightarrow> y a)"
  by (cases p) auto

lemma ev_case_sum:
  "(\<And>a. evolves R e (x a)) \<Longrightarrow> (\<And>a. evolves R e (y a)) \<Longrightarrow>
   evolves R e (case p of Inl a \<Rightarrow> x a | Inr a \<Rightarrow> y a)"
  by (cases p) auto

lemma ev_case_prod: "(\<And>a b. evolves R e (x a b)) \<Longrightarrow> evolves R e (case p of (a, b) \<Rightarrow> x a b)"
  by (cases p) auto

lemma ev_Let: "(\<And>a. evolves R e (x a)) \<Longrightarrow> evolves R e (let a = v in x a)"
  by simp

lemma ev_optional_row: "evolves R e m \<Longrightarrow> evolves R e (optional_row m)"
  unfolding optional_row_def by (intro ev_bindE ev_attempt ev_case_sum ev_If ev_returnE ev_failE)

lemmas ev_rules = ev_returnE ev_failE ev_askE_bind ev_guardE_bind ev_bindE ev_mapE ev_attempt ev_guardE ev_liftE
  ev_forE ev_mapM ev_clocks ev_Q ev_Transaction ev_If ev_case_option ev_case_sum ev_case_prod ev_Let ev_optional_row

lemmas ach_rules = ach_returnE ach_failE ach_bindE ach_mapE ach_If ach_case_option ach_Let

end

text \<open>Keeping an invariant is an evolution.\<close>

definition keeps :: "(database \<Rightarrow> bool) \<Rightarrow> database \<Rightarrow> database \<Rightarrow> bool" where
  "keeps I d d' \<longleftrightarrow> (I d \<longrightarrow> I d')"

interpretation keeps: evolution "keeps I" for I
  by unfold_locales (auto simp: keeps_def)

lemma keeps_run: "evolves (keeps I) e m \<Longrightarrow> m e w = (r, w') \<Longrightarrow> I (db w) \<Longrightarrow> I (db w')"
  by (drule (1) evolvesD) (simp add: keeps_def)

lemma keeps_stmt:
  "(\<And>now new d a d'. I d \<Longrightarrow> f e now new d = Inr (a, d') \<Longrightarrow> I d') \<Longrightarrow> evolves (keeps I) e (stmt f)"
  by (rule keeps.ev_stmt) (auto simp: keeps_def)

text \<open>An operation that changes no table.\<close>

interpretation same: evolution "(=)"
  by unfold_locales auto

named_theorems reads \<open>statements that change no row\<close>
named_theorems writes \<open>statements that keep the constraints\<close>

lemma reads_stmt [reads]:
  "evolves (=) e (stmt (select_row f))" "evolves (=) e (stmt (select_rows g))"
  "evolves (=) e (stmt (with_uuid s (\<lambda>u. select_row (fu u))))"
  "evolves (=) e (stmt (with_uuid s (\<lambda>u. select_rows (gu u))))"
  "evolves (=) e (stmt (with_uuid s (\<lambda>u. with_uuid s' (\<lambda>u'. select_row (fuu u u')))))"
  by (rule same.ev_stmt, auto simp: run_simps)+

lemma run_optional_row:
  "optional_row m e w = (Inr r, w') \<longleftrightarrow>
     (\<exists>x. m e w = (Inl x, w') \<and> Is x NoRows \<and> r = None) \<or> (\<exists>a. m e w = (Inr a, w') \<and> r = Some a)"
  by (cases "m e w"; cases "fst (m e w)")
     (auto simp: optional_row_def bindE_def attempt_def failE_def returnE_def)

lemma same_keeps: "evolves (=) e m \<Longrightarrow> evolves (keeps I) e m"
  by (auto simp: evolves_def keeps_def)

text \<open>An operation that leaves a view of the database as it is.\<close>

definition fixed :: "(database \<Rightarrow> 'v) \<Rightarrow> database \<Rightarrow> database \<Rightarrow> bool" where
  "fixed f d d' \<longleftrightarrow> f d' = f d"

interpretation fixed: evolution "fixed f" for f
  by unfold_locales (auto simp: fixed_def)

named_theorems frames \<open>the views a statement leaves as they are\<close>

lemma same_fixed: "evolves (=) e m \<Longrightarrow> evolves (fixed f) e m"
  by (simp add: evolves_def fixed_def)

lemma fixed_stmt:
  "(\<And>now new d a d'. q e now new d = Inr (a, d') \<Longrightarrow> f d' = f d) \<Longrightarrow> evolves (fixed f) e (stmt q)"
  by (rule fixed.ev_stmt) (simp add: fixed_def)

lemma fixed_weaken:
  "evolves (fixed f) e m \<Longrightarrow> (\<And>d d'. f d' = f d \<Longrightarrow> R d d') \<Longrightarrow> evolves R e m"
  by (simp add: evolves_def fixed_def)

lemma evolves_same: "evolves (=) e m \<Longrightarrow> evolution R \<Longrightarrow> evolves R e m"
  by (simp add: evolves_def evolution.refl)

end
