(* ===== verification/QueriesAuth.thy ===== *)
theory QueriesAuth
  imports Runtime
begin

text \<open>
  The statements of \<open>internal/db/sqlc/auth.sql.go\<close>: users by e-mail or id, refresh tokens,
  refresh families and the permission check.  Each definition is the SQL text of the generated
  function; a statement that would break a constraint raises the engine's code instead.
\<close>

definition CreateAuthRefreshToken :: "bytes \<Rightarrow> bytes \<Rightarrow> bytes \<Rightarrow> instant \<Rightarrow> unit op" where
  "CreateAuthRefreshToken family_id user_id token_hash expires_at =
    stmt (with_uuid family_id (\<lambda>fam. with_uuid user_id (\<lambda>user e now new d.
      if length token_hash \<noteq> 32 then Inl check_violation
      else if new \<in> t_id ` set (auth_refresh_tokens d)
           \<or> token_hash \<in> t_token_hash ` set (auth_refresh_tokens d) then Inl unique_violation
      else if user \<notin> u_id ` set (users d) \<or> fam \<notin> m_id ` set (refresh_families d)
        then Inl foreign_key_violation
      else Inr ((), d\<lparr>auth_refresh_tokens := auth_refresh_tokens d @
        [\<lparr>t_id = new, t_family_id = fam, t_user_id = user, t_token_hash = token_hash,
          t_expires_at = expires_at, t_created_at = now, t_revoked_at = None\<rparr>]\<rparr>))))"

definition CreateRefreshFamily :: "bytes \<Rightarrow> bytes \<Rightarrow> instant \<Rightarrow> unit op" where
  "CreateRefreshFamily ident user_id expires_at =
    stmt (with_uuid ident (\<lambda>i. with_uuid user_id (\<lambda>user e now new d.
      if i \<in> m_id ` set (refresh_families d) then Inl unique_violation
      else if user \<notin> u_id ` set (users d) then Inl foreign_key_violation
      else Inr ((), d\<lparr>refresh_families := refresh_families d @
        [\<lparr>m_id = i, m_user_id = user, m_created_at = now, m_expires_at = expires_at,
          m_revoked_at = None\<rparr>]\<rparr>))))"

definition DeleteExpiredAuthRefreshTokens :: "bytes \<Rightarrow> unit op" where
  "DeleteExpiredAuthRefreshTokens user_id = stmt (with_uuid user_id (\<lambda>user e now new d.
     Inr ((), d\<lparr>auth_refresh_tokens :=
       delete_where (\<lambda>t. t_user_id t = user \<and> t_expires_at t < now) (auth_refresh_tokens d)\<rparr>)))"

definition FindActiveUserByEmail :: "bytes \<Rightarrow> user_row op" where
  "FindActiveUserByEmail email =
     stmt (select_row (\<lambda>d. select_one (\<lambda>u. u_email u = email \<and> u_deleted_at u = None) (users d)))"

definition FindActiveUserByID :: "bytes \<Rightarrow> user_row op" where
  "FindActiveUserByID ident = stmt (with_uuid ident (\<lambda>i.
     select_row (\<lambda>d. select_one (\<lambda>u. u_id u = i \<and> u_deleted_at u = None) (users d))))"

definition FindAuthRefreshTokenByHash :: "bytes \<Rightarrow> refresh_token_row op" where
  "FindAuthRefreshTokenByHash token_hash =
     stmt (select_row (\<lambda>d. select_one (\<lambda>t. t_token_hash t = token_hash) (auth_refresh_tokens d)))"

definition LockRefreshFamily :: "bytes \<Rightarrow> refresh_family op" where
  "LockRefreshFamily ident = stmt (with_uuid ident (\<lambda>i.
     select_row (\<lambda>d. select_one (\<lambda>m. m_id m = i) (refresh_families d))))"

definition LookupAuthRefreshToken :: "bytes \<Rightarrow> refresh_token_row op" where
  "LookupAuthRefreshToken token_hash =
     stmt (select_row (\<lambda>d. select_one (\<lambda>t. t_token_hash t = token_hash) (auth_refresh_tokens d)))"

definition RevokeAuthRefreshFamily :: "bytes \<Rightarrow> unit op" where
  "RevokeAuthRefreshFamily family_id = stmt (with_uuid family_id (\<lambda>i e now new d.
     Inr ((), d\<lparr>auth_refresh_tokens :=
       update_where (\<lambda>t. t_family_id t = i \<and> t_revoked_at t = None)
         (\<lambda>t. t\<lparr>t_revoked_at := Some now\<rparr>) (auth_refresh_tokens d)\<rparr>)))"

definition RevokeAuthRefreshToken :: "bytes \<Rightarrow> nat op" where
  "RevokeAuthRefreshToken ident = stmt (with_uuid ident (\<lambda>i e now new d.
     Inr (length (filter (\<lambda>t. t_id t = i \<and> t_revoked_at t = None) (auth_refresh_tokens d)),
       d\<lparr>auth_refresh_tokens :=
         update_where (\<lambda>t. t_id t = i \<and> t_revoked_at t = None)
           (\<lambda>t. t\<lparr>t_revoked_at := Some now\<rparr>) (auth_refresh_tokens d)\<rparr>)))"

definition RevokeRefreshFamilyRecord :: "bytes \<Rightarrow> unit op" where
  "RevokeRefreshFamilyRecord ident = stmt (with_uuid ident (\<lambda>i e now new d.
     Inr ((), d\<lparr>refresh_families := update_where (\<lambda>m. m_id m = i)
       (\<lambda>m. m\<lparr>m_revoked_at := (case m_revoked_at m of None \<Rightarrow> Some now | Some t \<Rightarrow> Some t)\<rparr>)
       (refresh_families d)\<rparr>)))"

definition RevokeUserAuthRefreshTokens :: "bytes \<Rightarrow> unit op" where
  "RevokeUserAuthRefreshTokens user_id = stmt (with_uuid user_id (\<lambda>i e now new d.
     Inr ((), d\<lparr>auth_refresh_tokens :=
       update_where (\<lambda>t. t_user_id t = i \<and> t_revoked_at t = None)
         (\<lambda>t. t\<lparr>t_revoked_at := Some now\<rparr>) (auth_refresh_tokens d)\<rparr>)))"

definition RevokeUserRefreshFamilies :: "bytes \<Rightarrow> unit op" where
  "RevokeUserRefreshFamilies user_id = stmt (with_uuid user_id (\<lambda>i e now new d.
     Inr ((), d\<lparr>refresh_families :=
       update_where (\<lambda>m. m_user_id m = i \<and> m_revoked_at m = None)
         (\<lambda>m. m\<lparr>m_revoked_at := Some now\<rparr>) (refresh_families d)\<rparr>)))"

definition user_has_permission :: "database \<Rightarrow> bytes \<Rightarrow> bytes \<Rightarrow> bool" where
  "user_has_permission d ident name \<longleftrightarrow>
     list_ex (\<lambda>u. list_ex (\<lambda>rp. list_ex (\<lambda>p.
       rp_role_id rp = u_role_id u \<and> p_id p = rp_permission_id rp
       \<and> u_id u = ident \<and> u_deleted_at u = None \<and> p_name p = name)
       (permissions d)) (role_permissions d)) (users d)"

definition UserHasPermission :: "bytes \<Rightarrow> bytes \<Rightarrow> bool op" where
  "UserHasPermission ident name =
     stmt (with_uuid ident (\<lambda>i. select_rows (\<lambda>d. user_has_permission d i name)))"

subsection \<open>Reads change no row\<close>

lemma auth_reads [reads]:
  "evolves (=) e (FindActiveUserByEmail email)" "evolves (=) e (FindActiveUserByID ident)"
  "evolves (=) e (FindAuthRefreshTokenByHash h)" "evolves (=) e (LockRefreshFamily ident)"
  "evolves (=) e (LookupAuthRefreshToken h)" "evolves (=) e (UserHasPermission ident name)"
  unfolding FindActiveUserByEmail_def FindActiveUserByID_def FindAuthRefreshTokenByHash_def
    LockRefreshFamily_def LookupAuthRefreshToken_def UserHasPermission_def
  by (rule reads_stmt)+

subsection \<open>Writes keep the constraints\<close>

lemmas auth_write_defs = CreateAuthRefreshToken_def CreateRefreshFamily_def
  DeleteExpiredAuthRefreshTokens_def RevokeAuthRefreshFamily_def RevokeAuthRefreshToken_def
  RevokeRefreshFamilyRecord_def RevokeUserAuthRefreshTokens_def RevokeUserRefreshFamilies_def

lemma wf_add_token:
  assumes "wf_db d" and "t_id t \<notin> t_id ` set (auth_refresh_tokens d)"
    and "t_token_hash t \<notin> t_token_hash ` set (auth_refresh_tokens d)"
    and "length (t_token_hash t) = 32" and "t_user_id t \<in> u_id ` set (users d)"
    and "t_family_id t \<in> m_id ` set (refresh_families d)"
  shows "wf_db (d\<lparr>auth_refresh_tokens := auth_refresh_tokens d @ [t]\<rparr>)"
  using assms by (simp add: wf_db_def wf_table_defs)

lemma wf_set_tokens:
  assumes "wf_db d" and "map t_id ts = map t_id (auth_refresh_tokens d)"
    and "map t_token_hash ts = map t_token_hash (auth_refresh_tokens d)"
    and "map t_user_id ts = map t_user_id (auth_refresh_tokens d)"
    and "map t_family_id ts = map t_family_id (auth_refresh_tokens d)"
  shows "wf_db (d\<lparr>auth_refresh_tokens := ts\<rparr>)"
proof -
  have img: "f ` set ts = f ` set (auth_refresh_tokens d)"
    if "map f ts = map f (auth_refresh_tokens d)" for f :: "refresh_token_row \<Rightarrow> bytes"
    using arg_cong [OF that, of set] by simp
  have "\<forall>h \<in> t_token_hash ` set ts. length h = 32"
    unfolding img [OF assms(3)] using assms(1) by (simp add: wf_db_def wf_table_defs)
  then show ?thesis
    using assms img [OF assms(4)] img [OF assms(5)] by (simp add: wf_db_def wf_table_defs)
qed

lemma wf_delete_tokens:
  "wf_db d \<Longrightarrow> wf_db (d\<lparr>auth_refresh_tokens := delete_where P (auth_refresh_tokens d)\<rparr>)"
  by (auto simp: wf_db_def wf_table_defs distinct_map_delete_where)

lemma wf_add_family:
  "wf_db d \<Longrightarrow> m_id m \<notin> m_id ` set (refresh_families d) \<Longrightarrow> m_user_id m \<in> u_id ` set (users d) \<Longrightarrow>
   wf_db (d\<lparr>refresh_families := refresh_families d @ [m]\<rparr>)"
  by (auto simp: wf_db_def wf_table_defs)

lemma wf_set_families:
  assumes "wf_db d" and "map m_id ms = map m_id (refresh_families d)"
    and "map m_user_id ms = map m_user_id (refresh_families d)"
  shows "wf_db (d\<lparr>refresh_families := ms\<rparr>)"
proof -
  have img: "f ` set ms = f ` set (refresh_families d)"
    if "map f ms = map f (refresh_families d)" for f :: "refresh_family \<Rightarrow> bytes"
    using arg_cong [OF that, of set] by simp
  show ?thesis
    using assms img [OF assms(2)] img [OF assms(3)] by (simp add: wf_db_def wf_table_defs)
qed

lemma CreateAuthRefreshToken_wf [writes]:
  "evolves (keeps wf_db) e (CreateAuthRefreshToken f u h x)"
  unfolding CreateAuthRefreshToken_def
  by (rule keeps_stmt) (auto simp: run_simps split: if_splits intro!: wf_add_token)

lemma CreateRefreshFamily_wf [writes]: "evolves (keeps wf_db) e (CreateRefreshFamily i u x)"
  unfolding CreateRefreshFamily_def
  by (rule keeps_stmt) (auto simp: run_simps split: if_splits intro!: wf_add_family)

lemma token_updates_wf [writes]:
  "evolves (keeps wf_db) e (RevokeAuthRefreshFamily f)"
  "evolves (keeps wf_db) e (RevokeAuthRefreshToken i)"
  "evolves (keeps wf_db) e (RevokeUserAuthRefreshTokens u)"
  unfolding auth_write_defs
  by (rule keeps_stmt, auto simp: run_simps row_simps intro!: wf_set_tokens)+

lemma family_updates_wf [writes]:
  "evolves (keeps wf_db) e (RevokeRefreshFamilyRecord i)"
  "evolves (keeps wf_db) e (RevokeUserRefreshFamilies u)"
  unfolding auth_write_defs
  by (rule keeps_stmt, auto simp: run_simps row_simps intro!: wf_set_families)+

lemma DeleteExpiredAuthRefreshTokens_wf [writes]:
  "evolves (keeps wf_db) e (DeleteExpiredAuthRefreshTokens u)"
  unfolding auth_write_defs
  by (rule keeps_stmt) (auto simp: run_simps intro!: wf_delete_tokens)

end
