(* ===== verification/QueriesRbac.thy ===== *)
theory QueriesRbac
  imports QueriesAuth
begin

text \<open>
  The statements of \<open>role.sql.go\<close>, \<open>permission.sql.go\<close>, \<open>user.sql.go\<close> and \<open>seed.sql.go\<close>
  in \<open>internal/db/sqlc\<close>.  \<open>ORDER BY\<close> on text is by bytes; rows selected without an
  \<open>ORDER BY\<close> come in table order.
\<close>

definition sort_key_desc :: "('a \<Rightarrow> 'k::linorder) \<Rightarrow> 'a list \<Rightarrow> 'a list" where
  "sort_key_desc f xs = rev (sort_key f (rev xs))"

lemma set_sort_key_desc [simp]: "set (sort_key_desc f xs) = set xs"
  by (simp add: sort_key_desc_def)

lemma length_sort_key_desc [simp]: "length (sort_key_desc f xs) = length xs"
  by (simp add: sort_key_desc_def)

subsection \<open>Roles\<close>

definition AssignRolePermission :: "bytes \<Rightarrow> bytes \<Rightarrow> unit op" where
  "AssignRolePermission role_id permission_id =
    stmt (with_uuid role_id (\<lambda>r. with_uuid permission_id (\<lambda>p e now new d.
      let row = \<lparr>rp_role_id = r, rp_permission_id = p\<rparr> in
      if row \<in> set (role_permissions d) then Inr ((), d)
      else if r \<notin> r_id ` set (roles d) \<or> p \<notin> p_id ` set (permissions d) then Inl foreign_key_violation
      else Inr ((), d\<lparr>role_permissions := role_permissions d @ [row]\<rparr>))))"

definition ClearRolePermissions :: "bytes \<Rightarrow> unit op" where
  "ClearRolePermissions role_id = stmt (with_uuid role_id (\<lambda>r e now new d.
     Inr ((), d\<lparr>role_permissions := delete_where (\<lambda>rp. rp_role_id rp = r) (role_permissions d)\<rparr>)))"

definition CreateRole :: "bytes \<Rightarrow> role_row op" where
  "CreateRole name = stmt (\<lambda>e now new d.
     let row = \<lparr>r_id = new, r_name = name, r_created_at = now, r_updated_at = now\<rparr> in
     if new \<in> r_id ` set (roles d) \<or> name \<in> r_name ` set (roles d) then Inl unique_violation
     else Inr (row, d\<lparr>roles := roles d @ [row]\<rparr>))"

definition DeleteRole :: "bytes \<Rightarrow> unit op" where
  "DeleteRole ident = stmt (with_uuid ident (\<lambda>r e now new d.
     if r \<in> r_id ` set (roles d) \<and> r \<in> u_role_id ` set (users d) then Inl restrict_violation
     else Inr ((), d\<lparr>roles := delete_where (\<lambda>x. r_id x = r) (roles d),
       role_permissions := delete_where (\<lambda>rp. rp_role_id rp = r) (role_permissions d)\<rparr>)))"

definition FindRole :: "bytes \<Rightarrow> role_row op" where
  "FindRole ident = stmt (with_uuid ident (\<lambda>i. select_row (\<lambda>d. select_one (\<lambda>r. r_id r = i) (roles d))))"

definition FindRoleByName :: "bytes \<Rightarrow> role_row op" where
  "FindRoleByName name = stmt (select_row (\<lambda>d. select_one (\<lambda>r. r_name r = name) (roles d)))"

definition role_permission_ids :: "database \<Rightarrow> bytes \<Rightarrow> bytes list" where
  "role_permission_ids d r =
     sort (map rp_permission_id (filter (\<lambda>rp. rp_role_id rp = r) (role_permissions d)))"

definition ListRolePermissionIDs :: "bytes \<Rightarrow> bytes list op" where
  "ListRolePermissionIDs role_id =
     stmt (with_uuid role_id (\<lambda>r. select_rows (\<lambda>d. role_permission_ids d r)))"

definition role_named_permissions :: "database \<Rightarrow> bytes \<Rightarrow> (bytes \<times> bytes) list" where
  "role_named_permissions d r = sort_key (\<lambda>(i, n). [n, i])
     (concat (map (\<lambda>p. map (\<lambda>rp. (p_id p, p_name p))
        (filter (\<lambda>rp. rp_permission_id rp = p_id p \<and> rp_role_id rp = r) (role_permissions d)))
      (permissions d)))"

definition ListRolePermissions :: "bytes \<Rightarrow> (bytes \<times> bytes) list op" where
  "ListRolePermissions role_id =
     stmt (with_uuid role_id (\<lambda>r. select_rows (\<lambda>d. role_named_permissions d r)))"

definition ListRoles :: "role_row list op" where
  "ListRoles = stmt (select_rows (\<lambda>d. sort_key (\<lambda>r. [r_name r, r_id r]) (roles d)))"

definition LockRole :: "bytes \<Rightarrow> role_row op" where
  "LockRole ident = stmt (with_uuid ident (\<lambda>i. select_row (\<lambda>d. select_one (\<lambda>r. r_id r = i) (roles d))))"

definition UpdateRole :: "bytes \<Rightarrow> bytes \<Rightarrow> role_row op" where
  "UpdateRole ident name = stmt (with_uuid ident (\<lambda>i e now new d.
     case select_one (\<lambda>r. r_id r = i) (roles d) of
       None \<Rightarrow> Inl NoRows
     | Some r \<Rightarrow>
         if name \<in> r_name ` {x \<in> set (roles d). r_id x \<noteq> i} then Inl unique_violation
         else Inr (r\<lparr>r_name := name, r_updated_at := now\<rparr>,
           d\<lparr>roles := update_where (\<lambda>x. r_id x = i) (\<lambda>x. x\<lparr>r_name := name, r_updated_at := now\<rparr>)
             (roles d)\<rparr>)))"

subsection \<open>Permissions\<close>

definition active_holders :: "database \<Rightarrow> bytes \<Rightarrow> nat" where
  "active_holders d name = length (concat (map (\<lambda>u. concat (map (\<lambda>rp.
       filter (\<lambda>p. rp_role_id rp = u_role_id u \<and> p_id p = rp_permission_id rp
                    \<and> p_name p = name \<and> u_deleted_at u = None) (permissions d))
     (role_permissions d))) (users d)))"

definition CountActivePermissionHolders :: "bytes \<Rightarrow> nat op" where
  "CountActivePermissionHolders name = stmt (select_rows (\<lambda>d. active_holders d name))"

definition CreatePermission :: "bytes \<Rightarrow> permission_row op" where
  "CreatePermission name = stmt (\<lambda>e now new d.
     let row = \<lparr>p_id = new, p_name = name, p_created_at = now, p_updated_at = now\<rparr> in
     if new \<in> p_id ` set (permissions d) \<or> name \<in> p_name ` set (permissions d) then Inl unique_violation
     else Inr (row, d\<lparr>permissions := permissions d @ [row]\<rparr>))"

definition DeletePermission :: "bytes \<Rightarrow> unit op" where
  "DeletePermission ident = stmt (with_uuid ident (\<lambda>p e now new d.
     Inr ((), d\<lparr>permissions := delete_where (\<lambda>x. p_id x = p) (permissions d),
       role_permissions := delete_where (\<lambda>rp. rp_permission_id rp = p) (role_permissions d)\<rparr>)))"

definition FindPermission :: "bytes \<Rightarrow> permission_row op" where
  "FindPermission ident =
     stmt (with_uuid ident (\<lambda>i. select_row (\<lambda>d. select_one (\<lambda>p. p_id p = i) (permissions d))))"

definition ListPermissions :: "permission_row list op" where
  "ListPermissions = stmt (select_rows (\<lambda>d. sort_key (\<lambda>p. [p_name p, p_id p]) (permissions d)))"

definition role_ids_with_permission :: "database \<Rightarrow> bytes \<Rightarrow> bytes list" where
  "role_ids_with_permission d name = concat (map (\<lambda>rp. map (\<lambda>p. rp_role_id rp)
     (filter (\<lambda>p. p_id p = rp_permission_id rp \<and> p_name p = name) (permissions d))) (role_permissions d))"

definition ListRoleIDsWithPermissionName :: "bytes \<Rightarrow> bytes list op" where
  "ListRoleIDsWithPermissionName name = stmt (select_rows (\<lambda>d. role_ids_with_permission d name))"

definition LockPermission :: "bytes \<Rightarrow> permission_row op" where
  "LockPermission ident =
     stmt (with_uuid ident (\<lambda>i. select_row (\<lambda>d. select_one (\<lambda>p. p_id p = i) (permissions d))))"

definition LockPermissionByName :: "bytes \<Rightarrow> bytes list op" where
  "LockPermissionByName name =
     stmt (select_rows (\<lambda>d. map p_id (filter (\<lambda>p. p_name p = name) (permissions d))))"

definition UpdatePermission :: "bytes \<Rightarrow> bytes \<Rightarrow> permission_row op" where
  "UpdatePermission ident name = stmt (with_uuid ident (\<lambda>i e now new d.
     case select_one (\<lambda>p. p_id p = i) (permissions d) of
       None \<Rightarrow> Inl NoRows
     | Some p \<Rightarrow>
         if name \<in> p_name ` {x \<in> set (permissions d). p_id x \<noteq> i} then Inl unique_violation
         else Inr (p\<lparr>p_name := name, p_updated_at := now\<rparr>,
           d\<lparr>permissions := update_where (\<lambda>x. p_id x = i)
             (\<lambda>x. x\<lparr>p_name := name, p_updated_at := now\<rparr>) (permissions d)\<rparr>)))"

subsection \<open>Users\<close>

text \<open>\<open>LIKE\<close> on code points: \<open>%\<close> is 37, \<open>_\<close> is 95 and the escape character is 92.\<close>

fun like :: "nat list \<Rightarrow> nat list \<Rightarrow> bool" where
  "like [] s = (s = [])"
| "like (p # ps) s =
     (if p = 37 then like ps s \<or> (case s of [] \<Rightarrow> False | _ # s' \<Rightarrow> like (p # ps) s')
      else (case s of [] \<Rightarrow> False
        | c # s' \<Rightarrow>
            if p = 95 then like ps s'
            else if p = 92 then (case ps of [] \<Rightarrow> False | q # qs \<Rightarrow> c = q \<and> like qs s')
            else c = p \<and> like ps s'))"

definition ilike_contains :: "bytes \<Rightarrow> bytes \<Rightarrow> bool" where
  "ilike_contains v search =
     like ([37] @ map fst (runes (ToLower search)) @ [37]) (map fst (runes (ToLower v)))"

definition listed_users :: "database \<Rightarrow> bytes \<Rightarrow> user_row list" where
  "listed_users d search =
     filter (\<lambda>u. u_deleted_at u = None \<and> (search = [] \<or> ilike_contains (u_email u) search)) (users d)"

definition CountUsers :: "bytes \<Rightarrow> nat op" where
  "CountUsers search = stmt (select_rows (\<lambda>d. length (listed_users d search)))"

definition CreateUser :: "bytes \<Rightarrow> bytes \<Rightarrow> bytes \<Rightarrow> user_row op" where
  "CreateUser email password role_id = stmt (with_uuid role_id (\<lambda>r e now new d.
     let row = \<lparr>u_id = new, u_email = ToLower email, u_password = password, u_role_id = r,
                u_deleted_at = None, u_created_at = now, u_updated_at = now\<rparr> in
     if new \<in> u_id ` set (users d) \<or> ToLower email \<in> u_email ` set (users d) then Inl unique_violation
     else if r \<notin> r_id ` set (roles d) then Inl foreign_key_violation
     else Inr (row, d\<lparr>users := users d @ [row]\<rparr>)))"

definition FindUser :: "bytes \<Rightarrow> user_row op" where
  "FindUser ident = stmt (with_uuid ident (\<lambda>i.
     select_row (\<lambda>d. select_one (\<lambda>u. u_id u = i \<and> u_deleted_at u = None) (users d))))"

definition order_users :: "bytes \<Rightarrow> bytes \<Rightarrow> user_row list \<Rightarrow> user_row list" where
  "order_users sort_by direction us = (let by_id = sort_key u_id us in
     if sort_by = ''email'' \<and> direction = ''asc'' then sort_key u_email by_id
     else if sort_by = ''email'' \<and> direction = ''desc'' then sort_key_desc u_email by_id
     else if sort_by = ''createdAt'' \<and> direction = ''asc'' then sort_key u_created_at by_id
     else if sort_by = ''createdAt'' \<and> direction = ''desc'' then sort_key_desc u_created_at by_id
     else if sort_by = ''updatedAt'' \<and> direction = ''asc'' then sort_key u_updated_at by_id
     else if sort_by = ''updatedAt'' \<and> direction = ''desc'' then sort_key_desc u_updated_at by_id
     else by_id)"

text \<open>\<open>LIMIT\<close> and \<open>OFFSET\<close> are 32-bit parameters; the engine refuses a negative one.\<close>

definition ListUsers :: "bytes \<Rightarrow> bytes \<Rightarrow> bytes \<Rightarrow> int \<Rightarrow> int \<Rightarrow> user_row list op" where
  "ListUsers search sort_by direction page_offset page_limit = stmt (\<lambda>e now new d.
     if page_limit < 0 then Inl (PgError ''2201W'')
     else if page_offset < 0 then Inl (PgError ''2201X'')
     else Inr (take (nat page_limit) (drop (nat page_offset)
       (order_users sort_by direction (listed_users d search))), d))"

definition LockUser :: "bytes \<Rightarrow> user_row op" where
  "LockUser ident = stmt (with_uuid ident (\<lambda>i.
     select_row (\<lambda>d. select_one (\<lambda>u. u_id u = i \<and> u_deleted_at u = None) (users d))))"

definition SoftDeleteUser :: "bytes \<Rightarrow> unit op" where
  "SoftDeleteUser ident = stmt (with_uuid ident (\<lambda>i e now new d.
     Inr ((), d\<lparr>users := update_where (\<lambda>u. u_id u = i)
       (\<lambda>u. u\<lparr>u_deleted_at := Some now, u_updated_at := now\<rparr>) (users d)\<rparr>)))"

definition set_user :: "bytes option \<Rightarrow> bytes option \<Rightarrow> instant \<Rightarrow> user_row \<Rightarrow> user_row" where
  "set_user email role now u = u\<lparr>
     u_email := (case email of None \<Rightarrow> u_email u | Some m \<Rightarrow> ToLower m),
     u_role_id := (case role of None \<Rightarrow> u_role_id u | Some r \<Rightarrow> r), u_updated_at := now\<rparr>"

definition UpdateUser :: "bytes \<Rightarrow> bytes option \<Rightarrow> bytes option \<Rightarrow> user_row op" where
  "UpdateUser ident email role_id = stmt (with_uuid ident (\<lambda>i e now new d.
     case (case role_id of None \<Rightarrow> Some None | Some s \<Rightarrow> map_option Some (uuid_in e s)) of
       None \<Rightarrow> Inl invalid_text
     | Some role \<Rightarrow> (case select_one (\<lambda>u. u_id u = i) (users d) of
         None \<Rightarrow> Inl NoRows
       | Some u \<Rightarrow> (let u' = set_user email role now u in
           if u_email u' \<in> u_email ` {x \<in> set (users d). u_id x \<noteq> i} then Inl unique_violation
           else if u_role_id u' \<notin> r_id ` set (roles d) then Inl foreign_key_violation
           else Inr (u', d\<lparr>users := update_where (\<lambda>x. u_id x = i) (set_user email role now) (users d)\<rparr>)))))"

subsection \<open>Seeding\<close>

definition SeedRole :: "bytes \<Rightarrow> unit op" where
  "SeedRole name = stmt (\<lambda>e now new d.
     if name \<in> r_name ` set (roles d) then Inr ((), d)
     else if new \<in> r_id ` set (roles d) then Inl unique_violation
     else Inr ((), d\<lparr>roles := roles d @
       [\<lparr>r_id = new, r_name = name, r_created_at = now, r_updated_at = now\<rparr>]\<rparr>))"

definition SeedPermission :: "bytes \<Rightarrow> unit op" where
  "SeedPermission name = stmt (\<lambda>e now new d.
     if name \<in> p_name ` set (permissions d) then Inr ((), d)
     else if new \<in> p_id ` set (permissions d) then Inl unique_violation
     else Inr ((), d\<lparr>permissions := permissions d @
       [\<lparr>p_id = new, p_name = name, p_created_at = now, p_updated_at = now\<rparr>]\<rparr>))"

definition admin_grants :: "database \<Rightarrow> role_permission_row list" where
  "admin_grants d = filter (\<lambda>rp. rp \<notin> set (role_permissions d))
     (concat (map (\<lambda>r. map (\<lambda>p. \<lparr>rp_role_id = r_id r, rp_permission_id = p_id p\<rparr>) (permissions d))
       (filter (\<lambda>r. r_name r = ''admin'') (roles d))))"

definition SeedAdminPermissions :: "unit op" where
  "SeedAdminPermissions = stmt (\<lambda>e now new d.
     Inr ((), d\<lparr>role_permissions := role_permissions d @ admin_grants d\<rparr>))"

definition SeedUser :: "bytes \<Rightarrow> bytes \<Rightarrow> bytes \<Rightarrow> unit op" where
  "SeedUser email password role = stmt (\<lambda>e now new d.
     case select_one (\<lambda>r. r_name r = role) (roles d) of
       None \<Rightarrow> Inr ((), d)
     | Some r \<Rightarrow>
         if ToLower email \<in> u_email ` set (users d)
         then Inr ((), d\<lparr>users := update_where (\<lambda>u. u_email u = ToLower email)
                (\<lambda>u. u\<lparr>u_role_id := r_id r, u_deleted_at := None, u_updated_at := now\<rparr>) (users d)\<rparr>)
         else if new \<in> u_id ` set (users d) then Inl unique_violation
         else Inr ((), d\<lparr>users := users d @ [\<lparr>u_id = new, u_email = ToLower email, u_password = password,
                u_role_id = r_id r, u_deleted_at = None, u_created_at = now, u_updated_at = now\<rparr>]\<rparr>))"

subsection \<open>Reads change no row\<close>

lemma rbac_reads [reads]:
  "evolves (=) e (FindRole i)" "evolves (=) e (FindRoleByName n)" "evolves (=) e (LockRole i)"
  "evolves (=) e (ListRolePermissionIDs i)" "evolves (=) e (ListRolePermissions i)"
  "evolves (=) e ListRoles" "evolves (=) e (CountActivePermissionHolders n)"
  "evolves (=) e (FindPermission i)" "evolves (=) e ListPermissions"
  "evolves (=) e (ListRoleIDsWithPermissionName n)" "evolves (=) e (LockPermission i)"
  "evolves (=) e (LockPermissionByName n)" "evolves (=) e (CountUsers s)" "evolves (=) e (FindUser i)"
  "evolves (=) e (LockUser i)"
  unfolding FindRole_def FindRoleByName_def LockRole_def ListRolePermissionIDs_def
    ListRolePermissions_def ListRoles_def CountActivePermissionHolders_def FindPermission_def
    ListPermissions_def ListRoleIDsWithPermissionName_def LockPermission_def LockPermissionByName_def
    CountUsers_def FindUser_def LockUser_def
  by (rule reads_stmt)+

lemma ListUsers_reads [reads]: "evolves (=) e (ListUsers s b o' x y)"
  unfolding ListUsers_def by (rule same.ev_stmt) (auto split: if_splits)

subsection \<open>Writes keep the constraints\<close>

lemma wf_set_roles:
  assumes "wf_db d" and "map r_id rs = map r_id (roles d)" and "distinct (map r_name rs)"
  shows "wf_db (d\<lparr>roles := rs\<rparr>)"
proof -
  have "r_id ` set rs = r_id ` set (roles d)" using arg_cong [OF assms(2), of set] by simp
  with assms show ?thesis by (simp add: wf_db_def wf_table_defs)
qed

lemma wf_set_permissions:
  assumes "wf_db d" and "map p_id ps = map p_id (permissions d)" and "distinct (map p_name ps)"
  shows "wf_db (d\<lparr>permissions := ps\<rparr>)"
proof -
  have "p_id ` set ps = p_id ` set (permissions d)" using arg_cong [OF assms(2), of set] by simp
  with assms show ?thesis by (simp add: wf_db_def wf_table_defs)
qed

lemma wf_add_role:
  "wf_db d \<Longrightarrow> r_id r \<notin> r_id ` set (roles d) \<Longrightarrow> r_name r \<notin> r_name ` set (roles d) \<Longrightarrow>
   wf_db (d\<lparr>roles := roles d @ [r]\<rparr>)"
  by (auto simp: wf_db_def wf_table_defs)

lemma wf_add_permission:
  "wf_db d \<Longrightarrow> p_id p \<notin> p_id ` set (permissions d) \<Longrightarrow> p_name p \<notin> p_name ` set (permissions d) \<Longrightarrow>
   wf_db (d\<lparr>permissions := permissions d @ [p]\<rparr>)"
  by (auto simp: wf_db_def wf_table_defs)

lemma wf_add_role_permissions:
  "wf_db d \<Longrightarrow> distinct rps \<Longrightarrow> set rps \<inter> set (role_permissions d) = {} \<Longrightarrow>
   rp_role_id ` set rps \<subseteq> r_id ` set (roles d) \<Longrightarrow>
   rp_permission_id ` set rps \<subseteq> p_id ` set (permissions d) \<Longrightarrow>
   wf_db (d\<lparr>role_permissions := role_permissions d @ rps\<rparr>)"
  by (auto simp: wf_db_def wf_table_defs)

lemma wf_delete_role_permissions:
  "wf_db d \<Longrightarrow> wf_db (d\<lparr>role_permissions := delete_where P (role_permissions d)\<rparr>)"
  by (auto simp: wf_db_def wf_table_defs delete_where_def)

lemma wf_delete_role:
  assumes wf: "wf_db d" and r: "r \<notin> u_role_id ` set (users d)"
  shows "wf_db (d\<lparr>roles := delete_where (\<lambda>x. r_id x = r) (roles d),
     role_permissions := delete_where (\<lambda>rp. rp_role_id rp = r) (role_permissions d)\<rparr>)"
proof -
  have "u_role_id ` set (users d) \<subseteq> r_id ` {x \<in> set (roles d). r_id x \<noteq> r}"
  proof
    fix x
    assume x: "x \<in> u_role_id ` set (users d)"
    with wf have "x \<in> r_id ` set (roles d)" by (auto simp: wf_db_def wf_users_def)
    moreover have "x \<noteq> r" using x r by blast
    ultimately show "x \<in> r_id ` {x \<in> set (roles d). r_id x \<noteq> r}" by auto
  qed
  with wf show ?thesis
    by (simp add: wf_db_def wf_table_defs distinct_map_delete_where)
       (auto simp: delete_where_def image_subset_iff image_iff)
qed

lemma wf_delete_permission:
  "wf_db d \<Longrightarrow>
   wf_db (d\<lparr>permissions := delete_where (\<lambda>x. p_id x = p) (permissions d),
     role_permissions := delete_where (\<lambda>rp. rp_permission_id rp = p) (role_permissions d)\<rparr>)"
  by (simp add: wf_db_def wf_table_defs distinct_map_delete_where)
     (auto simp: delete_where_def image_subset_iff image_iff)

text \<open>Deleting an unknown role leaves users and grants alone: both reference known roles only.\<close>

lemma wf_unknown_role:
  "wf_db d \<Longrightarrow> r \<notin> r_id ` set (roles d) \<Longrightarrow> r \<notin> u_role_id ` set (users d)"
  by (auto simp: wf_db_def wf_table_defs)

lemma wf_set_users:
  assumes "wf_db d" and "map u_id us = map u_id (users d)" and "distinct (map u_email us)"
    and "\<forall>u \<in> set us. u_email u = ToLower (u_email u)" and "u_role_id ` set us \<subseteq> r_id ` set (roles d)"
  shows "wf_db (d\<lparr>users := us\<rparr>)"
proof -
  have "u_id ` set us = u_id ` set (users d)" using arg_cong [OF assms(2), of set] by simp
  with assms show ?thesis by (simp add: wf_db_def wf_table_defs)
qed

lemma wf_user_role: "wf_db d \<Longrightarrow> u \<in> set (users d) \<Longrightarrow> u_role_id u \<in> r_id ` set (roles d)"
  by (auto simp: wf_db_def wf_users_def)

lemma wf_user_lower: "wf_db d \<Longrightarrow> u \<in> set (users d) \<Longrightarrow> ToLower (u_email u) = u_email u"
  by (auto simp: wf_db_def wf_users_def)

lemma wf_update_users:
  assumes wf: "wf_db d"
    and keep: "\<And>u. u_id (f u) = u_id u" "\<And>u. u_email (f u) = u_email u"
    and role: "\<And>u. u \<in> set (users d) \<Longrightarrow> P u \<Longrightarrow> u_role_id (f u) \<in> r_id ` set (roles d)"
  shows "wf_db (d\<lparr>users := update_where P f (users d)\<rparr>)"
proof (rule wf_set_users [OF wf])
  show "map u_id (update_where P f (users d)) = map u_id (users d)"
    by (rule map_update_where) (rule keep(1))
  have "map u_email (update_where P f (users d)) = map u_email (users d)"
    by (rule map_update_where) (rule keep(2))
  then show "distinct (map u_email (update_where P f (users d)))"
    using wf by (simp add: wf_db_def wf_users_def)
  show "\<forall>u \<in> set (update_where P f (users d)). u_email u = ToLower (u_email u)"
    using wf by (auto simp: set_update_where keep wf_user_lower)
  show "u_role_id ` set (update_where P f (users d)) \<subseteq> r_id ` set (roles d)"
    using wf_user_role [OF wf] role by (auto simp: set_update_where)
qed

lemma wf_add_user:
  assumes "wf_db d" and "u_id u \<notin> u_id ` set (users d)" and "u_email u \<notin> u_email ` set (users d)"
    and "u_email u = ToLower (u_email u)" and "u_role_id u \<in> r_id ` set (roles d)"
  shows "wf_db (d\<lparr>users := users d @ [u]\<rparr>)"
  using assms by (simp add: wf_db_def wf_table_defs image_subset_iff)

lemma CreateRole_wf [writes]: "evolves (keeps wf_db) e (CreateRole n)"
  unfolding CreateRole_def
  by (rule keeps_stmt) (auto simp: Let_def split: if_splits intro!: wf_add_role)

lemma CreatePermission_wf [writes]: "evolves (keeps wf_db) e (CreatePermission n)"
  unfolding CreatePermission_def
  by (rule keeps_stmt) (auto simp: Let_def split: if_splits intro!: wf_add_permission)

lemma seed_rows_wf [writes]:
  "evolves (keeps wf_db) e (SeedRole n)" "evolves (keeps wf_db) e (SeedPermission n)"
  unfolding SeedRole_def SeedPermission_def
  by (rule keeps_stmt, auto split: if_splits intro!: wf_add_role wf_add_permission)+

lemma wf_add_role_permission:
  "wf_db d \<Longrightarrow> rp \<notin> set (role_permissions d) \<Longrightarrow> rp_role_id rp \<in> r_id ` set (roles d) \<Longrightarrow>
   rp_permission_id rp \<in> p_id ` set (permissions d) \<Longrightarrow>
   wf_db (d\<lparr>role_permissions := role_permissions d @ [rp]\<rparr>)"
  by (rule wf_add_role_permissions) auto

lemma AssignRolePermission_wf [writes]: "evolves (keeps wf_db) e (AssignRolePermission r p)"
  unfolding AssignRolePermission_def Let_def
proof (rule keeps_stmt)
  fix now new d a d'
  assume wf: "wf_db d"
    and run: "with_uuid r (\<lambda>r. with_uuid p (\<lambda>p e now new d.
      if \<lparr>rp_role_id = r, rp_permission_id = p\<rparr> \<in> set (role_permissions d) then Inr ((), d)
      else if r \<notin> r_id ` set (roles d) \<or> p \<notin> p_id ` set (permissions d) then Inl foreign_key_violation
      else Inr ((), d\<lparr>role_permissions := role_permissions d
        @ [\<lparr>rp_role_id = r, rp_permission_id = p\<rparr>]\<rparr>))) e now new d = Inr (a, d')"
  then obtain r' p' where "d' = d \<or> (\<lparr>rp_role_id = r', rp_permission_id = p'\<rparr> \<notin> set (role_permissions d)
      \<and> r' \<in> r_id ` set (roles d) \<and> p' \<in> p_id ` set (permissions d)
      \<and> d' = d\<lparr>role_permissions := role_permissions d @ [\<lparr>rp_role_id = r', rp_permission_id = p'\<rparr>]\<rparr>)"
    by (simp add: run_simps split: if_split_asm) metis+
  with wf show "wf_db d'" by (elim disjE conjE) (simp_all add: wf_add_role_permission)
qed

lemma ClearRolePermissions_wf [writes]: "evolves (keeps wf_db) e (ClearRolePermissions r)"
  unfolding ClearRolePermissions_def
  by (rule keeps_stmt) (auto simp: run_simps intro!: wf_delete_role_permissions)

lemma DeleteRole_wf [writes]: "evolves (keeps wf_db) e (DeleteRole r)"
  unfolding DeleteRole_def
  by (rule keeps_stmt) (auto simp: run_simps split: if_splits intro!: wf_delete_role dest: wf_unknown_role)

lemma DeletePermission_wf [writes]: "evolves (keeps wf_db) e (DeletePermission p)"
  unfolding DeletePermission_def
  by (rule keeps_stmt) (auto simp: run_simps intro!: wf_delete_permission)

lemma wf_update_role:
  assumes "wf_db d" and "n \<notin> r_name ` {x \<in> set (roles d). r_id x \<noteq> i}"
  shows "wf_db (d\<lparr>roles := update_where (\<lambda>x. r_id x = i)
    (\<lambda>x. x\<lparr>r_name := n, r_updated_at := now\<rparr>) (roles d)\<rparr>)"
proof (rule wf_set_roles [OF assms(1)])
  show "distinct (map r_name (update_where (\<lambda>x. r_id x = i)
      (\<lambda>x. x\<lparr>r_name := n, r_updated_at := now\<rparr>) (roles d)))"
    using assms by (intro distinct_map_update_unique [where k = r_id]) (auto simp: wf_db_def wf_roles_def)
qed (simp add: row_simps)

lemma UpdateRole_wf [writes]: "evolves (keeps wf_db) e (UpdateRole i n)"
  unfolding UpdateRole_def
  by (rule keeps_stmt) (auto simp: run_simps intro!: wf_update_role)

lemma wf_update_permission:
  assumes "wf_db d" and "n \<notin> p_name ` {x \<in> set (permissions d). p_id x \<noteq> i}"
  shows "wf_db (d\<lparr>permissions := update_where (\<lambda>x. p_id x = i)
    (\<lambda>x. x\<lparr>p_name := n, p_updated_at := now\<rparr>) (permissions d)\<rparr>)"
proof (rule wf_set_permissions [OF assms(1)])
  show "distinct (map p_name (update_where (\<lambda>x. p_id x = i)
      (\<lambda>x. x\<lparr>p_name := n, p_updated_at := now\<rparr>) (permissions d)))"
    using assms by (intro distinct_map_update_unique [where k = p_id]) (auto simp: wf_db_def wf_permissions_def)
qed (simp add: row_simps)

lemma UpdatePermission_wf [writes]: "evolves (keeps wf_db) e (UpdatePermission i n)"
  unfolding UpdatePermission_def
  by (rule keeps_stmt) (auto simp: run_simps intro!: wf_update_permission)

lemma wf_update_user:
  assumes wf: "wf_db d" and u: "select_one (\<lambda>u. u_id u = i) (users d) = Some u"
    and email: "u_email (set_user m r now u) \<notin> u_email ` {x \<in> set (users d). u_id x \<noteq> i}"
    and role: "u_role_id (set_user m r now u) \<in> r_id ` set (roles d)"
  shows "wf_db (d\<lparr>users := update_where (\<lambda>x. u_id x = i) (set_user m r now) (users d)\<rparr>)"
proof -
  from u have uid: "u \<in> set (users d)" "u_id u = i" by (auto dest: select_one_Some)
  have only: "x = u" if "x \<in> set (users d)" "u_id x = i" for x
    using wf that uid by (auto simp: wf_db_def wf_users_def intro: key_inj [where k = u_id])
  show ?thesis
  proof (rule wf_set_users [OF wf])
    show "map u_id (update_where (\<lambda>x. u_id x = i) (set_user m r now) (users d)) = map u_id (users d)"
      by (rule map_update_where) (simp add: set_user_def)
    show "distinct (map u_email (update_where (\<lambda>x. u_id x = i) (set_user m r now) (users d)))"
      using wf email by (intro distinct_map_update_unique [where k = u_id])
        (auto simp: wf_db_def wf_users_def set_user_def dest: only)
    show "\<forall>x \<in> set (update_where (\<lambda>x. u_id x = i) (set_user m r now) (users d)). u_email x = ToLower (u_email x)"
      using wf by (auto simp: set_update_where set_user_def wf_db_def wf_users_def split: option.splits)
    show "u_role_id ` set (update_where (\<lambda>x. u_id x = i) (set_user m r now) (users d)) \<subseteq> r_id ` set (roles d)"
    proof (rule image_subsetI)
      fix x
      assume "x \<in> set (update_where (\<lambda>x. u_id x = i) (set_user m r now) (users d))"
      then obtain s where s: "s \<in> set (users d)" "x = (if u_id s = i then set_user m r now s else s)"
        by (auto simp: set_update_where)
      show "u_role_id x \<in> r_id ` set (roles d)"
        using s only [OF s(1)] role wf_user_role [OF wf s(1)] by (cases "u_id s = i") simp_all
    qed
  qed
qed

lemma UpdateUser_wf [writes]: "evolves (keeps wf_db) e (UpdateUser i m r)"
  unfolding UpdateUser_def Let_def
  by (rule keeps_stmt) (auto simp only: run_simps prod.inject sum.inject intro!: wf_update_user)

lemma SeedAdminPermissions_wf [writes]: "evolves (keeps wf_db) e SeedAdminPermissions"
  unfolding SeedAdminPermissions_def
proof (rule keeps_stmt)
  fix now new d a d'
  assume wf: "wf_db d" and d': "Inr ((), d\<lparr>role_permissions := role_permissions d @ admin_grants d\<rparr>) = Inr (a, d')"
  have "distinct (admin_grants d)"
  proof (cases "select_one (\<lambda>r. r_name r = ''admin'') (roles d)")
    case None
    then show ?thesis
      using filter_key [of r_name "roles d"] wf by (simp add: admin_grants_def wf_db_def wf_roles_def)
  next
    case (Some r)
    then have "filter (\<lambda>r. r_name r = ''admin'') (roles d) = [r]"
      using filter_key [of r_name "roles d"] wf by (simp add: wf_db_def wf_roles_def)
    then show ?thesis
      using wf by (auto simp: admin_grants_def distinct_map inj_on_def wf_db_def wf_permissions_def)
  qed
  with wf have "wf_db (d\<lparr>role_permissions := role_permissions d @ admin_grants d\<rparr>)"
    by (intro wf_add_role_permissions) (auto simp: admin_grants_def)
  with d' show "wf_db d'" by simp
qed

lemma SeedUser_wf [writes]: "evolves (keeps wf_db) e (SeedUser m p r)"
  unfolding SeedUser_def
proof (rule keeps_stmt)
  fix now new d a d'
  assume wf: "wf_db d" and run: "(case select_one (\<lambda>x. r_name x = r) (roles d) of
       None \<Rightarrow> Inr ((), d)
     | Some r \<Rightarrow>
         if ToLower m \<in> u_email ` set (users d)
         then Inr ((), d\<lparr>users := update_where (\<lambda>u. u_email u = ToLower m)
                (\<lambda>u. u\<lparr>u_role_id := r_id r, u_deleted_at := None, u_updated_at := now\<rparr>) (users d)\<rparr>)
         else if new \<in> u_id ` set (users d) then Inl unique_violation
         else Inr ((), d\<lparr>users := users d @ [\<lparr>u_id = new, u_email = ToLower m, u_password = p,
                u_role_id = r_id r, u_deleted_at = None, u_created_at = now, u_updated_at = now\<rparr>]\<rparr>))
     = Inr (a, d')"
  show "wf_db d'"
  proof (cases "select_one (\<lambda>x. r_name x = r) (roles d)")
    case None
    with run wf show ?thesis by simp
  next
    case (Some rr)
    then have rr: "rr \<in> set (roles d)" by (auto dest: select_one_Some)
    show ?thesis
    proof (cases "ToLower m \<in> u_email ` set (users d)")
      case True
      have "wf_db (d\<lparr>users := update_where (\<lambda>u. u_email u = ToLower m)
          (\<lambda>u. u\<lparr>u_role_id := r_id rr, u_deleted_at := None, u_updated_at := now\<rparr>) (users d)\<rparr>)"
        using wf rr by (intro wf_update_users) auto
      with True Some run show ?thesis by simp
    next
      case False
      with Some run wf rr show ?thesis by (auto simp: run_simps intro!: wf_add_user)
    qed
  qed
qed

lemma SoftDeleteUser_wf [writes]: "evolves (keeps wf_db) e (SoftDeleteUser i)"
  unfolding SoftDeleteUser_def
  by (rule keeps_stmt)
     (auto simp: run_simps intro!: wf_update_users dest: wf_user_role)

lemma CreateUser_wf [writes]: "evolves (keeps wf_db) e (CreateUser m p r)"
  unfolding CreateUser_def
  by (rule keeps_stmt) (auto simp: run_simps Let_def split: if_splits intro!: wf_add_user)

end
