(* ===== verification/QueriesOutbox.thy ===== *)
theory QueriesOutbox
  imports QueriesRbac
begin

text \<open>
  The statements of \<open>notification.sql.go\<close>, \<open>jobs.sql.go\<close>, \<open>audit.sql.go\<close> and
  \<open>upload.sql.go\<close> in \<open>internal/db/sqlc\<close>: notifications and their per-recipient counters,
  the e-mail outbox with its leases, the retention queries, the audit log and stored files.
\<close>

subsection \<open>Notifications\<close>

definition CreateNotification ::
  "bytes \<Rightarrow> bytes \<Rightarrow> bytes option \<Rightarrow> bytes \<Rightarrow> bytes \<Rightarrow> bytes \<Rightarrow> int \<Rightarrow> unit op" where
  "CreateNotification ident recipient actor title body email_status sequence =
    stmt (with_uuid ident (\<lambda>i. with_uuid recipient (\<lambda>rcp. with_uuid_opt actor (\<lambda>act e now new d.
      case varchar 160 title of Inl x \<Rightarrow> Inl x | Inr ttl \<Rightarrow>
          (case varchar 4000 body of Inl x \<Rightarrow> Inl x | Inr bd \<Rightarrow>
            if email_status \<notin> set email_statuses then Inl check_violation
            else if i \<in> n_id ` set (notifications d)
                 \<or> (rcp, sequence) \<in> (\<lambda>n. (n_recipient_id n, n_sequence n)) ` set (notifications d)
              then Inl unique_violation
            else if rcp \<notin> u_id ` set (users d)
                 \<or> dangling act (u_id ` set (users d))
              then Inl foreign_key_violation
            else Inr ((), d\<lparr>notifications := notifications d @
              [\<lparr>n_id = i, n_recipient_id = rcp, n_actor_id = act, n_title = ttl, n_body = bd,
                n_email_status = email_status, n_read_at = None, n_created_at = now,
                n_sequence = sequence\<rparr>]\<rparr>))))))"

definition EnsureNotificationCounter :: "bytes \<Rightarrow> unit op" where
  "EnsureNotificationCounter recipient = stmt (with_uuid recipient (\<lambda>i e now new d.
     if i \<in> c_recipient_id ` set (notification_counters d) then Inr ((), d)
     else if i \<notin> u_id ` set (users d) then Inl foreign_key_violation
     else Inr ((), d\<lparr>notification_counters := notification_counters d
            @ [\<lparr>c_recipient_id = i, c_sequence = 0\<rparr>]\<rparr>)))"

definition FindNotification :: "bytes \<Rightarrow> notification_row op" where
  "FindNotification ident =
     stmt (with_uuid ident (\<lambda>i. select_row (\<lambda>d. select_one (\<lambda>n. n_id n = i) (notifications d))))"

definition IncrementNotificationCounter :: "bytes \<Rightarrow> unit op" where
  "IncrementNotificationCounter recipient = stmt (with_uuid recipient (\<lambda>i e now new d.
     if list_ex (\<lambda>c. c_recipient_id c = i \<and> c_sequence c \<ge> 2 ^ 63 - 1) (notification_counters d)
     then Inl out_of_range
     else Inr ((), d\<lparr>notification_counters := update_where (\<lambda>c. c_recipient_id c = i)
       (\<lambda>c. c\<lparr>c_sequence := c_sequence c + 1\<rparr>) (notification_counters d)\<rparr>)))"

definition ListOwnNotifications :: "bytes \<Rightarrow> bool \<Rightarrow> notification_row list op" where
  "ListOwnNotifications recipient unread = stmt (with_uuid recipient (\<lambda>i. select_rows (\<lambda>d.
     take 50 (sort_key_desc n_created_at (sort_key_desc n_id
       (filter (\<lambda>n. n_recipient_id n = i \<and> (\<not> unread \<or> n_read_at n = None)) (notifications d)))))))"

definition LockOwnNotification :: "bytes \<Rightarrow> bytes \<Rightarrow> notification_row op" where
  "LockOwnNotification ident recipient = stmt (with_uuid ident (\<lambda>i. with_uuid recipient (\<lambda>r.
     select_row (\<lambda>d. select_one (\<lambda>n. n_id n = i \<and> n_recipient_id n = r) (notifications d)))))"

definition backlog_rows :: "database \<Rightarrow> bytes \<Rightarrow> bool \<Rightarrow> int \<Rightarrow> bool \<Rightarrow> notification_row list" where
  "backlog_rows d i has_cursor sequence unread_only = take 50 (sort_key n_sequence
     (filter (\<lambda>n. n_recipient_id n = i
        \<and> ((has_cursor \<and> n_sequence n > sequence) \<or> (\<not> has_cursor \<and> n_read_at n = None))
        \<and> (\<not> unread_only \<or> n_read_at n = None)) (notifications d)))"

definition NotificationBacklog :: "bytes \<Rightarrow> bool \<Rightarrow> int \<Rightarrow> bool \<Rightarrow> notification_row list op" where
  "NotificationBacklog recipient has_cursor sequence unread_only =
     stmt (with_uuid recipient (\<lambda>i. select_rows (\<lambda>d.
       backlog_rows d i has_cursor sequence unread_only)))"

definition NotificationCursor :: "bytes \<Rightarrow> bytes \<Rightarrow> int op" where
  "NotificationCursor ident recipient = stmt (with_uuid ident (\<lambda>i. with_uuid recipient (\<lambda>r.
     select_row (\<lambda>d. map_option n_sequence
       (select_one (\<lambda>n. n_id n = i \<and> n_recipient_id n = r) (notifications d))))))"

definition page_rows :: "database \<Rightarrow> bytes \<Rightarrow> bool \<Rightarrow> int \<Rightarrow> notification_row list" where
  "page_rows d i has_cursor sequence = take 51 (sort_key_desc n_sequence
     (filter (\<lambda>n. n_recipient_id n = i \<and> (\<not> has_cursor \<or> n_sequence n < sequence)) (notifications d)))"

definition NotificationPage :: "bytes \<Rightarrow> bool \<Rightarrow> int \<Rightarrow> notification_row list op" where
  "NotificationPage recipient has_cursor sequence =
     stmt (with_uuid recipient (\<lambda>i. select_rows (\<lambda>d. page_rows d i has_cursor sequence)))"

definition NotificationSequence :: "bytes \<Rightarrow> int op" where
  "NotificationSequence recipient = stmt (with_uuid recipient (\<lambda>i. select_row (\<lambda>d.
     map_option c_sequence (select_one (\<lambda>c. c_recipient_id c = i) (notification_counters d)))))"

definition ReadNotification :: "bytes \<Rightarrow> unit op" where
  "ReadNotification ident = stmt (with_uuid ident (\<lambda>i e now new d.
     Inr ((), d\<lparr>notifications := update_where (\<lambda>n. n_id n = i)
       (\<lambda>n. n\<lparr>n_read_at := (case n_read_at n of None \<Rightarrow> Some now | Some t \<Rightarrow> Some t)\<rparr>)
       (notifications d)\<rparr>)))"

definition SetNotificationEmailStatus :: "bytes \<Rightarrow> bytes \<Rightarrow> unit op" where
  "SetNotificationEmailStatus ident email_status = stmt (with_uuid ident (\<lambda>i e now new d.
     if i \<in> n_id ` set (notifications d) \<and> email_status \<notin> set email_statuses then Inl check_violation
     else Inr ((), d\<lparr>notifications := update_where (\<lambda>n. n_id n = i)
       (\<lambda>n. n\<lparr>n_email_status := email_status\<rparr>) (notifications d)\<rparr>)))"

subsection \<open>The e-mail outbox\<close>

definition claim_update :: "bytes \<Rightarrow> instant \<Rightarrow> email_job \<Rightarrow> email_job" where
  "claim_update lease until j = j\<lparr>j_status := ''PROCESSING'', j_attempts := j_attempts j + 1,
     j_lease_id := Some lease, j_lease_until := Some until\<rparr>"

definition ClaimEmail :: "bytes \<Rightarrow> instant \<Rightarrow> bytes \<Rightarrow> unit op" where
  "ClaimEmail lease_id lease_until ident = stmt (with_uuid lease_id (\<lambda>l. with_uuid ident (\<lambda>i e now new d.
     if list_ex (\<lambda>j. j_id j = i \<and> j_attempts j \<ge> 2 ^ 31 - 1) (email_jobs d) then Inl out_of_range
     else Inr ((), d\<lparr>email_jobs :=
       update_where (\<lambda>j. j_id j = i) (claim_update l lease_until) (email_jobs d)\<rparr>))))"

definition claimable :: "instant \<Rightarrow> email_job \<Rightarrow> bool" where
  "claimable now j \<longleftrightarrow> (j_status j = ''PENDING'' \<and> j_available_at j \<le> now)
     \<or> (j_status j = ''PROCESSING''
        \<and> (case j_lease_until j of None \<Rightarrow> False | Some t \<Rightarrow> t \<le> now))"

definition ClaimableEmail :: "instant \<Rightarrow> email_job op" where
  "ClaimableEmail now = stmt (select_row (\<lambda>d.
     case sort_key j_available_at (sort_key j_id (filter (claimable now) (email_jobs d))) of
       [] \<Rightarrow> None | j # _ \<Rightarrow> Some j))"

definition CleanupAudit :: "instant \<Rightarrow> nat \<Rightarrow> bytes list op" where
  "CleanupAudit cutoff batch_size = stmt (select_rows (\<lambda>d. take batch_size
     (sort (map l_id (filter (\<lambda>l. l_created_at l < cutoff) (activity_logs d))))))"

definition CleanupEmail :: "instant \<Rightarrow> nat \<Rightarrow> bytes list op" where
  "CleanupEmail cutoff batch_size = stmt (select_rows (\<lambda>d. take batch_size
     (sort (map j_id (filter (\<lambda>j. j_status j \<in> {''SENT'', ''FAILED''}
        \<and> (case j_completed_at j of None \<Rightarrow> False | Some t \<Rightarrow> t < cutoff)) (email_jobs d))))))"

definition family_stale :: "instant \<Rightarrow> refresh_family \<Rightarrow> bool" where
  "family_stale cutoff m \<longleftrightarrow>
     (case m_revoked_at m of None \<Rightarrow> m_expires_at m < cutoff | Some t \<Rightarrow> t < cutoff)"

definition CleanupFamilies :: "instant \<Rightarrow> nat \<Rightarrow> bytes list op" where
  "CleanupFamilies cutoff batch_size = stmt (select_rows (\<lambda>d. take batch_size
     (sort (map m_id (filter (family_stale cutoff) (refresh_families d))))))"

definition complete_update :: "bytes \<Rightarrow> instant \<Rightarrow> instant option \<Rightarrow> email_job \<Rightarrow> email_job" where
  "complete_update status available completed j = j\<lparr>j_status := status, j_available_at := available,
     j_completed_at := completed, j_lease_id := None, j_lease_until := None\<rparr>"

definition CompleteEmail :: "bytes \<Rightarrow> bytes \<Rightarrow> instant \<Rightarrow> instant option \<Rightarrow> unit op" where
  "CompleteEmail ident status available_at completed_at = stmt (with_uuid ident (\<lambda>i e now new d.
     if i \<in> j_id ` set (email_jobs d) \<and> status \<notin> set job_statuses then Inl check_violation
     else Inr ((), d\<lparr>email_jobs := update_where (\<lambda>j. j_id j = i)
       (complete_update status available_at completed_at) (email_jobs d)\<rparr>)))"

definition DeleteAudit :: "bytes \<Rightarrow> unit op" where
  "DeleteAudit ident = stmt (with_uuid ident (\<lambda>i e now new d.
     Inr ((), d\<lparr>activity_logs := delete_where (\<lambda>l. l_id l = i) (activity_logs d)\<rparr>)))"

definition DeleteEmail :: "bytes \<Rightarrow> unit op" where
  "DeleteEmail ident = stmt (with_uuid ident (\<lambda>i e now new d.
     Inr ((), d\<lparr>email_jobs := delete_where (\<lambda>j. j_id j = i) (email_jobs d)\<rparr>)))"

definition DeleteFamily :: "bytes \<Rightarrow> unit op" where
  "DeleteFamily ident = stmt (with_uuid ident (\<lambda>i e now new d.
     Inr ((), d\<lparr>refresh_families := delete_where (\<lambda>m. m_id m = i) (refresh_families d),
       auth_refresh_tokens := delete_where (\<lambda>t. t_family_id t = i) (auth_refresh_tokens d)\<rparr>)))"

definition in_backlog :: "email_job \<Rightarrow> bool" where
  "in_backlog j \<longleftrightarrow> j_status j \<in> {''PENDING'', ''PROCESSING''}"

definition EmailBacklogCount :: "nat op" where
  "EmailBacklogCount = stmt (select_rows (\<lambda>d. length (filter in_backlog (email_jobs d))))"

definition EmailBacklogOldest :: "instant op" where
  "EmailBacklogOldest = stmt (\<lambda>e now new d.
     Inr (case sort (map j_created_at (filter in_backlog (email_jobs d))) of [] \<Rightarrow> now | t # _ \<Rightarrow> t, d))"

definition EnqueueEmail :: "bytes \<Rightarrow> bytes \<Rightarrow> bytes \<Rightarrow> bytes \<Rightarrow> bytes \<Rightarrow> unit op" where
  "EnqueueEmail ident notification_id recipient title body =
    stmt (with_uuid ident (\<lambda>i. with_uuid notification_id (\<lambda>n e now new d.
      case varchar 255 recipient of Inl x \<Rightarrow> Inl x | Inr rc \<Rightarrow>
      (case varchar 160 title of Inl x \<Rightarrow> Inl x | Inr ttl \<Rightarrow>
      (case varchar 4000 body of Inl x \<Rightarrow> Inl x | Inr bd \<Rightarrow>
        if i \<in> j_id ` set (email_jobs d) \<or> n \<in> j_notification_id ` set (email_jobs d)
          then Inl unique_violation
        else if n \<notin> n_id ` set (notifications d) then Inl foreign_key_violation
        else Inr ((), d\<lparr>email_jobs := email_jobs d @
          [\<lparr>j_id = i, j_notification_id = n, j_recipient = rc, j_title = ttl, j_body = bd,
            j_status = ''PENDING'', j_attempts = 0, j_available_at = now, j_lease_id = None,
            j_lease_until = None, j_completed_at = None, j_created_at = now\<rparr>]\<rparr>))))))"

definition LockEmail :: "bytes \<Rightarrow> email_job op" where
  "LockEmail ident =
     stmt (with_uuid ident (\<lambda>i. select_row (\<lambda>d. select_one (\<lambda>j. j_id j = i) (email_jobs d))))"

definition renewable :: "bytes \<Rightarrow> bytes option \<Rightarrow> instant \<Rightarrow> email_job \<Rightarrow> bool" where
  "renewable i lease now j \<longleftrightarrow> j_id j = i \<and> lease \<noteq> None \<and> j_lease_id j = lease
     \<and> j_status j = ''PROCESSING'' \<and> (case j_lease_until j of None \<Rightarrow> False | Some t \<Rightarrow> now < t)"

definition RenewEmail :: "instant \<Rightarrow> bytes \<Rightarrow> bytes option \<Rightarrow> nat op" where
  "RenewEmail lease_until ident lease_id = stmt (with_uuid ident (\<lambda>i. with_uuid_opt lease_id (\<lambda>lease e now new d.
     Inr (length (filter (renewable i lease now) (email_jobs d)),
         d\<lparr>email_jobs := update_where (renewable i lease now)
           (\<lambda>j. j\<lparr>j_lease_until := Some lease_until\<rparr>) (email_jobs d)\<rparr>))))"

subsection \<open>The audit log and stored files\<close>

definition InsertAudit :: "bytes \<Rightarrow> bytes \<Rightarrow> bytes option \<Rightarrow> bytes option \<Rightarrow> bytes option \<Rightarrow>
    json option \<Rightarrow> json option \<Rightarrow> bytes option \<Rightarrow> bytes option \<Rightarrow> unit op" where
  "InsertAudit behavior module entity_id user_id actor_id_snapshot before after request_id endpoint_id =
    stmt (with_uuid_opt user_id (\<lambda>user e now new d.
          if new \<in> l_id ` set (activity_logs d) then Inl unique_violation
          else if dangling user (u_id ` set (users d))
            then Inl foreign_key_violation
          else Inr ((), d\<lparr>activity_logs := activity_logs d @
            [\<lparr>l_id = new, l_behavior = behavior, l_module = module, l_entity_id = entity_id,
              l_user_id = user, l_actor_id_snapshot = actor_id_snapshot, l_before = before,
              l_after = after, l_request_id = request_id, l_endpoint_id = endpoint_id,
              l_created_at = now\<rparr>]\<rparr>)))"

definition CreateFile ::
  "bytes \<Rightarrow> bytes \<Rightarrow> bytes \<Rightarrow> bytes \<Rightarrow> int \<Rightarrow> bytes option \<Rightarrow> stored_file op" where
  "CreateFile storage object_key original_name mime_type bytesize uploader_id =
    stmt (with_uuid_opt uploader_id (\<lambda>up e now new d.
        let row = \<lparr>f_id = new, f_storage = storage, f_status = ''READY'', f_object_key = object_key,
          f_original_name = original_name, f_mime_type = mime_type, f_size = bytesize,
          f_uploader_id = up, f_created_at = now\<rparr> in
        if storage \<notin> {''local'', ''s3''} \<or> bytesize < 0 then Inl check_violation
        else if new \<in> f_id ` set (stored_files d) \<or> object_key \<in> f_object_key ` set (stored_files d)
          then Inl unique_violation
        else if dangling up (u_id ` set (users d))
          then Inl foreign_key_violation
        else Inr (row, d\<lparr>stored_files := stored_files d @ [row]\<rparr>)))"

definition FileReferenced :: "bytes \<Rightarrow> bytes \<Rightarrow> bool op" where
  "FileReferenced object_key storage = stmt (select_rows (\<lambda>d.
     list_ex (\<lambda>f. f_object_key f = object_key \<and> f_storage f = storage) (stored_files d)))"

definition FindFile :: "bytes \<Rightarrow> stored_file op" where
  "FindFile ident = stmt (with_uuid ident (\<lambda>i.
     select_row (\<lambda>d. select_one (\<lambda>f. f_id f = i \<and> f_status f = ''READY'') (stored_files d))))"

subsection \<open>Reads change no row\<close>

lemma outbox_reads [reads]:
  "evolves (=) e (FindNotification i)" "evolves (=) e (ListOwnNotifications i b)"
  "evolves (=) e (LockOwnNotification i r)" "evolves (=) e (NotificationBacklog i h s u)"
  "evolves (=) e (NotificationCursor i r)" "evolves (=) e (NotificationPage i h s)"
  "evolves (=) e (NotificationSequence i)" "evolves (=) e (ClaimableEmail t)"
  "evolves (=) e (CleanupAudit t n)" "evolves (=) e (CleanupEmail t n)"
  "evolves (=) e (CleanupFamilies t n)" "evolves (=) e EmailBacklogCount"
  "evolves (=) e (LockEmail i)" "evolves (=) e (FileReferenced k st)" "evolves (=) e (FindFile i)"
  unfolding FindNotification_def ListOwnNotifications_def LockOwnNotification_def
    NotificationBacklog_def NotificationCursor_def NotificationPage_def NotificationSequence_def
    ClaimableEmail_def CleanupAudit_def CleanupEmail_def CleanupFamilies_def EmailBacklogCount_def
    LockEmail_def FileReferenced_def FindFile_def
  by (rule reads_stmt)+

lemma EmailBacklogOldest_reads [reads]: "evolves (=) e EmailBacklogOldest"
  unfolding EmailBacklogOldest_def by (rule same.ev_stmt) auto

subsection \<open>Writes keep the constraints\<close>

lemma wf_add_notification:
  assumes "wf_db d" and "n_id n \<notin> n_id ` set (notifications d)"
    and "(n_recipient_id n, n_sequence n) \<notin> (\<lambda>n. (n_recipient_id n, n_sequence n)) ` set (notifications d)"
    and "n_email_status n \<in> set email_statuses" and "n_recipient_id n \<in> u_id ` set (users d)"
    and "\<And>a. n_actor_id n = Some a \<Longrightarrow> a \<in> u_id ` set (users d)"
  shows "wf_db (d\<lparr>notifications := notifications d @ [n]\<rparr>)"
  using assms by (auto simp: wf_db_def wf_table_defs image_subset_iff)

lemma wf_update_notifications:
  assumes wf: "wf_db d"
    and keep: "\<And>n. n_id (f n) = n_id n" "\<And>n. n_recipient_id (f n) = n_recipient_id n"
      "\<And>n. n_sequence (f n) = n_sequence n" "\<And>n. n_actor_id (f n) = n_actor_id n"
    and status: "\<And>n. n \<in> set (notifications d) \<Longrightarrow> P n \<Longrightarrow> n_email_status (f n) \<in> set email_statuses"
  shows "wf_db (d\<lparr>notifications := update_where P f (notifications d)\<rparr>)"
proof -
  have ids: "map n_id (update_where P f (notifications d)) = map n_id (notifications d)"
    and rs: "map n_recipient_id (update_where P f (notifications d)) = map n_recipient_id (notifications d)"
    and seqs: "map (\<lambda>n. (n_recipient_id n, n_sequence n)) (update_where P f (notifications d))
      = map (\<lambda>n. (n_recipient_id n, n_sequence n)) (notifications d)"
    by (rule map_update_where, simp add: keep)+
  have sets: "n_id ` set (update_where P f (notifications d)) = n_id ` set (notifications d)"
    "n_recipient_id ` set (update_where P f (notifications d)) = n_recipient_id ` set (notifications d)"
    using arg_cong [OF ids, of set] arg_cong [OF rs, of set] by simp_all
  have "\<forall>n \<in> set (update_where P f (notifications d)). n_email_status n \<in> set email_statuses
      \<and> (\<forall>a. n_actor_id n = Some a \<longrightarrow> a \<in> u_id ` set (users d))"
    using wf status keep(4) by (auto simp: set_update_where wf_db_def wf_notifications_def split: if_splits)
  with wf show ?thesis
    by (simp add: wf_db_def wf_table_defs ids seqs sets)
qed

lemma CreateNotification_wf [writes]: "evolves (keeps wf_db) e (CreateNotification i r a t b s q)"
  unfolding CreateNotification_def
  by (rule keeps_stmt) (auto simp: run_simps intro!: wf_add_notification)

lemma wf_notification_status:
  "wf_db d \<Longrightarrow> n \<in> set (notifications d) \<Longrightarrow> n_email_status n \<in> set email_statuses"
  by (auto simp: wf_db_def wf_notifications_def)

lemma notification_updates_wf [writes]:
  "evolves (keeps wf_db) e (ReadNotification i)"
  "evolves (keeps wf_db) e (SetNotificationEmailStatus i s)"
  unfolding ReadNotification_def SetNotificationEmailStatus_def
  by (rule keeps_stmt, auto simp: run_simps intro!: wf_update_notifications intro: wf_notification_status)+

lemma wf_set_counters:
  "wf_db d \<Longrightarrow> map c_recipient_id cs = map c_recipient_id (notification_counters d) \<Longrightarrow>
   wf_db (d\<lparr>notification_counters := cs\<rparr>)"
  by (frule map_eq_image) (simp add: wf_db_def wf_table_defs)

lemma wf_add_counter:
  "wf_db d \<Longrightarrow> c_recipient_id c \<notin> c_recipient_id ` set (notification_counters d) \<Longrightarrow>
   c_recipient_id c \<in> u_id ` set (users d) \<Longrightarrow>
   wf_db (d\<lparr>notification_counters := notification_counters d @ [c]\<rparr>)"
  by (auto simp: wf_db_def wf_table_defs)

lemma wf_set_jobs:
  assumes "wf_db d" and "map j_id js = map j_id (email_jobs d)"
    and "map j_notification_id js = map j_notification_id (email_jobs d)"
    and "\<forall>j \<in> set js. j_status j \<in> set job_statuses"
  shows "wf_db (d\<lparr>email_jobs := js\<rparr>)"
  using assms map_eq_image [OF assms(3)] by (simp add: wf_db_def wf_table_defs)

lemma wf_job_status: "wf_db d \<Longrightarrow> j \<in> set (email_jobs d) \<Longrightarrow> j_status j \<in> set job_statuses"
  by (auto simp: wf_db_def wf_jobs_def)

lemma wf_update_jobs:
  assumes wf: "wf_db d" and keep: "\<And>j. j_id (f j) = j_id j" "\<And>j. j_notification_id (f j) = j_notification_id j"
    and status: "\<And>j. j \<in> set (email_jobs d) \<Longrightarrow> P j \<Longrightarrow> j_status (f j) \<in> set job_statuses"
  shows "wf_db (d\<lparr>email_jobs := update_where P f (email_jobs d)\<rparr>)"
  using wf_job_status [OF wf] status
  by (intro wf_set_jobs [OF wf]) (auto simp: row_simps keep set_update_where)

lemma wf_add_job:
  "wf_db d \<Longrightarrow> j_id j \<notin> j_id ` set (email_jobs d) \<Longrightarrow>
   j_notification_id j \<notin> j_notification_id ` set (email_jobs d) \<Longrightarrow> j_status j \<in> set job_statuses \<Longrightarrow>
   j_notification_id j \<in> n_id ` set (notifications d) \<Longrightarrow> wf_db (d\<lparr>email_jobs := email_jobs d @ [j]\<rparr>)"
  by (auto simp: wf_db_def wf_table_defs)

lemma wf_delete_jobs: "wf_db d \<Longrightarrow> wf_db (d\<lparr>email_jobs := delete_where P (email_jobs d)\<rparr>)"
  by (auto simp: wf_db_def wf_table_defs distinct_map_delete_where)

lemma wf_delete_logs: "wf_db d \<Longrightarrow> wf_db (d\<lparr>activity_logs := delete_where P (activity_logs d)\<rparr>)"
  by (auto simp: wf_db_def wf_table_defs distinct_map_delete_where)

lemma wf_add_log:
  "wf_db d \<Longrightarrow> l_id l \<notin> l_id ` set (activity_logs d) \<Longrightarrow>
   (\<And>a. l_user_id l = Some a \<Longrightarrow> a \<in> u_id ` set (users d)) \<Longrightarrow>
   wf_db (d\<lparr>activity_logs := activity_logs d @ [l]\<rparr>)"
  by (auto simp: wf_db_def wf_table_defs)

lemma wf_add_file:
  "wf_db d \<Longrightarrow> f_id f \<notin> f_id ` set (stored_files d) \<Longrightarrow> f_object_key f \<notin> f_object_key ` set (stored_files d) \<Longrightarrow>
   f_storage f \<in> {''local'', ''s3''} \<Longrightarrow> f_status f \<in> {''READY'', ''PENDING''} \<Longrightarrow> 0 \<le> f_size f \<Longrightarrow>
   (\<And>a. f_uploader_id f = Some a \<Longrightarrow> a \<in> u_id ` set (users d)) \<Longrightarrow>
   wf_db (d\<lparr>stored_files := stored_files d @ [f]\<rparr>)"
  by (auto simp: wf_db_def wf_table_defs)

lemma wf_delete_family:
  "wf_db d \<Longrightarrow> wf_db (d\<lparr>refresh_families := delete_where (\<lambda>m. m_id m = i) (refresh_families d),
     auth_refresh_tokens := delete_where (\<lambda>t. t_family_id t = i) (auth_refresh_tokens d)\<rparr>)"
  by (simp add: wf_db_def wf_table_defs distinct_map_delete_where)
     (auto simp: image_subset_iff image_iff)

lemma counters_wf [writes]:
  "evolves (keeps wf_db) e (IncrementNotificationCounter r)"
  unfolding IncrementNotificationCounter_def
  by (rule keeps_stmt) (auto simp: run_simps row_simps intro!: wf_set_counters)

lemma EnsureNotificationCounter_wf [writes]: "evolves (keeps wf_db) e (EnsureNotificationCounter r)"
  unfolding EnsureNotificationCounter_def
proof (rule keeps_stmt)
  fix now new d a d'
  assume wf: "wf_db d" and "with_uuid r (\<lambda>i e now new d.
     if i \<in> c_recipient_id ` set (notification_counters d) then Inr ((), d)
     else if i \<notin> u_id ` set (users d) then Inl foreign_key_violation
     else Inr ((), d\<lparr>notification_counters := notification_counters d
            @ [\<lparr>c_recipient_id = i, c_sequence = 0\<rparr>]\<rparr>)) e now new d = Inr (a, d')"
  then obtain i where i: "(if i \<in> c_recipient_id ` set (notification_counters d) then Inr ((), d)
     else if i \<notin> u_id ` set (users d) then Inl foreign_key_violation
     else Inr ((), d\<lparr>notification_counters := notification_counters d
            @ [\<lparr>c_recipient_id = i, c_sequence = 0\<rparr>]\<rparr>)) = Inr (a, d')"
    unfolding with_uuid_Inr by blast
  show "wf_db d'"
    by (cases "i \<in> c_recipient_id ` set (notification_counters d)"; use i wf in \<open>simp add: check_Inr\<close>)
       (use wf in \<open>auto intro!: wf_add_counter\<close>)
qed

lemma job_updates_wf [writes]:
  "evolves (keeps wf_db) e (ClaimEmail l t i)" "evolves (keeps wf_db) e (CompleteEmail i s a c)"
  "evolves (keeps wf_db) e (RenewEmail t i lo)"
  unfolding ClaimEmail_def CompleteEmail_def RenewEmail_def
  by (rule keeps_stmt,
      auto simp: run_simps claim_update_def complete_update_def job_statuses_def
        intro!: wf_update_jobs dest: wf_job_status)+

lemma EnqueueEmail_wf [writes]: "evolves (keeps wf_db) e (EnqueueEmail i n r t b)"
  unfolding EnqueueEmail_def
  by (rule keeps_stmt) (auto simp: run_simps job_statuses_def intro!: wf_add_job)

lemma retention_deletes_wf [writes]:
  "evolves (keeps wf_db) e (DeleteEmail i)" "evolves (keeps wf_db) e (DeleteAudit i)"
  "evolves (keeps wf_db) e (DeleteFamily i)"
  unfolding DeleteEmail_def DeleteAudit_def DeleteFamily_def
  by (rule keeps_stmt, auto simp: run_simps intro!: wf_delete_jobs wf_delete_logs wf_delete_family)+

lemma InsertAudit_wf [writes]: "evolves (keeps wf_db) e (InsertAudit b m i u s x y r p)"
  unfolding InsertAudit_def
  by (rule keeps_stmt) (auto simp: run_simps intro!: wf_add_log)

lemma CreateFile_wf [writes]: "evolves (keeps wf_db) e (CreateFile s k n m z u)"
  unfolding CreateFile_def Let_def
  by (rule keeps_stmt) (auto simp: run_simps intro!: wf_add_file)

end
