(* ===== verification/Frames.thy ===== *)
theory Frames
  imports QueriesOutbox
begin

text \<open>
  Which tables a statement leaves alone.  The tables fall into three views: who may do what
  (\<open>rbac_view\<close>), the sessions (\<open>session_view\<close>) and the notification outbox (\<open>outbox_view\<close>);
  the audit log and the stored files belong to none.  A property of one view is proved for the
  statements that write it and holds for all others by these frames.
\<close>

definition rbac_view :: "database \<Rightarrow> role_row list \<times> permission_row list \<times> role_permission_row list \<times> user_row list" where
  "rbac_view d = (roles d, permissions d, role_permissions d, users d)"

definition session_view :: "database \<Rightarrow> refresh_token_row list \<times> refresh_family list" where
  "session_view d = (auth_refresh_tokens d, refresh_families d)"

definition outbox_view :: "database \<Rightarrow> notification_row list \<times> notification_counter list \<times> email_job list" where
  "outbox_view d = (notifications d, notification_counters d, email_jobs d)"

lemmas view_defs = rbac_view_def session_view_def outbox_view_def

text \<open>A frame of several views is a frame of each.\<close>

lemma fixed_pair:
  assumes "evolves (fixed (\<lambda>d. (f d, g d))) e m"
  shows "evolves (fixed f) e m" and "evolves (fixed g) e m"
  using assms by (auto simp: evolves_def fixed_def)

lemma auth_frame:
  "evolves (fixed (\<lambda>d. (rbac_view d, outbox_view d))) e (CreateAuthRefreshToken a b c t)"
  "evolves (fixed (\<lambda>d. (rbac_view d, outbox_view d))) e (CreateRefreshFamily a b t)"
  "evolves (fixed (\<lambda>d. (rbac_view d, outbox_view d))) e (DeleteExpiredAuthRefreshTokens a)"
  "evolves (fixed (\<lambda>d. (rbac_view d, outbox_view d))) e (RevokeAuthRefreshFamily a)"
  "evolves (fixed (\<lambda>d. (rbac_view d, outbox_view d))) e (RevokeAuthRefreshToken a)"
  "evolves (fixed (\<lambda>d. (rbac_view d, outbox_view d))) e (RevokeRefreshFamilyRecord a)"
  "evolves (fixed (\<lambda>d. (rbac_view d, outbox_view d))) e (RevokeUserAuthRefreshTokens a)"
  "evolves (fixed (\<lambda>d. (rbac_view d, outbox_view d))) e (RevokeUserRefreshFamilies a)"
  unfolding auth_write_defs
  by (rule fixed_stmt, auto simp: run_simps view_defs)+

lemma rbac_frame:
  "evolves (fixed (\<lambda>d. (session_view d, outbox_view d))) e (AssignRolePermission a b)"
  "evolves (fixed (\<lambda>d. (session_view d, outbox_view d))) e (ClearRolePermissions a)"
  "evolves (fixed (\<lambda>d. (session_view d, outbox_view d))) e (CreateRole a)"
  "evolves (fixed (\<lambda>d. (session_view d, outbox_view d))) e (DeleteRole a)"
  "evolves (fixed (\<lambda>d. (session_view d, outbox_view d))) e (UpdateRole a b)"
  "evolves (fixed (\<lambda>d. (session_view d, outbox_view d))) e (CreatePermission a)"
  "evolves (fixed (\<lambda>d. (session_view d, outbox_view d))) e (DeletePermission a)"
  "evolves (fixed (\<lambda>d. (session_view d, outbox_view d))) e (UpdatePermission a b)"
  "evolves (fixed (\<lambda>d. (session_view d, outbox_view d))) e (CreateUser a b c)"
  "evolves (fixed (\<lambda>d. (session_view d, outbox_view d))) e (SoftDeleteUser a)"
  "evolves (fixed (\<lambda>d. (session_view d, outbox_view d))) e (UpdateUser a p q)"
  "evolves (fixed (\<lambda>d. (session_view d, outbox_view d))) e (SeedRole a)"
  "evolves (fixed (\<lambda>d. (session_view d, outbox_view d))) e (SeedPermission a)"
  "evolves (fixed (\<lambda>d. (session_view d, outbox_view d))) e (SeedAdminPermissions)"
  "evolves (fixed (\<lambda>d. (session_view d, outbox_view d))) e (SeedUser a b c)"
  unfolding AssignRolePermission_def ClearRolePermissions_def CreateRole_def DeleteRole_def
    UpdateRole_def CreatePermission_def DeletePermission_def UpdatePermission_def CreateUser_def
    SoftDeleteUser_def UpdateUser_def SeedRole_def SeedPermission_def SeedAdminPermissions_def
    SeedUser_def Let_def
  by (rule fixed_stmt, auto simp: run_simps view_defs split: option.splits if_splits)+

lemma outbox_frame:
  "evolves (fixed (\<lambda>d. (rbac_view d, session_view d))) e (CreateNotification a b p c d' x n)"
  "evolves (fixed (\<lambda>d. (rbac_view d, session_view d))) e (EnsureNotificationCounter a)"
  "evolves (fixed (\<lambda>d. (rbac_view d, session_view d))) e (IncrementNotificationCounter a)"
  "evolves (fixed (\<lambda>d. (rbac_view d, session_view d))) e (ReadNotification a)"
  "evolves (fixed (\<lambda>d. (rbac_view d, session_view d))) e (SetNotificationEmailStatus a b)"
  "evolves (fixed (\<lambda>d. (rbac_view d, session_view d))) e (ClaimEmail a t b)"
  "evolves (fixed (\<lambda>d. (rbac_view d, session_view d))) e (CompleteEmail a b t ot)"
  "evolves (fixed (\<lambda>d. (rbac_view d, session_view d))) e (DeleteEmail a)"
  "evolves (fixed (\<lambda>d. (rbac_view d, session_view d))) e (EnqueueEmail a b c d' x)"
  "evolves (fixed (\<lambda>d. (rbac_view d, session_view d))) e (RenewEmail t a p)"
  unfolding CreateNotification_def EnsureNotificationCounter_def IncrementNotificationCounter_def
    ReadNotification_def SetNotificationEmailStatus_def ClaimEmail_def CompleteEmail_def DeleteEmail_def
    EnqueueEmail_def RenewEmail_def
  by (rule fixed_stmt, auto simp: run_simps view_defs split: if_splits)+

lemma DeleteFamily_frame: "evolves (fixed (\<lambda>d. (rbac_view d, outbox_view d))) e (DeleteFamily a)"
  unfolding DeleteFamily_def by (rule fixed_stmt, auto simp: run_simps view_defs)

lemma record_frame:
  "evolves (fixed (\<lambda>d. (rbac_view d, session_view d, outbox_view d))) e (InsertAudit b m i u s x y r p)"
  "evolves (fixed (\<lambda>d. (rbac_view d, session_view d, outbox_view d))) e (CreateFile k n o' t z v)"
  "evolves (fixed (\<lambda>d. (rbac_view d, session_view d, outbox_view d))) e (DeleteAudit a)"
  unfolding InsertAudit_def CreateFile_def DeleteAudit_def Let_def
  by (rule fixed_stmt, auto simp: run_simps view_defs)+

lemmas statement_frames [frames] =
  auth_frame [THEN fixed_pair(1)] auth_frame [THEN fixed_pair(2)]
  rbac_frame [THEN fixed_pair(1)] rbac_frame [THEN fixed_pair(2)]
  outbox_frame [THEN fixed_pair(1)] outbox_frame [THEN fixed_pair(2)]
  DeleteFamily_frame [THEN fixed_pair(1)] DeleteFamily_frame [THEN fixed_pair(2)]
  record_frame [THEN fixed_pair(1)] record_frame [THEN fixed_pair(2), THEN fixed_pair(1)]
  record_frame [THEN fixed_pair(2), THEN fixed_pair(2)]

end
