(* ===== verification/Sample.thy ===== *)
theory Sample
  imports Frames
begin

text \<open>
  A concrete environment and a small database, at which the properties are instantiated: an
  administrator \<open>u1\<close> and a plain user \<open>u2\<close>, a session of the administrator with a live and a
  consumed refresh token, a notification and a queued e-mail.  The environment never fails, its
  UUIDs are read back as they are, and its hash pads its argument to 32 bytes.
\<close>

definition sample_hash :: "bytes \<Rightarrow> bytes" where
  "sample_hash s = take 32 (s @ replicate 32 (CHR ''0''))"

definition sample_claims :: claims where
  "sample_claims = \<lparr>cl_ID = ''u1'', cl_Email = ''root@example.com'', cl_RoleID = ''r1'',
     cl_TokenUse = ''access'', cl_Issuer = [], cl_Audience = [], cl_IssuedAt = 1000, cl_ExpiresAt = 901000\<rparr>"

definition sample_env :: env where
  "sample_env = \<lparr>fault_at = \<lambda>_. None, app_now = \<lambda>n. 1000 + int n, db_now = \<lambda>n. 1000 + int n,
     gen_uuid = \<lambda>n. CHR ''g'' # replicate n (CHR ''x''), uuid_parses = \<lambda>_. True, uuid_in = Some,
     rand_bytes = \<lambda>n. Inr (CHR ''k'' # replicate n (CHR ''y'')), base64url = \<lambda>s. s, sha256 = sample_hash,
     bcrypt_hash = \<lambda>n pw. Inr (CHR ''h'' # pw), bcrypt_matches = \<lambda>h pw. h = CHR ''h'' # pw,
     jwt_sign = \<lambda>k c. Inr ''jwt'',
     jwt_parse = \<lambda>k i a now t. if t = ''jwt'' then Some sample_claims else None\<rparr>"

definition sample_role :: "bytes \<Rightarrow> bytes \<Rightarrow> role_row" where
  "sample_role i n = \<lparr>r_id = i, r_name = n, r_created_at = 1, r_updated_at = 1\<rparr>"

definition sample_permission :: "bytes \<Rightarrow> bytes \<Rightarrow> permission_row" where
  "sample_permission i n = \<lparr>p_id = i, p_name = n, p_created_at = 1, p_updated_at = 1\<rparr>"

definition sample_user :: "bytes \<Rightarrow> bytes \<Rightarrow> bytes \<Rightarrow> user_row" where
  "sample_user i m r = \<lparr>u_id = i, u_email = m, u_password = ''hpassword'', u_role_id = r,
     u_deleted_at = None, u_created_at = 1, u_updated_at = 1\<rparr>"

definition sample_token :: "bytes \<Rightarrow> bytes \<Rightarrow> instant option \<Rightarrow> refresh_token_row" where
  "sample_token i tok revoked = \<lparr>t_id = i, t_family_id = ''m1'', t_user_id = ''u1'',
     t_token_hash = sample_hash tok, t_expires_at = 50000, t_created_at = 1, t_revoked_at = revoked\<rparr>"

definition sample_job :: email_job where
  "sample_job = \<lparr>j_id = ''j1'', j_notification_id = ''n1'', j_recipient = ''user@example.com'',
     j_title = ''hi'', j_body = ''text'', j_status = ''PENDING'', j_attempts = 0, j_available_at = 1,
     j_lease_id = None, j_lease_until = None, j_completed_at = None, j_created_at = 1\<rparr>"

definition sample_db :: database where
  "sample_db = \<lparr>roles = [sample_role ''r1'' ''admin'', sample_role ''r2'' ''user'', sample_role ''r3'' ''staff''],
     permissions = [sample_permission ''p1'' ''manage_users'', sample_permission ''p2'' ''manage_roles'',
       sample_permission ''p3'' ''manage_permissions'', sample_permission ''p4'' ''reports''],
     role_permissions = [\<lparr>rp_role_id = ''r1'', rp_permission_id = ''p1''\<rparr>,
       \<lparr>rp_role_id = ''r1'', rp_permission_id = ''p2''\<rparr>, \<lparr>rp_role_id = ''r1'', rp_permission_id = ''p3''\<rparr>,
       \<lparr>rp_role_id = ''r1'', rp_permission_id = ''p4''\<rparr>],
     users = [sample_user ''u1'' ''root@example.com'' ''r1'', sample_user ''u2'' ''user@example.com'' ''r2''],
     activity_logs = [], stored_files = [],
     auth_refresh_tokens = [sample_token ''t0'' ''old'' (Some 500), sample_token ''t1'' ''raw'' None],
     refresh_families = [\<lparr>m_id = ''m1'', m_user_id = ''u1'', m_created_at = 1, m_expires_at = 100000,
       m_revoked_at = None\<rparr>],
     notifications = [\<lparr>n_id = ''n1'', n_recipient_id = ''u2'', n_actor_id = Some ''u1'', n_title = ''hi'',
       n_body = ''text'', n_email_status = ''PENDING'', n_read_at = None, n_created_at = 1, n_sequence = 1\<rparr>],
     notification_counters = [\<lparr>c_recipient_id = ''u2'', c_sequence = 1\<rparr>],
     email_jobs = [sample_job]\<rparr>"

definition sample_world :: world where
  "sample_world = \<lparr>db = sample_db, tick = 0, txnow = 0\<rparr>"

lemma sample_wf: "wf_db sample_db"
  by code_simp

end
