(* ===== verification/Projection.thy ===== *)
theory Projection
  imports Sample
begin

text \<open>
  The values services return (\<open>internal/model/model.go\<close>) and their projection from database
  rows (\<open>internal/db/projection/projection.go\<close>): the columns a client may see, without the
  password of a user.  A function \<open>x_json\<close> is what \<open>encoding/json\<close> writes for the value, by
  its struct tags.
\<close>

record named_permission =
  np_id :: bytes
  np_name :: bytes

record user_role =
  ur_id :: bytes
  ur_name :: bytes
  ur_permissions :: "named_permission list"

record model_user =
  mu_id :: bytes
  mu_email :: bytes
  mu_role_id :: bytes
  mu_created_at :: instant
  mu_updated_at :: instant
  mu_role :: "user_role option"

record auth_user =
  au_id :: bytes
  au_email :: bytes
  au_role_id :: bytes
  au_deleted_at :: "instant option"
  au_created_at :: instant
  au_updated_at :: instant

record model_role =
  mr_id :: bytes
  mr_name :: bytes
  mr_created_at :: instant
  mr_updated_at :: instant
  mr_permissions :: "named_permission list"

record model_permission =
  mp_id :: bytes
  mp_name :: bytes
  mp_created_at :: instant
  mp_updated_at :: instant

record model_file =
  mf_id :: bytes
  mf_original_name :: bytes
  mf_mime_type :: bytes
  mf_size :: int
  mf_created_at :: instant

record pagination =
  pg_page :: int
  pg_limit :: int
  pg_total_items :: int
  pg_total_pages :: int
  pg_has_next :: bool
  pg_has_prev :: bool

record token_pair =
  tp_access_token :: bytes
  tp_refresh_token :: bytes
  tp_access_expires_in :: int
  tp_refresh_expires_at :: instant

subsection \<open>Rows to values\<close>

definition User :: "user_row \<Rightarrow> model_user" where
  "User r = \<lparr>mu_id = u_id r, mu_email = u_email r, mu_role_id = u_role_id r,
     mu_created_at = u_created_at r, mu_updated_at = u_updated_at r, mu_role = None\<rparr>"

definition AuthUser :: "user_row \<Rightarrow> auth_user" where
  "AuthUser r = \<lparr>au_id = u_id r, au_email = u_email r, au_role_id = u_role_id r,
     au_deleted_at = u_deleted_at r, au_created_at = u_created_at r, au_updated_at = u_updated_at r\<rparr>"

definition Role :: "role_row \<Rightarrow> model_role" where
  "Role r = \<lparr>mr_id = r_id r, mr_name = r_name r, mr_created_at = r_created_at r,
     mr_updated_at = r_updated_at r, mr_permissions = []\<rparr>"

definition Permission :: "permission_row \<Rightarrow> model_permission" where
  "Permission r = \<lparr>mp_id = p_id r, mp_name = p_name r, mp_created_at = p_created_at r,
     mp_updated_at = p_updated_at r\<rparr>"

definition File :: "stored_file \<Rightarrow> model_file" where
  "File r = \<lparr>mf_id = f_id r, mf_original_name = f_original_name r, mf_mime_type = f_mime_type r,
     mf_size = f_size r, mf_created_at = f_created_at r\<rparr>"

subsection \<open>Values to JSON\<close>

definition named_permission_json :: "named_permission \<Rightarrow> json" where
  "named_permission_json p = JObj [(''id'', JStr (np_id p)), (''name'', JStr (np_name p))]"

definition user_role_json :: "user_role \<Rightarrow> json" where
  "user_role_json r = JObj [(''id'', JStr (ur_id r)), (''name'', JStr (ur_name r)),
     (''permissions'', JArr (map named_permission_json (ur_permissions r)))]"

definition model_user_json :: "model_user \<Rightarrow> json" where
  "model_user_json u = JObj ([(''id'', JStr (mu_id u)), (''email'', JStr (mu_email u)),
     (''roleId'', JStr (mu_role_id u)), (''createdAt'', JTime (mu_created_at u)),
     (''updatedAt'', JTime (mu_updated_at u))]
     @ (case mu_role u of None \<Rightarrow> [] | Some r \<Rightarrow> [(''role'', user_role_json r)]))"

definition auth_user_json :: "auth_user \<Rightarrow> json" where
  "auth_user_json u = JObj [(''id'', JStr (au_id u)), (''email'', JStr (au_email u)),
     (''roleId'', JStr (au_role_id u)),
     (''deletedAt'', case au_deleted_at u of None \<Rightarrow> JNull | Some t \<Rightarrow> JTime t),
     (''createdAt'', JTime (au_created_at u)), (''updatedAt'', JTime (au_updated_at u))]"

definition model_permission_json :: "model_permission \<Rightarrow> json" where
  "model_permission_json p = JObj [(''id'', JStr (mp_id p)), (''name'', JStr (mp_name p)),
     (''createdAt'', JTime (mp_created_at p)), (''updatedAt'', JTime (mp_updated_at p))]"

definition model_role_json :: "model_role \<Rightarrow> json" where
  "model_role_json r = JObj [(''id'', JStr (mr_id r)), (''name'', JStr (mr_name r)),
     (''createdAt'', JTime (mr_created_at r)), (''updatedAt'', JTime (mr_updated_at r)),
     (''permissions'', JArr (map (\<lambda>p. JObj [(''permission'', named_permission_json p)])
        (mr_permissions r)))]"

definition model_file_json :: "model_file \<Rightarrow> json" where
  "model_file_json f = JObj [(''id'', JStr (mf_id f)), (''originalName'', JStr (mf_original_name f)),
     (''mimeType'', JStr (mf_mime_type f)), (''size'', JNum (mf_size f)),
     (''createdAt'', JTime (mf_created_at f))]"

end
