(* ===== verification/AuditLog.thy ===== *)
theory AuditLog
  imports Projection
begin

text \<open>
  The package \<open>internal/audit\<close>: what an audit row keeps of a value (\<open>Capture\<close>, \<open>redact\<close>),
  the row itself (\<open>Write\<close>) and the transaction that joins a change with its audit row
  (\<open>Mutate\<close>).
\<close>

datatype mode = Required | Optional | NoAudit

record actor =
  a_ID :: bytes
  a_Email :: bytes
  a_RoleID :: bytes
  a_ExpiresAt :: instant

record policy =
  pol_ID :: bytes
  pol_Module :: bytes
  pol_RequestID :: bytes
  pol_Mode :: mode

record change =
  ch_EntityID :: bytes
  ch_Before :: "json option"
  ch_After :: "json option"

definition no_change :: change where
  "no_change = \<lparr>ch_EntityID = [], ch_Before = None, ch_After = None\<rparr>"

text \<open>The zero \<open>time.Time\<close>: the year 1.\<close>

definition zero_time :: instant where
  "zero_time = -62135596800000"

subsection \<open>Redaction\<close>

definition sensitive_parts :: "bytes list" where
  "sensitive_parts = [''password'', ''token'', ''secret'', ''credential'', ''authorization'',
     ''cookie'', ''apikey'', ''api_key'']"

definition sensitiveKey :: "bytes \<Rightarrow> bool" where
  "sensitiveKey key = (let lower = ToLower key in
     lower = ''hash'' \<or> list_ex (\<lambda>part. Contains lower part) sensitive_parts)"

text \<open>
  \<open>redact\<close> unmarshals an object into a map, drops the sensitive names, redacts what is left
  and marshals the map, which sorts it; an array is redacted element by element.
\<close>

function redact :: "json \<Rightarrow> json" where
  "redact (JObj kvs) = JObj (map (\<lambda>(k, v). (k, redact v))
     (filter (\<lambda>(k, v). \<not> sensitiveKey k) (to_go_map kvs)))"
| "redact (JArr xs) = JArr (map redact xs)"
| "redact JNull = JNull"
| "redact (JBool b) = JBool b"
| "redact (JNum n) = JNum n"
| "redact (JStr s) = JStr s"
| "redact (JTime t) = JTime t"
  by pat_completeness auto

lemma size_member: "(k, v) \<in> set kvs \<Longrightarrow> size v < Suc (size_list (size_prod (\<lambda>_. 0) size) kvs)"
  by (induction kvs) auto

termination redact
proof (relation "measure size")
  fix kvs :: "(bytes \<times> json) list" and z x y
  assume "z \<in> set (filter (\<lambda>(k, v). \<not> sensitiveKey k) (to_go_map kvs))" and "(x, y) = z"
  then have "(x, y) \<in> set kvs" using set_to_go_map by auto
  then show "(y, JObj kvs) \<in> measure size" using size_member [of x y kvs] by simp
next
  fix xs :: "json list" and x
  assume "x \<in> set xs"
  then show "(x, JArr xs) \<in> measure size" by (induction xs) auto
qed simp

definition redact_opt :: "json option \<Rightarrow> json option" where
  "redact_opt = map_option redact"

definition Marshal_opt :: "json option \<Rightarrow> goerr + json option" where
  "Marshal_opt p = (case p of None \<Rightarrow> Inr None
     | Some j \<Rightarrow> (case Marshal j of Inl x \<Rightarrow> Inl x | Inr r \<Rightarrow> Inr (Some r)))"

definition Capture :: "bytes \<Rightarrow> json option \<Rightarrow> json option \<Rightarrow> goerr + change" where
  "Capture ident before after =
    (case Marshal_opt before of Inl x \<Rightarrow> Inl x | Inr b \<Rightarrow>
      (case Marshal_opt after of Inl x \<Rightarrow> Inl x | Inr a \<Rightarrow>
        Inr \<lparr>ch_EntityID = ident, ch_Before = redact_opt b, ch_After = redact_opt a\<rparr>))"

subsection \<open>The audit row\<close>

definition nullable :: "bytes \<Rightarrow> bytes option" where
  "nullable v = (if v = [] then None else Some v)"

definition Write :: "policy \<Rightarrow> actor option \<Rightarrow> bytes \<Rightarrow> change \<Rightarrow> unit op" where
  "Write p act behavior c =
    (if pol_Mode p = NoAudit then returnE ()
     else let register = pol_ID p = ''auth.register'';
              user = (if register then Some (ch_EntityID c) else map_option a_ID act);
              snapshot = (case user of None \<Rightarrow> [] | Some i \<Rightarrow> i);
              module = (if register then ''user'' else pol_Module p);
              behavior = (if register then ''REGISTER'' else behavior)
          in InsertAudit behavior module (nullable (ch_EntityID c)) user (nullable snapshot)
               (ch_Before c) (ch_After c) (nullable (pol_RequestID p)) (nullable (pol_ID p)))"

definition Mutate :: "policy \<Rightarrow> actor option \<Rightarrow> bytes \<Rightarrow> ('a \<times> change) op \<Rightarrow> 'a op" where
  "Mutate p act behavior fn =
    bindE (mapE DB (Transaction (bindE fn (\<lambda>(result, c).
        bindE (if pol_Mode p = Required then Write p act behavior c else returnE ())
          (\<lambda>_. returnE (result, c))))))
      (\<lambda>(result, c).
        if pol_Mode p = Optional
        then bindE (attempt (Q (Write p act behavior c))) (\<lambda>_. returnE result)
        else returnE result)"

definition Read :: "policy \<Rightarrow> actor option \<Rightarrow> bytes \<Rightarrow> unit op" where
  "Read p act ident =
    (if pol_Mode p \<noteq> Optional then returnE ()
     else case Capture ident None (Some (JObj [(''endpoint'', JStr (pol_ID p))])) of
       Inl x \<Rightarrow> returnE ()
     | Inr c \<Rightarrow> bindE (attempt (Q (Write p act ''READ'' c))) (\<lambda>_. returnE ()))"

subsection \<open>Redaction removes every sensitive name\<close>

text \<open>No object anywhere in the value has a sensitive member.\<close>

fun clean :: "json \<Rightarrow> bool" where
  "clean (JObj kvs) \<longleftrightarrow> list_all (\<lambda>(k, v). \<not> sensitiveKey k \<and> clean v) kvs"
| "clean (JArr xs) \<longleftrightarrow> list_all clean xs"
| "clean _ \<longleftrightarrow> True"

text \<open>Objects as Go writes a map: sorted, one member for each name.\<close>

fun canonical :: "json \<Rightarrow> bool" where
  "canonical (JObj kvs) \<longleftrightarrow> sorted (map fst kvs) \<and> distinct (map fst kvs)
     \<and> list_all (\<lambda>(k, v). canonical v) kvs"
| "canonical (JArr xs) \<longleftrightarrow> list_all canonical xs"
| "canonical _ \<longleftrightarrow> True"

lemma clean_redact: "clean (redact j)"
  by (induction j rule: redact.induct) (auto simp: list_all_iff)

lemma map_fst_redacted: "map fst (map (\<lambda>(k, v). (k, f v)) kvs) = map fst kvs"
  by (induction kvs) auto

lemma sorted_map_fst_filter: "sorted (map fst kvs) \<Longrightarrow> sorted (map fst (filter P kvs))"
  by (induction kvs) auto

lemma canonical_redact: "canonical (redact j)"
proof (induction j rule: redact.induct)
  case (1 kvs)
  let ?m = "filter (\<lambda>(k, v). \<not> sensitiveKey k) (to_go_map kvs)"
  have "sorted (map fst ?m)" "distinct (map fst ?m)"
    using to_go_map_sorted [of kvs] by (auto intro: sorted_map_fst_filter distinct_map_filter)
  with 1 show ?case
    by (auto simp: map_fst_redacted list_all_iff simp del: map_map)
qed (auto simp: list_all_iff)

lemma redact_id: "clean j \<Longrightarrow> canonical j \<Longrightarrow> redact j = j"
proof (induction j rule: redact.induct)
  case (1 kvs)
  then have m: "to_go_map kvs = kvs" by (intro to_go_map_id) auto
  have f: "filter (\<lambda>(k, v). \<not> sensitiveKey k) kvs = kvs"
    using "1.prems" by (auto simp: filter_id_conv list_all_iff)
  have "redact v = v" if "(k, v) \<in> set kvs" for k v
    using "1.IH" [of "(k, v)" k v] that "1.prems" unfolding m f by (auto simp: list_all_iff)
  then have "map (\<lambda>(k, v). (k, redact v)) kvs = kvs" by (auto intro!: map_idI)
  then show ?case by (simp only: redact.simps m f)
next
  case (2 xs)
  then have "map redact xs = xs" by (intro map_idI) (auto simp: list_all_iff)
  then show ?case by simp
qed auto

lemma Capture_Inr:
  "Capture i b a = Inr c \<Longrightarrow> ch_EntityID c = i \<and> ch_Before c = redact_opt b \<and> ch_After c = redact_opt a"
  by (auto simp: Capture_def Marshal_opt_def Marshal_def split: option.splits sum.splits if_splits)

subsection \<open>A change and its audit row stand or fall together\<close>

text \<open>The audit row \<open>Write\<close> adds.\<close>

definition row_of :: "policy \<Rightarrow> actor option \<Rightarrow> bytes \<Rightarrow> change \<Rightarrow> activity_log \<Rightarrow> bool" where
  "row_of p act behavior c l \<longleftrightarrow>
     l_entity_id l = nullable (ch_EntityID c) \<and> l_before l = ch_Before c \<and> l_after l = ch_After c
     \<and> l_request_id l = nullable (pol_RequestID p) \<and> l_endpoint_id l = nullable (pol_ID p)
     \<and> (pol_ID p \<noteq> ''auth.register'' \<longrightarrow> l_behavior l = behavior \<and> l_module l = pol_Module p
          \<and> l_actor_id_snapshot l = (case act of None \<Rightarrow> None | Some a \<Rightarrow> nullable (a_ID a)))"

lemma Write_row:
  assumes "Write p act b c e w = (Inr u, w')" and "pol_Mode p \<noteq> NoAudit"
  shows "\<exists>l. db w' = (db w)\<lparr>activity_logs := activity_logs (db w) @ [l]\<rparr> \<and> row_of p act b c l
    \<and> l_id l \<notin> l_id ` set (activity_logs (db w))"
  using assms
  by (cases act)
    (auto simp: Write_def InsertAudit_def Let_def run_simps row_of_def nullable_def split: if_splits)

text \<open>
  The interface between a service and the audited transaction: a relation that holds along
  every insertion into the audit log and along the successful runs of a body holds along the
  whole mutation, because a failed one is rolled back.
\<close>

locale audited = evolution +
  assumes insert: "evolves R e (InsertAudit b m i u s x y r p)"
begin

lemma ev_Write: "evolves R e (Write p act b c)"
  unfolding Write_def Let_def by (intro ev_rules insert)

lemma ev_Read: "evolves R e (Read p act i)"
  unfolding Read_def by (intro ev_rules ev_Write)

lemma ach_required_Write:
  "achieves R e fn \<Longrightarrow> achieves R e (bindE fn (\<lambda>(result, c).
     bindE (if pol_Mode p = Required then Write p act b c else returnE ()) (\<lambda>_. returnE (result, c))))"
  by (rule ach_bindE) (auto split: prod.splits intro!: evolves_achieves ev_bindE ev_Write ev_returnE)

lemma ev_Mutate: "achieves R e fn \<Longrightarrow> evolves R e (Mutate p act b fn)"
  unfolding Mutate_def
  by (intro ev_bindE ev_mapE ev_Transaction_achieves ach_required_Write)
     (auto intro!: ev_bindE ev_attempt ev_Q ev_Write ev_returnE)

end

interpretation kept: audited "keeps wf_db"
  by (intro audited.intro audited_axioms.intro keeps.evolution_axioms InsertAudit_wf)

lemmas audit_writes [writes] = kept.ev_Write kept.ev_Read kept.ev_Mutate

text \<open>The audit log is the only table auditing touches, and it only grows.\<close>

definition adds_logs :: "database \<Rightarrow> database \<Rightarrow> bool" where
  "adds_logs d d' \<longleftrightarrow> (\<exists>ls. d' = d\<lparr>activity_logs := activity_logs d @ ls\<rparr>)"

lemma InsertAudit_logs: "evolves adds_logs e (InsertAudit b m i u s x y r p)"
  unfolding InsertAudit_def evolves_def stmt_def with_uuid_opt_def with_uuid_def
  by (auto simp: adds_logs_def split: option.splits sum.splits prod.splits intro: exI [of _ "[]"])

interpretation logging: audited adds_logs
proof
  show "adds_logs d d" for d by (auto simp: adds_logs_def intro: exI [of _ "[]"])
  show "adds_logs a b \<Longrightarrow> adds_logs b c \<Longrightarrow> adds_logs a c" for a b c by (auto simp: adds_logs_def)
qed (rule InsertAudit_logs)

lemma adds_logs_simps:
  assumes "adds_logs d d'"
  shows "roles d' = roles d" "permissions d' = permissions d" "role_permissions d' = role_permissions d"
    "users d' = users d" "stored_files d' = stored_files d"
    "auth_refresh_tokens d' = auth_refresh_tokens d" "refresh_families d' = refresh_families d"
    "notifications d' = notifications d" "notification_counters d' = notification_counters d"
    "email_jobs d' = email_jobs d" "set (activity_logs d) \<subseteq> set (activity_logs d')"
  using assms by (auto simp: adds_logs_def)

text \<open>The views of the other tables.\<close>

interpretation rbac_fixed: audited "fixed rbac_view"
  by (intro audited.intro audited_axioms.intro fixed.evolution_axioms frames)

interpretation session_fixed: audited "fixed session_view"
  by (intro audited.intro audited_axioms.intro fixed.evolution_axioms frames)

interpretation outbox_fixed: audited "fixed outbox_view"
  by (intro audited.intro audited_axioms.intro fixed.evolution_axioms frames)

lemmas audit_frames [frames] = rbac_fixed.ev_Write session_fixed.ev_Write outbox_fixed.ev_Write
  rbac_fixed.ev_Read session_fixed.ev_Read outbox_fixed.ev_Read
  rbac_fixed.ev_Mutate session_fixed.ev_Mutate outbox_fixed.ev_Mutate

text \<open>The world in which the body of a transaction starts.\<close>

definition tx_start :: "env \<Rightarrow> world \<Rightarrow> world" where
  "tx_start e w = (bump w)\<lparr>txnow := db_now e (tick w)\<rparr>"

lemma tx_start_simps [simp]:
  "db (tx_start e w) = db w" "tick (tx_start e w) = Suc (tick w)"
  "txnow (tx_start e w) = db_now e (tick w)"
  by (simp_all add: tx_start_def)

text \<open>A successful mutation is its body, followed by nothing but audit rows.\<close>

lemma Mutate_success:
  assumes "Mutate p act b fn e w = (Inr r, w')"
  obtains c w2 where "fn e (tx_start e w) = (Inr (r, c), w2)" "adds_logs (db w2) (db w')"
proof -
  from assms obtain c r0 w2 w3 where fn: "fn e (tx_start e w) = (Inr (r0, c), w2)"
    and wr: "(if pol_Mode p = Required then Write p act b c else returnE ()) e w2 = (Inr (), w3)"
    and rest: "(if pol_Mode p = Optional
        then bindE (attempt (Q (Write p act b c))) (\<lambda>_. returnE r0) else returnE r0) e (bump w3) = (Inr r, w')"
    by (auto simp: Mutate_def run_simps tx_start_def)
  from rest have r: "r0 = r" by (auto simp: run_simps split: if_splits)
  have "adds_logs (db w2) (db w3)"
    using wr
    by (auto simp: run_simps logging.refl split: if_splits dest: logging.ev_Write [THEN evolvesD])
  moreover have "adds_logs (db (bump w3)) (db w')"
    using rest
    by (auto simp: run_simps logging.refl split: if_splits dest: logging.ev_Write [THEN evolvesD])
  ultimately show thesis using that fn logging.trans unfolding r by auto
qed

text \<open>A successful required mutation is the change followed by its audit row.\<close>

lemma Mutate_required:
  assumes "Mutate p act b fn e w = (Inr r, w')" and mode: "pol_Mode p = Required"
  obtains c w2 l where "fn e (tx_start e w) = (Inr (r, c), w2)"
    "db w' = (db w2)\<lparr>activity_logs := activity_logs (db w2) @ [l]\<rparr>" "row_of p act b c l"
proof -
  from assms obtain c w2 w3 where fn: "fn e (tx_start e w) = (Inr (r, c), w2)"
    and wr: "Write p act b c e w2 = (Inr (), w3)" and w': "db w' = db w3"
    by (auto simp: Mutate_def run_simps tx_start_def)
  from Write_row [OF wr] mode obtain l where
    "db w3 = (db w2)\<lparr>activity_logs := activity_logs (db w2) @ [l]\<rparr>" "row_of p act b c l"
    by auto
  with fn w' show thesis using that by metis
qed

text \<open>A mutation that reports an error has changed nothing, whatever its audit mode.\<close>

lemma Mutate_error:
  assumes "Mutate p act b fn e w = (Inl x, w')"
  shows "db w' = db w" and "as_fault x \<noteq> None"
proof -
  let ?t = "Transaction (bindE fn (\<lambda>(result, c).
        bindE (if pol_Mode p = Required then Write p act b c else returnE ())
          (\<lambda>_. returnE (result, c))))"
  obtain r w1 where t: "?t e w = (r, w1)" by (cases "?t e w")
  have "db w1 = db w \<and> w' = w1 \<and> x = DB y" if "r = Inl y" for y
    using assms t Transaction_rollback [of _ e w y w1] that
    by (simp add: Mutate_def bindE_def mapE_def)
  moreover have False if "r = Inr y" for y
    using assms t that
    by (cases y) (auto simp: Mutate_def bindE_def mapE_def attempt_def returnE_def
        split: prod.splits if_splits)
  ultimately show "db w' = db w" "as_fault x \<noteq> None" by (cases r; auto)+
qed

subsection \<open>Errors leave no trace\<close>

text \<open>An operation whose failure changes no row: checks and reads, then one mutation.\<close>

definition undoes :: "env \<Rightarrow> 'a op \<Rightarrow> bool" where
  "undoes e m \<longleftrightarrow> (\<forall>w x w'. m e w = (Inl x, w') \<longrightarrow> db w' = db w)"

lemma undoesD: "undoes e m \<Longrightarrow> m e w = (Inl x, w') \<Longrightarrow> db w' = db w"
  by (simp add: undoes_def)

lemma undoes_Mutate: "undoes e (Mutate p act b fn)"
  by (auto simp: undoes_def dest: Mutate_error)

lemma undoes_bindE:
  assumes "evolves (=) e m" and "\<And>a. undoes e (k a)"
  shows "undoes e (bindE m k)"
  unfolding undoes_def
proof (intro allI impI)
  fix w x w'
  assume run: "bindE m k e w = (Inl x, w')"
  obtain r w1 where m: "m e w = (r, w1)" by (cases "m e w")
  have db1: "db w1 = db w" using evolvesD [OF assms(1) m] by simp
  show "db w' = db w"
  proof (cases r)
    case (Inl y)
    then show ?thesis using run m db1 by (simp add: bindE_def)
  next
    case (Inr a)
    then have "k a e w1 = (Inl x, w')" using run m by (simp add: bindE_def)
    then show ?thesis using undoesD [OF assms(2)] db1 by metis
  qed
qed

subsection \<open>Sample values\<close>

definition sample_policy :: "bytes \<Rightarrow> bytes \<Rightarrow> mode \<Rightarrow> policy" where
  "sample_policy i m md = \<lparr>pol_ID = i, pol_Module = m, pol_RequestID = ''req-1'', pol_Mode = md\<rparr>"

definition sample_admin :: actor where
  "sample_admin = \<lparr>a_ID = ''u1'', a_Email = ''root@example.com'', a_RoleID = ''r1'', a_ExpiresAt = 901000\<rparr>"

end
