(* ===== verification/OutboxWorker.thy ===== *)
theory OutboxWorker
  imports AuditLog
begin

text \<open>
  \<open>internal/jobs/worker.go\<close>: the e-mail worker claims a job for a lease, sends the mail while a
  ticker renews the lease, and records the outcome if it still holds the lease; and the
  retention cleanup of \<open>internal/jobs/cleanup.go\<close>.

  \<open>send\<close> is the \<open>Sender\<close> of the worker, the mail library behind \<open>notification.Service.Send\<close>:
  whether it returned nil for this payload.  The ticks of the renewal goroutine that fire before
  the sender returns are a list of booleans: for each, whether the renewal's context was already
  cancelled when its statement returned.  Durations are milliseconds, instants are UTC.
\<close>

record operations =
  op_Concurrency :: int
  op_PollSeconds :: int
  op_LeaseSeconds :: int
  op_RenewSeconds :: int
  op_MaxAttempts :: int
  op_BatchSize :: int
  op_SessionDays :: int
  op_OutboxDays :: int
  op_AuditDays :: int
  op_AuditEnabled :: bool

record payload =
  py_Recipient :: bytes
  py_Title :: bytes
  py_Body :: bytes

definition retries :: "int list" where
  "retries = [5000, 30000, 120000, 600000]"

subsection \<open>Claim\<close>

definition claim_tx :: "operations \<Rightarrow> email_job option op" where
  "claim_tx c =
     bindE time_Now (\<lambda>now.
     bindE (optional_row (ClaimableEmail now)) (\<lambda>found. case found of
       None \<Rightarrow> returnE None
     | Some job \<Rightarrow>
       if j_attempts job \<ge> op_MaxAttempts c then
         bindE (CompleteEmail (j_id job) ''FAILED'' (j_available_at job) (Some now)) (\<lambda>_.
         bindE (SetNotificationEmailStatus (j_notification_id job) ''FAILED'') (\<lambda>_. returnE None))
       else bindE NewString (\<lambda>lease.
         bindE (ClaimEmail lease (now + op_LeaseSeconds c * 1000) (j_id job)) (\<lambda>_.
         bindE (LockEmail (j_id job)) (\<lambda>claimed. returnE (Some claimed))))))"

definition claim :: "operations \<Rightarrow> email_job option op" where
  "claim c = Transaction (claim_tx c)"

subsection \<open>Deliver\<close>

definition renew :: "operations \<Rightarrow> email_job \<Rightarrow> nat op" where
  "renew c job = bindE time_Now (\<lambda>now.
     Q (RenewEmail (now + op_LeaseSeconds c * 1000) (j_id job) (j_lease_id job)))"

text \<open>What the renewal goroutine sends on its channel.\<close>

fun renewals :: "operations \<Rightarrow> email_job \<Rightarrow> bool list \<Rightarrow> bool op" where
  "renewals c job [] = returnE True"
| "renewals c job (cancelled # ticks) = bindE (attempt (renew c job)) (\<lambda>r. case r of
       Inl _ \<Rightarrow> returnE cancelled
     | Inr n \<Rightarrow> if n \<noteq> 1 then returnE False else renewals c job ticks)"

text \<open>The index is clamped to the table on both sides.\<close>

definition retry_delay :: "int \<Rightarrow> int" where
  "retry_delay attempts =
    (let index = attempts - 1;
         index = (if index < 0 then 0 else index);
         index = (if index \<ge> int (length retries) then int (length retries) - 1 else index)
     in retries ! nat index)"

definition holds_lease :: "email_job \<Rightarrow> email_job \<Rightarrow> instant \<Rightarrow> bool" where
  "holds_lease job current now \<longleftrightarrow> j_status current = ''PROCESSING'' \<and> j_lease_id current \<noteq> None
     \<and> j_lease_id job \<noteq> None \<and> j_lease_id current = j_lease_id job
     \<and> (case j_lease_until current of None \<Rightarrow> False | Some t \<Rightarrow> t > now)"

text \<open>The transaction that records the outcome; the result is the label of the metric.\<close>

definition finish_tx :: "operations \<Rightarrow> email_job \<Rightarrow> bool \<Rightarrow> bytes op" where
  "finish_tx c job success =
     bindE (optional_row (LockEmail (j_id job))) (\<lambda>found. case found of
       None \<Rightarrow> returnE []
     | Some current \<Rightarrow> bindE time_Now (\<lambda>now.
       if \<not> holds_lease job current now then returnE []
       else let terminal = success \<or> j_attempts job \<ge> op_MaxAttempts c;
           status = (if terminal then (if success then ''SENT'' else ''FAILED'') else ''PENDING'');
           completed = (if terminal then Some now else None);
           available = (if terminal then now else now + retry_delay (j_attempts job)) in
         bindE (CompleteEmail (j_id job) status available completed) (\<lambda>_.
         bindE (if terminal then SetNotificationEmailStatus (j_notification_id job) status
           else returnE ()) (\<lambda>_.
         returnE (if status = ''PENDING'' then ''RETRY'' else status)))))"

definition finish :: "operations \<Rightarrow> email_job \<Rightarrow> bool \<Rightarrow> bytes op" where
  "finish c job success = Transaction (finish_tx c job success)"

definition deliver :: "operations \<Rightarrow> (payload \<Rightarrow> bool) \<Rightarrow> bool list \<Rightarrow> email_job \<Rightarrow> unit op" where
  "deliver c send ticks job =
     bindE (renewals c job ticks) (\<lambda>renewed.
       let success = send \<lparr>py_Recipient = j_recipient job, py_Title = j_title job, py_Body = j_body job\<rparr> in
       if \<not> renewed then returnE () else bindE (finish c job success) (\<lambda>_. returnE ()))"

text \<open>
  One round of \<open>Run\<close>: the backlog metrics, a claim, and the delivery of what it claimed.  Errors
  are logged and the loop goes on; the result tells whether it polls again at once.
\<close>

definition run_once :: "operations \<Rightarrow> (payload \<Rightarrow> bool) \<Rightarrow> bool list \<Rightarrow> bool op" where
  "run_once c send ticks =
     bindE (attempt (Q EmailBacklogCount)) (\<lambda>_.
     bindE (attempt (Q EmailBacklogOldest)) (\<lambda>_.
     bindE (attempt (claim c)) (\<lambda>r. case r of
       Inl _ \<Rightarrow> returnE False
     | Inr None \<Rightarrow> returnE False
     | Inr (Some job) \<Rightarrow> bindE (attempt (deliver c send ticks job)) (\<lambda>_. returnE True))))"

subsection \<open>Cleanup\<close>

definition day :: int where "day = 24 * 3600 * 1000"

text \<open>\<open>int32(c.BatchSize)\<close> is the batch size as it is: the configuration bounds it by 5000.\<close>

definition Cleanup_tx :: "operations \<Rightarrow> instant \<Rightarrow> bool \<Rightarrow> (nat \<times> nat \<times> nat) op" where
  "Cleanup_tx c now applied =
     bindE (CleanupFamilies (now - op_SessionDays c * day) (nat (op_BatchSize c))) (\<lambda>families.
     bindE (CleanupEmail (now - op_OutboxDays c * day) (nat (op_BatchSize c))) (\<lambda>emails.
     bindE (if op_AuditEnabled c then CleanupAudit (now - op_AuditDays c * day) (nat (op_BatchSize c))
       else returnE []) (\<lambda>logs.
     bindE (if applied then bindE (forE families DeleteFamily) (\<lambda>_.
         bindE (forE emails DeleteEmail) (\<lambda>_. forE logs DeleteAudit)) else returnE ()) (\<lambda>_.
     returnE (length families, length emails, length logs)))))"

definition Cleanup :: "operations \<Rightarrow> bool \<Rightarrow> (nat \<times> nat \<times> nat) op" where
  "Cleanup c applied = bindE time_Now (\<lambda>now. Transaction (Cleanup_tx c now applied))"

subsection \<open>Constraints and frames\<close>

lemma worker_wf [writes]:
  "evolves (keeps wf_db) e (claim_tx c)" "evolves (keeps wf_db) e (renew c j)"
  "evolves (keeps wf_db) e (finish_tx c j ok)" "evolves (keeps wf_db) e (Cleanup_tx c now ap)"
  unfolding claim_tx_def renew_def finish_tx_def Cleanup_tx_def Let_def
  by (intro keeps.ev_rules writes reads [THEN same_keeps])+

context evolution
begin

lemma ev_renewals: "evolves R e (renew c job) \<Longrightarrow> evolves R e (renewals c job ticks)"
  by (induction ticks) (auto intro!: ev_rules)

text \<open>A round of a worker evolves as its three statements do.\<close>

lemma ev_run_once:
  assumes "evolves R e (claim c)" and "\<And>job. evolves R e (renew c job)"
    and "\<And>job ok. evolves R e (finish c job ok)" and "\<And>m. evolves (=) e m \<Longrightarrow> evolves R e (m :: nat op)"
    and "\<And>m. evolves (=) e m \<Longrightarrow> evolves R e (m :: instant op)"
  shows "evolves R e (run_once c send ticks)"
  unfolding run_once_def deliver_def Let_def
  by (intro ev_rules ev_renewals assms same.ev_rules reads)

end

end
