(* ===== verification/NotificationService.thy ===== *)
theory NotificationService
  imports AuditLog
begin

text \<open>
  \<open>internal/notification/service.go\<close>: creating a notification together with its e-mail job,
  marking one read, paging through a recipient's notifications and the backlog of a stream.
  The actor of a creation or a read is never nil: the endpoints require a session.  \<open>Send\<close> only
  configures the mail library and is a parameter of the worker.
\<close>

record item =
  it_ID :: bytes
  it_RecipientID :: bytes
  it_Title :: bytes
  it_Body :: bytes
  it_EmailStatus :: bytes
  it_ReadAt :: "instant option"
  it_CreatedAt :: instant

record create_input =
  ci_RecipientID :: bytes
  ci_Title :: bytes
  ci_Body :: bytes
  ci_SendEmail :: bool

record stream_item =
  si_Item :: item
  si_Sequence :: int

definition item_json :: "item \<Rightarrow> json" where
  "item_json v = JObj [(''id'', JStr (it_ID v)), (''recipientId'', JStr (it_RecipientID v)),
     (''title'', JStr (it_Title v)), (''body'', JStr (it_Body v)),
     (''emailStatus'', JStr (it_EmailStatus v)),
     (''readAt'', case it_ReadAt v of None \<Rightarrow> JNull | Some t \<Rightarrow> JTime t),
     (''createdAt'', JTime (it_CreatedAt v))]"

definition project :: "notification_row \<Rightarrow> item" where
  "project row = \<lparr>it_ID = n_id row, it_RecipientID = n_recipient_id row, it_Title = n_title row,
     it_Body = n_body row, it_EmailStatus = n_email_status row, it_ReadAt = n_read_at row,
     it_CreatedAt = n_created_at row\<rparr>"

subsection \<open>Create\<close>

definition invalid_input :: "create_input \<Rightarrow> bool" where
  "invalid_input inp \<longleftrightarrow> TrimSpace (ci_Title inp) = [] \<or> TrimSpace (ci_Body inp) = []
     \<or> length (ci_Title inp) > 160 \<or> length (ci_Body inp) > 4000"

definition initial_status :: "bool \<Rightarrow> bool \<Rightarrow> bytes" where
  "initial_status smtp send = (if send then (if smtp then ''PENDING'' else ''FAILED'') else ''NOT_REQUESTED'')"

text \<open>\<open>smtp\<close> is \<open>s.SMTP.SMTPEnabled\<close>.\<close>

definition Notification_Create_tx :: "bool \<Rightarrow> actor \<Rightarrow> create_input \<Rightarrow> (item \<times> change) op" where
  "Notification_Create_tx smtp act inp =
     bindE (mapE (\<lambda>x. if Is x NoRows then ErrRecipient else x) (LockUser (ci_RecipientID inp))) (\<lambda>locked.
     bindE (guardE (if u_deleted_at locked \<noteq> None then Some ErrRecipient else None)) (\<lambda>_.
     bindE (EnsureNotificationCounter (ci_RecipientID inp)) (\<lambda>_.
     bindE (IncrementNotificationCounter (ci_RecipientID inp)) (\<lambda>_.
     bindE (NotificationSequence (ci_RecipientID inp)) (\<lambda>sequence.
     bindE NewString (\<lambda>ident.
     bindE (CreateNotification ident (ci_RecipientID inp) (Some (a_ID act)) (TrimSpace (ci_Title inp))
       (TrimSpace (ci_Body inp)) (initial_status smtp (ci_SendEmail inp)) sequence) (\<lambda>_.
     bindE (if ci_SendEmail inp \<and> smtp
         then bindE NewString (\<lambda>job. EnqueueEmail job ident (u_email locked) (TrimSpace (ci_Title inp))
           (TrimSpace (ci_Body inp)))
         else returnE ()) (\<lambda>_.
     bindE (FindNotification ident) (\<lambda>row.
       let v = project row in
       bindE (liftE (Capture ident None (Some (item_json v)))) (\<lambda>c. returnE (v, c)))))))))))"

definition Notification_Create :: "bool \<Rightarrow> policy \<Rightarrow> actor \<Rightarrow> create_input \<Rightarrow> item op" where
  "Notification_Create smtp p act inp =
     bindE (guardE (if invalid_input inp then Some ErrInvalid else None)) (\<lambda>_.
     bindE (mapE (\<lambda>x. if Is x NoRows then ErrRecipient else x)
       (Q (FindActiveUserByID (ci_RecipientID inp)))) (\<lambda>_.
     Mutate p (Some act) ''CREATE'' (Notification_Create_tx smtp act inp)))"

subsection \<open>Lists, reads and pages\<close>

definition Notification_List :: "bytes \<Rightarrow> bool \<Rightarrow> item list op" where
  "Notification_List recipient unread =
     bindE (Q (ListOwnNotifications recipient unread)) (\<lambda>rows. returnE (map project rows))"

definition Notification_Read_tx :: "actor \<Rightarrow> bytes \<Rightarrow> (item \<times> change) op" where
  "Notification_Read_tx act ident =
     bindE (mapE (\<lambda>x. if Is x NoRows then ErrItem else x) (LockOwnNotification ident (a_ID act))) (\<lambda>prior.
     bindE (ReadNotification ident) (\<lambda>_.
     bindE (FindNotification ident) (\<lambda>row.
     bindE (liftE (Capture ident (Some (item_json (project prior))) (Some (item_json (project row)))))
       (\<lambda>c. returnE (project row, c)))))"

definition Notification_Read :: "policy \<Rightarrow> actor \<Rightarrow> bytes \<Rightarrow> item op" where
  "Notification_Read p act ident = Mutate p (Some act) ''UPDATE'' (Notification_Read_tx act ident)"

definition Cursor :: "bytes \<Rightarrow> bytes \<Rightarrow> (int \<times> bool) op" where
  "Cursor recipient ident = bindE askE (\<lambda>e.
     if ident = [] then returnE (0, False)
     else if \<not> uuid_parses e ident then failE ErrInvalid
     else bindE (mapE (\<lambda>x. if Is x NoRows then ErrInvalid else x)
       (Q (NotificationCursor ident recipient))) (\<lambda>v. returnE (v, True)))"

text \<open>The 51st row only tells that there is a next page, which the 50th row's id opens.\<close>

definition page_result :: "notification_row list \<Rightarrow> item list \<times> bytes" where
  "page_result rows = (if length rows > 50 then (map project (take 50 rows), n_id (rows ! 49))
     else (map project rows, []))"

definition Page :: "bytes \<Rightarrow> bytes \<Rightarrow> (item list \<times> bytes) op" where
  "Page recipient ident =
     bindE (Cursor recipient ident) (\<lambda>(sequence, has).
     bindE (Q (NotificationPage recipient has sequence)) (\<lambda>rows. returnE (page_result rows)))"

definition stream_item_of :: "notification_row \<Rightarrow> stream_item" where
  "stream_item_of row = \<lparr>si_Item = project row, si_Sequence = n_sequence row\<rparr>"

definition Backlog :: "bytes \<Rightarrow> int \<Rightarrow> bool \<Rightarrow> bool \<Rightarrow> (stream_item list \<times> bool) op" where
  "Backlog recipient sequence has unreadOnly =
     bindE (attempt (Q (FindActiveUserByID recipient))) (\<lambda>r. case r of
       Inl x \<Rightarrow> if Is x NoRows then returnE ([], False) else failE x
     | Inr _ \<Rightarrow> bindE (Q (NotificationBacklog recipient has sequence unreadOnly)) (\<lambda>rows.
         returnE (map stream_item_of rows, True)))"

subsection \<open>Constraints and frames\<close>

lemma notification_reads [reads]:
  "evolves (=) e (Notification_List r u)" "evolves (=) e (Cursor r i)" "evolves (=) e (Page r i)"
  "evolves (=) e (Backlog r n has un)"
  unfolding Notification_List_def Cursor_def Page_def Backlog_def by (intro same.ev_rules reads)+

lemma notification_tx_wf [writes]:
  "evolves (keeps wf_db) e (Notification_Create_tx s a i)" "evolves (keeps wf_db) e (Notification_Read_tx a n)"
  unfolding Notification_Create_tx_def Notification_Read_tx_def
  by (intro keeps.ev_rules writes reads [THEN same_keeps])+

lemma notification_wf [writes]:
  "evolves (keeps wf_db) e (Notification_Create s p a i)" "evolves (keeps wf_db) e (Notification_Read p a n)"
  unfolding Notification_Create_def Notification_Read_def
  by (intro keeps.ev_rules kept.ev_Mutate evolves_achieves writes reads [THEN same_keeps])+

lemma notification_frames [frames]:
  "evolves (fixed rbac_view) e (Notification_Create s p a i)" "evolves (fixed rbac_view) e (Notification_Read p a n)"
  "evolves (fixed session_view) e (Notification_Create s p a i)" "evolves (fixed session_view) e (Notification_Read p a n)"
  unfolding Notification_Create_def Notification_Read_def Notification_Create_tx_def Notification_Read_tx_def
  by (intro fixed.ev_rules rbac_fixed.ev_Mutate session_fixed.ev_Mutate evolves_achieves frames
      reads [THEN same_fixed])+

end
