(* ===== verification/Privilege.thy ===== *)
theory Privilege
  imports AuditLog
begin

text \<open>
  \<open>internal/role/privilege.go\<close>: the names the code depends on, the rule that an actor only
  hands out permissions it holds, and the guard that keeps every system permission held by an
  active user.  \<open>Guard\<close> is modelled as the code has it: it takes the locks, counts before the
  change and returns the check (a closure over the names unheld before) that the caller runs
  after the change, in the same transaction.
\<close>

definition RootRole :: bytes where "RootRole = ''admin''"
definition DefaultRole :: bytes where "DefaultRole = ''user''"

definition SystemRoles :: "bytes list" where
  "SystemRoles = [RootRole, DefaultRole]"

definition SystemPermissions :: "bytes list" where
  "SystemPermissions = [''manage_users'', ''manage_roles'', ''manage_permissions'',
     ''manage_uploads'', ''manage_notifications'']"

definition quoted :: "bytes \<Rightarrow> bytes" where
  "quoted s = CHR 0x27 # s @ [CHR 0x27]"

definition NotSystemName :: "bytes list \<Rightarrow> bytes \<Rightarrow> bytes \<Rightarrow> goerr option" where
  "NotSystemName names k name = (if name \<in> set names
     then Some (New Forbidden (''System '' @ k @ '' '' @ quoted name @ '' cannot be created, renamed or deleted''))
     else None)"

definition PermissionsWithinActor :: "actor option \<Rightarrow> bytes list \<Rightarrow> unit op" where
  "PermissionsWithinActor act permissionIDs =
    (if permissionIDs = [] then returnE ()
     else case act of None \<Rightarrow> failE (New Forbidden ''Forbidden'')
     | Some a \<Rightarrow> bindE (mapE DB (ListRolePermissionIDs (a_RoleID a))) (\<lambda>held.
         guardE (if list_all (\<lambda>i. i \<in> set held) permissionIDs then None
           else Some (New Forbidden ''You cannot grant or manage permissions you do not hold''))))"

definition RoleWithinActor :: "actor option \<Rightarrow> bytes \<Rightarrow> unit op" where
  "RoleWithinActor act roleID =
    (if (case act of None \<Rightarrow> False | Some a \<Rightarrow> a_RoleID a = roleID) then returnE ()
     else bindE (mapE DB (ListRolePermissionIDs roleID)) (PermissionsWithinActor act))"

definition IsRootRole :: "bytes \<Rightarrow> bool op" where
  "IsRootRole roleID = bindE (mapE DB (FindRole roleID)) (\<lambda>r. returnE (r_name r = RootRole))"

text \<open>The closure \<open>unheld\<close>: the system permissions no active user holds.\<close>

definition unheld :: "bytes list op" where
  "unheld = bindE (mapM (\<lambda>name. bindE (mapE DB (CountActivePermissionHolders name))
       (\<lambda>count. returnE (if count = 0 then [name] else []))) SystemPermissions)
     (\<lambda>names. returnE (concat names))"

definition holders :: "bytes list \<Rightarrow> unit op" where
  "holders before = bindE unheld (\<lambda>after.
     case find (\<lambda>name. name \<notin> set before) after of
       None \<Rightarrow> returnE ()
     | Some name \<Rightarrow> failE (New Forbidden (''Change would leave no active user holding '' @ quoted name)))"

definition GuardSystemPermissionHolders :: "unit op op" where
  "GuardSystemPermissionHolders =
     bindE (forE SystemPermissions (\<lambda>name. bindE (mapE DB (LockPermissionByName name)) (\<lambda>_. returnE ())))
       (\<lambda>_. bindE unheld (\<lambda>before. returnE (holders before)))"

definition GrantToPermissionManagers :: "bytes \<Rightarrow> unit op" where
  "GrantToPermissionManagers permissionID =
     bindE (mapE DB (ListRoleIDsWithPermissionName ''manage_permissions'')) (\<lambda>rs.
       forE rs (\<lambda>roleID. mapE DB (AssignRolePermission roleID permissionID)))"

definition RevokeUserSessions :: "bytes \<Rightarrow> unit op" where
  "RevokeUserSessions userID = bindE (mapE DB (RevokeUserRefreshFamilies userID))
     (\<lambda>_. mapE DB (RevokeUserAuthRefreshTokens userID))"

text \<open>\<open>fault.UUID\<close> as the first step of a service.\<close>

definition checkUUID :: "bytes \<Rightarrow> unit op" where
  "checkUUID v = bindE askE (\<lambda>e. guardE (UUID (uuid_parses e) v))"

subsection \<open>What the checks read and change\<close>

lemma checkUUID_reads [reads]: "evolves (=) e (checkUUID v)"
  unfolding checkUUID_def by (intro same.ev_rules)

lemma privilege_reads [reads]:
  "evolves (=) e (PermissionsWithinActor act ids)" "evolves (=) e (RoleWithinActor act r)"
  "evolves (=) e (IsRootRole r)" "evolves (=) e unheld" "evolves (=) e (holders names)"
  "evolves (=) e GuardSystemPermissionHolders"
  unfolding PermissionsWithinActor_def RoleWithinActor_def IsRootRole_def unheld_def holders_def
    GuardSystemPermissionHolders_def
  by (intro same.ev_rules rbac_reads)+

lemma privilege_writes [writes]:
  "evolves (keeps wf_db) e (GrantToPermissionManagers p)"
  "evolves (keeps wf_db) e (RevokeUserSessions u)"
  unfolding GrantToPermissionManagers_def RevokeUserSessions_def
  by (intro keeps.ev_rules writes reads [THEN same_keeps])+

lemma reads_db: "evolves (=) e m \<Longrightarrow> m e w = (r, w') \<Longrightarrow> db w' = db w"
  by (drule (1) evolvesD) simp

lemma PermissionsWithinActor_ok:
  assumes "PermissionsWithinActor act ids e w = (Inr u, w')"
  shows "ids = [] \<or> (\<exists>a r. act = Some a \<and> uuid_in e (a_RoleID a) = Some r
    \<and> set ids \<subseteq> set (role_permission_ids (db w) r))"
  using assms
  by (auto simp: PermissionsWithinActor_def ListRolePermissionIDs_def run_simps list_all_iff
      split: if_splits option.splits)

lemma RoleWithinActor_ok:
  assumes "RoleWithinActor act role e w = (Inr u, w')"
  shows "(\<exists>a. act = Some a \<and> a_RoleID a = role)
    \<or> (\<exists>r. uuid_in e role = Some r \<and> (role_permission_ids (db w) r = []
        \<or> (\<exists>a r'. act = Some a \<and> uuid_in e (a_RoleID a) = Some r'
             \<and> set (role_permission_ids (db w) r) \<subseteq> set (role_permission_ids (db w) r'))))"
proof (cases "case act of None \<Rightarrow> False | Some a \<Rightarrow> a_RoleID a = role")
  case True
  then show ?thesis by (auto split: option.splits)
next
  case False
  with assms obtain ids w1 where "ListRolePermissionIDs role e w = (Inr ids, w1)"
    and within: "PermissionsWithinActor act ids e w1 = (Inr u, w')"
    by (auto simp: RoleWithinActor_def run_simps)
  then obtain r where "uuid_in e role = Some r" "ids = role_permission_ids (db w) r" "db w1 = db w"
    by (auto simp: ListRolePermissionIDs_def run_simps)
  with PermissionsWithinActor_ok [OF within] show ?thesis by auto
qed

subsection \<open>The guard\<close>

definition unheld_names :: "database \<Rightarrow> bytes list" where
  "unheld_names d = filter (\<lambda>name. active_holders d name = 0) SystemPermissions"

lemma count_run:
  "bindE (mapE DB (CountActivePermissionHolders name))
     (\<lambda>count. returnE (if count = 0 then [name] else [])) e w = (Inr x, w') \<Longrightarrow>
   x = (if active_holders (db w) name = 0 then [name] else []) \<and> db w' = db w"
  by (auto simp: run_simps CountActivePermissionHolders_def)

lemma mapM_counts:
  assumes "mapM (\<lambda>name. bindE (mapE DB (CountActivePermissionHolders name))
       (\<lambda>count. returnE (if count = 0 then [name] else []))) ns e w = (Inr xs, w')"
  shows "db w' = db w \<and> concat xs = filter (\<lambda>name. active_holders (db w) name = 0) ns"
  using assms
proof (induction ns arbitrary: w xs)
  case Nil
  then show ?case by (simp add: run_simps)
next
  case (Cons n ns)
  let ?f = "\<lambda>name. bindE (mapE DB (CountActivePermissionHolders name))
       (\<lambda>count. returnE (if count = 0 then [name] else []))"
  from Cons.prems obtain x w1 ys where x: "?f n e w = (Inr x, w1)"
    and rest: "mapM ?f ns e w1 = (Inr ys, w')" and xs: "xs = x # ys"
    unfolding run_mapM by blast
  from count_run [OF x] Cons.IH [OF rest] xs show ?case by simp
qed

lemma unheld_run: "unheld e w = (Inr ns, w') \<Longrightarrow> ns = unheld_names (db w) \<and> db w' = db w"
  by (auto simp: unheld_def unheld_names_def run_simps dest: mapM_counts)

lemma Guard_run:
  assumes "GuardSystemPermissionHolders e w = (Inr check, w')"
  shows "check = holders (unheld_names (db w)) \<and> db w' = db w"
proof -
  let ?lock = "\<lambda>name. bindE (mapE DB (LockPermissionByName name)) (\<lambda>_. returnE ())"
  from assms obtain w1 before where locks: "forE SystemPermissions ?lock e w = (Inr (), w1)"
    and u: "unheld e w1 = (Inr before, w')" and check: "check = holders before"
    by (auto simp: GuardSystemPermissionHolders_def run_simps)
  have "evolves (=) e (forE SystemPermissions ?lock)" by (intro same.ev_rules rbac_reads)
  then have "db w1 = db w" using locks by (rule reads_db)
  with unheld_run [OF u] check show ?thesis by simp
qed

context evolution
begin

lemma ev_Guard_bind:
  assumes "\<And>names. evolves R e (k (holders names))"
  shows "evolves R e (bindE GuardSystemPermissionHolders k)"
  unfolding evolves_def
proof
  fix w
  obtain r w1 where g: "GuardSystemPermissionHolders e w = (r, w1)"
    by (cases "GuardSystemPermissionHolders e w")
  have db1: "db w1 = db w" using privilege_reads(6) g by (rule reads_db)
  show "R (db w) (db (snd (bindE GuardSystemPermissionHolders k e w)))"
  proof (cases r)
    case (Inl x)
    then show ?thesis by (simp add: bindE_def g db1 refl)
  next
    case (Inr check)
    then obtain names where "check = holders names" using Guard_run g by blast
    then have "R (db w1) (db (snd (k check e w1)))" using assms by (simp add: evolves_def)
    then show ?thesis using Inr by (simp add: bindE_def g db1)
  qed
qed

lemma ach_Guard_bind:
  assumes "\<And>names. achieves R e (k (holders names))"
  shows "achieves R e (bindE GuardSystemPermissionHolders k)"
proof (rule achievesI)
  fix w a w'
  assume "bindE GuardSystemPermissionHolders k e w = (Inr a, w')"
  then obtain check w1 where g: "GuardSystemPermissionHolders e w = (Inr check, w1)"
    and k: "k check e w1 = (Inr a, w')" by (auto simp: run_bindE_Inr)
  then show "R (db w) (db w')"
    using Guard_run [OF g] assms [of "unheld_names (db w)"] unfolding achieves_def by metis
qed

end

text \<open>No system permission held by an active user becomes unheld.\<close>

definition still_held :: "database \<Rightarrow> database \<Rightarrow> bool" where
  "still_held d d' \<longleftrightarrow> (\<forall>name \<in> set SystemPermissions. active_holders d name > 0 \<longrightarrow> active_holders d' name > 0)"

interpretation held: evolution still_held
  by unfold_locales (auto simp: still_held_def)

lemma holders_ok:
  assumes "holders (unheld_names d) e w = (Inr u, w')"
  shows "still_held d (db w)" and "db w' = db w"
proof -
  from assms obtain w1 where u: "unheld e w = (Inr (unheld_names (db w)), w1)"
    and f: "find (\<lambda>name. name \<notin> set (unheld_names d)) (unheld_names (db w)) = None"
    and w': "w' = w1"
    by (auto simp: holders_def run_simps dest: unheld_run split: option.splits)
  show "still_held d (db w)"
    using f by (auto simp: find_None_iff unheld_names_def still_held_def)
  show "db w' = db w" using unheld_run [OF u] w' by simp
qed

end
