(* ===== verification/RbacSafety.thy ===== *)
theory RbacSafety
  imports Privilege
begin

text \<open>
  What no service may do to the access rules: a well-formed database stays well-formed, every
  system permission held by an active user stays held by one, and the rows of the system roles
  and system permissions keep their id and name.  \<open>rbac_step\<close> is the relation between the
  database before and after; it composes, so it is proved for the statements and for the
  bodies of the services.
\<close>

lemma active_holders_pos:
  "active_holders d name > 0 \<longleftrightarrow> (\<exists>u \<in> set (users d). u_deleted_at u = None
     \<and> (\<exists>rp \<in> set (role_permissions d). rp_role_id rp = u_role_id u
          \<and> (\<exists>p \<in> set (permissions d). p_id p = rp_permission_id rp \<and> p_name p = name)))"
  by (auto simp: active_holders_def filter_empty_conv)

definition system_rows :: "database \<Rightarrow> (bytes \<times> bytes) set \<times> (bytes \<times> bytes) set" where
  "system_rows d =
     ({(r_id r, r_name r) | r. r \<in> set (roles d) \<and> r_name r \<in> set SystemRoles},
      {(p_id p, p_name p) | p. p \<in> set (permissions d) \<and> p_name p \<in> set SystemPermissions})"

text \<open>
  The engine and \<open>uuid.NewString\<close> write a UUID in one form, which the engine reads back as it
  is: the documented canonical text of a UUID.  Ids are stored in that form.
\<close>

definition uuid_laws :: "env \<Rightarrow> bool" where
  "uuid_laws e \<longleftrightarrow> (\<forall>n. uuid_in e (gen_uuid e n) = Some (gen_uuid e n))
     \<and> (\<forall>s u. uuid_in e s = Some u \<longrightarrow> uuid_in e u = Some u)"

definition canonical_ids :: "env \<Rightarrow> database \<Rightarrow> bool" where
  "canonical_ids e d \<longleftrightarrow> (\<forall>i \<in> r_id ` set (roles d) \<union> p_id ` set (permissions d). uuid_in e i = Some i)"

definition sound :: "env \<Rightarrow> database \<Rightarrow> bool" where
  "sound e d \<longleftrightarrow> uuid_laws e \<and> wf_db d \<and> canonical_ids e d"

definition rbac_step :: "env \<Rightarrow> database \<Rightarrow> database \<Rightarrow> bool" where
  "rbac_step e d d' \<longleftrightarrow>
     (sound e d \<longrightarrow> sound e d' \<and> still_held d d' \<and> system_rows d' = system_rows d)"

lemma canonical_mono:
  "canonical_ids e d \<Longrightarrow> r_id ` set (roles d') \<subseteq> r_id ` set (roles d) \<Longrightarrow>
   p_id ` set (permissions d') \<subseteq> p_id ` set (permissions d) \<Longrightarrow> canonical_ids e d'"
  by (auto simp: canonical_ids_def)

lemma view_step:
  "evolves (keeps wf_db) e m \<Longrightarrow> evolves (fixed rbac_view) e m \<Longrightarrow> evolves (rbac_step e') e m"
  by (auto simp: evolves_def rbac_step_def keeps_def fixed_def rbac_view_def still_held_def
      active_holders_def system_rows_def sound_def canonical_ids_def)

interpretation rbac: audited "rbac_step e"
  by (intro audited.intro evolution.intro audited_axioms.intro view_step InsertAudit_wf frames)
     (auto simp: rbac_step_def still_held_def)

lemma rbac_same: "evolves (=) e m \<Longrightarrow> evolves (rbac_step e') e m"
  by (rule evolves_same [OF _ rbac.evolution_axioms])

text \<open>A successful run of an operation that keeps the constraints.\<close>

lemma rbac_stepI:
  assumes "evolves (keeps wf_db) e m" and "m e w = (Inr a, w')"
    and "sound e (db w) \<Longrightarrow> canonical_ids e (db w') \<and> still_held (db w) (db w')
      \<and> system_rows (db w') = system_rows (db w)"
  shows "rbac_step e (db w) (db w')"
  using assms keeps_run [OF assms(1,2)] by (simp add: rbac_step_def sound_def)

lemma rbac_stmt:
  assumes "evolves (keeps wf_db) e (stmt f)"
    and "\<And>now n d a d'. sound e d \<Longrightarrow> f e now (gen_uuid e n) d = Inr (a, d') \<Longrightarrow>
      canonical_ids e d' \<and> still_held d d' \<and> system_rows d' = system_rows d"
  shows "evolves (rbac_step e) e (stmt f)"
  unfolding evolves_def
proof
  fix w
  obtain r w' where run: "stmt f e w = (r, w')" by (cases "stmt f e w")
  show "rbac_step e (db w) (db (snd (stmt f e w)))"
  proof (cases r)
    case (Inl x)
    then show ?thesis using run stmt_Inl_db by (fastforce simp: rbac.refl)
  next
    case (Inr a)
    with run assms(2) have "sound e (db w) \<Longrightarrow> canonical_ids e (db w') \<and> still_held (db w) (db w')
        \<and> system_rows (db w') = system_rows (db w)"
      by (auto simp: run_simps)
    then show ?thesis using rbac_stepI [OF assms(1)] run Inr by simp
  qed
qed

subsection \<open>Statements that only add\<close>

lemma still_held_mono:
  assumes "set (users d) \<subseteq> set (users d')" "set (role_permissions d) \<subseteq> set (role_permissions d')"
    "set (permissions d) \<subseteq> set (permissions d')"
  shows "still_held d d'"
  unfolding still_held_def active_holders_pos using assms by blast

lemma AssignRolePermission_step: "evolves (rbac_step e) e (AssignRolePermission r p)"
  unfolding AssignRolePermission_def
  by (rule rbac_stmt, fold AssignRolePermission_def, intro writes)
     (auto simp: run_simps Let_def system_rows_def sound_def canonical_ids_def split: if_splits
       intro!: still_held_mono)

lemma CreateUser_step: "evolves (rbac_step e) e (CreateUser m pw r)"
  unfolding CreateUser_def
  by (rule rbac_stmt, fold CreateUser_def, intro writes)
     (auto simp: run_simps Let_def system_rows_def sound_def canonical_ids_def split: if_splits
       intro!: still_held_mono)

lemma CreateRole_step: "n \<notin> set SystemRoles \<Longrightarrow> evolves (rbac_step e) e (CreateRole n)"
  unfolding CreateRole_def
  by (rule rbac_stmt, fold CreateRole_def, intro writes)
     (auto simp: run_simps Let_def system_rows_def sound_def canonical_ids_def uuid_laws_def
       split: if_splits intro!: still_held_mono)

lemma CreatePermission_step:
  "n \<notin> set SystemPermissions \<Longrightarrow> evolves (rbac_step e) e (CreatePermission n)"
  unfolding CreatePermission_def
  by (rule rbac_stmt, fold CreatePermission_def, intro writes)
     (auto simp: run_simps Let_def system_rows_def sound_def canonical_ids_def uuid_laws_def
       split: if_splits intro!: still_held_mono)

lemma RevokeUserSessions_step: "evolves (rbac_step e') e (RevokeUserSessions u)"
  unfolding RevokeUserSessions_def
  by (intro rbac.ev_rules view_step writes frames)

lemma GrantToPermissionManagers_step: "evolves (rbac_step e) e (GrantToPermissionManagers p)"
  unfolding GrantToPermissionManagers_def
  by (intro rbac.ev_rules AssignRolePermission_step rbac_same reads)

subsection \<open>Changes that are checked first\<close>

lemma still_held_same:
  "users d' = users d \<Longrightarrow> role_permissions d' = role_permissions d \<Longrightarrow> permissions d' = permissions d \<Longrightarrow>
   still_held d d'"
  by (rule still_held_mono) simp_all

lemma renamed_rows:
  assumes "distinct (map ident rs)" and "select_one (\<lambda>r. ident r = u) rs = Some old"
    and "\<And>r. ident (f r) = ident r" and "\<And>r. nm (f r) = n"
    and "n = nm old \<or> n \<notin> S \<and> nm old \<notin> S"
  shows "{(ident r, nm r) | r. r \<in> set (update_where (\<lambda>x. ident x = u) f rs) \<and> nm r \<in> S}
    = {(ident r, nm r) | r. r \<in> set rs \<and> nm r \<in> S}"
proof -
  have old: "old \<in> set rs" "ident old = u" using select_one_Some [OF assms(2)] by auto
  have uniq: "r = old" if "r \<in> set rs" "ident r = u" for r
    using key_inj [OF assms(1) that(1) old(1)] that(2) old(2) by simp
  define g where "g = (\<lambda>r. if ident r = u then f r else r)"
  have key: "ident (g r) = ident r" "nm (g r) \<in> S \<longleftrightarrow> nm r \<in> S" "nm r \<in> S \<Longrightarrow> nm (g r) = nm r"
    if "r \<in> set rs" for r
    using uniq [OF that] assms(3-5) by (auto simp: g_def)
  have "set (update_where (\<lambda>x. ident x = u) f rs) = g ` set rs"
    by (simp add: update_where_def g_def)
  then show ?thesis
    using key by (simp add: setcompr_eq_image) (auto intro!: rev_image_eqI)
qed

lemma UpdateRole_ok:
  assumes wf: "wf_db d" and old: "select_one (\<lambda>r. r_id r = u) (roles d) = Some old"
    and n: "n = r_name old \<or> n \<notin> set SystemRoles \<and> r_name old \<notin> set SystemRoles"
  shows "system_rows (d\<lparr>roles := update_where (\<lambda>x. r_id x = u)
    (\<lambda>x. x\<lparr>r_name := n, r_updated_at := t\<rparr>) (roles d)\<rparr>) = system_rows d"
  using wf n renamed_rows [where ident = r_id and nm = r_name and rs = "roles d" and u = u and old = old
    and f = "\<lambda>x. x\<lparr>r_name := n, r_updated_at := t\<rparr>" and n = n and S = "set SystemRoles"] old
  by (simp add: system_rows_def wf_db_def wf_roles_def)

lemma UpdatePermission_ok:
  assumes wf: "wf_db d" and old: "select_one (\<lambda>p. p_id p = u) (permissions d) = Some old"
    and n: "n \<notin> set SystemPermissions" "p_name old \<notin> set SystemPermissions"
  shows "system_rows (d\<lparr>permissions := update_where (\<lambda>x. p_id x = u)
    (\<lambda>x. x\<lparr>p_name := n, p_updated_at := t\<rparr>) (permissions d)\<rparr>) = system_rows d"
    and "still_held d (d\<lparr>permissions := update_where (\<lambda>x. p_id x = u)
    (\<lambda>x. x\<lparr>p_name := n, p_updated_at := t\<rparr>) (permissions d)\<rparr>)"
proof -
  show "system_rows (d\<lparr>permissions := update_where (\<lambda>x. p_id x = u)
    (\<lambda>x. x\<lparr>p_name := n, p_updated_at := t\<rparr>) (permissions d)\<rparr>) = system_rows d"
    using wf n renamed_rows [where ident = p_id and nm = p_name and rs = "permissions d" and u = u
      and old = old and f = "\<lambda>x. x\<lparr>p_name := n, p_updated_at := t\<rparr>" and n = n
      and S = "set SystemPermissions"] old
    by (simp add: system_rows_def wf_db_def wf_permissions_def)
  have "p_id p \<noteq> u" if "p \<in> set (permissions d)" "p_name p \<in> set SystemPermissions" for p
    using key_inj [of p_id "permissions d" p old] select_one_Some [OF old] that n wf
    by (auto simp: wf_db_def wf_permissions_def)
  then have "p \<in> set (update_where (\<lambda>x. p_id x = u) f (permissions d))"
    if "p \<in> set (permissions d)" "p_name p \<in> set SystemPermissions" for p f
    using that unfolding set_update_where by (intro bexI [of _ p]) auto
  then show "still_held d (d\<lparr>permissions := update_where (\<lambda>x. p_id x = u)
    (\<lambda>x. x\<lparr>p_name := n, p_updated_at := t\<rparr>) (permissions d)\<rparr>)"
    unfolding still_held_def active_holders_pos by fastforce
qed

lemma DeleteRole_ok:
  assumes wf: "wf_db d" and old: "select_one (\<lambda>r. r_id r = u) (roles d) = Some old"
    and n: "r_name old \<notin> set SystemRoles" and unused: "u \<notin> u_role_id ` set (users d)"
  defines "d' \<equiv> d\<lparr>roles := delete_where (\<lambda>x. r_id x = u) (roles d),
     role_permissions := delete_where (\<lambda>rp. rp_role_id rp = u) (role_permissions d)\<rparr>"
  shows "system_rows d' = system_rows d" and "still_held d d'"
proof -
  have "r_id r \<noteq> u" if "r \<in> set (roles d)" "r_name r \<in> set SystemRoles" for r
    using key_inj [of r_id "roles d" r old] select_one_Some [OF old] that n wf
    by (auto simp: wf_db_def wf_roles_def)
  then show "system_rows d' = system_rows d" by (auto simp: d'_def system_rows_def)
  show "still_held d d'"
    unfolding still_held_def active_holders_pos d'_def using unused by (auto simp: image_iff)
qed

lemma DeletePermission_ok:
  assumes wf: "wf_db d" and old: "select_one (\<lambda>p. p_id p = u) (permissions d) = Some old"
    and n: "p_name old \<notin> set SystemPermissions"
  defines "d' \<equiv> d\<lparr>permissions := delete_where (\<lambda>x. p_id x = u) (permissions d),
     role_permissions := delete_where (\<lambda>rp. rp_permission_id rp = u) (role_permissions d)\<rparr>"
  shows "system_rows d' = system_rows d" and "still_held d d'"
proof -
  have ne: "p_id p \<noteq> u" if "p \<in> set (permissions d)" "p_name p \<in> set SystemPermissions" for p
    using key_inj [of p_id "permissions d" p old] select_one_Some [OF old] that n wf
    by (auto simp: wf_db_def wf_permissions_def)
  then show "system_rows d' = system_rows d" by (auto simp: d'_def system_rows_def)
  show "still_held d d'"
    unfolding still_held_def active_holders_pos d'_def using ne by auto
qed

text \<open>Updates and deletions add no id.\<close>

lemma canonical_updates:
  "canonical_ids e d \<Longrightarrow> (\<And>r. r_id (f r) = r_id r) \<Longrightarrow>
    canonical_ids e (d\<lparr>roles := update_where P f (roles d)\<rparr>)"
  "canonical_ids e d \<Longrightarrow> (\<And>p. p_id (g p) = p_id p) \<Longrightarrow>
    canonical_ids e (d\<lparr>permissions := update_where Q' g (permissions d)\<rparr>)"
  "canonical_ids e d \<Longrightarrow>
    canonical_ids e (d\<lparr>roles := delete_where P (roles d), role_permissions := rps\<rparr>)"
  "canonical_ids e d \<Longrightarrow>
    canonical_ids e (d\<lparr>permissions := delete_where Q' (permissions d), role_permissions := rps\<rparr>)"
  by (auto simp: canonical_ids_def set_update_where)

lemma soundD: "sound e d \<Longrightarrow> wf_db d" "sound e d \<Longrightarrow> canonical_ids e d"
  by (simp_all add: sound_def)

text \<open>The guard around a change: whatever happens between, success means no loss.\<close>

lemma guarded:
  assumes "GuardSystemPermissionHolders e w0 = (Inr check, w1)" and "check e w2 = (Inr u, w3)"
  shows "db w1 = db w0" and "still_held (db w0) (db w2)" and "db w3 = db w2"
  using Guard_run [OF assms(1)] holders_ok assms(2) by auto

end
