(* ===== verification/RoleService.thy ===== *)
theory RoleService
  imports RbacSafety
begin

text \<open>
  \<open>internal/role/service.go\<close>.  \<open>s.Queries\<close> outside \<open>audit.Mutate\<close> is the autocommitting
  connection (\<open>Q\<close>); the function passed to \<open>audit.Mutate\<close> is the definition with the suffix
  \<open>_tx\<close>.
\<close>

definition Role_Get :: "bytes \<Rightarrow> model_role op" where
  "Role_Get ident =
     bindE (checkUUID ident) (\<lambda>_.
     bindE (mapE DB (Q (FindRole ident))) (\<lambda>row.
     bindE (mapE DB (Q (ListRolePermissions ident))) (\<lambda>ps.
     returnE ((Role row)\<lparr>mr_permissions := map (\<lambda>(i, n). \<lparr>np_id = i, np_name = n\<rparr>) ps\<rparr>))))"

definition Role_List :: "model_role list op" where
  "Role_List = bindE (mapE DB (Q ListRoles)) (\<lambda>rows. mapM (\<lambda>row. Role_Get (r_id row)) rows)"

definition role_snapshot :: "model_role \<Rightarrow> json" where
  "role_snapshot r = JObj [(''id'', JStr (mr_id r)), (''name'', JStr (mr_name r)),
     (''createdAt'', JTime (mr_created_at r)), (''updatedAt'', JTime (mr_updated_at r))]"

definition assignment_snapshot :: "bytes \<Rightarrow> bytes list \<Rightarrow> json" where
  "assignment_snapshot name ids =
     JObj [(''name'', JStr name), (''permissionIds'', JArr (map JStr ids))]"

definition Role_Create_tx :: "bytes \<Rightarrow> (model_role \<times> change) op" where
  "Role_Create_tx name =
     bindE (mapE DB (CreateRole (TrimSpace name))) (\<lambda>row.
       let out = Role row in
       bindE (liftE (Capture (mr_id out) None (Some (role_snapshot out)))) (\<lambda>c. returnE (out, c)))"

definition Role_Create :: "policy \<Rightarrow> actor option \<Rightarrow> bytes \<Rightarrow> model_role op" where
  "Role_Create p act name =
     bindE (guardE (Name name 64)) (\<lambda>_.
     bindE (guardE (NotSystemName SystemRoles ''role'' (TrimSpace name))) (\<lambda>_.
     Mutate p act ''CREATE'' (Role_Create_tx name)))"

definition Role_Update_tx :: "actor option \<Rightarrow> bytes \<Rightarrow> bytes option \<Rightarrow> (model_role \<times> change) op" where
  "Role_Update_tx act ident name =
     bindE (mapE DB (LockRole ident)) (\<lambda>old.
     bindE (RoleWithinActor act ident) (\<lambda>_.
       let newName = (case name of None \<Rightarrow> r_name old | Some n \<Rightarrow> TrimSpace n) in
       bindE (if newName \<noteq> r_name old
           then bindE (guardE (NotSystemName SystemRoles ''role'' (r_name old)))
             (\<lambda>_. guardE (NotSystemName SystemRoles ''role'' newName))
           else returnE ()) (\<lambda>_.
       bindE (mapE DB (UpdateRole ident newName)) (\<lambda>row.
       bindE (liftE (Capture ident (Some (role_snapshot (Role old))) (Some (role_snapshot (Role row)))))
         (\<lambda>c. returnE (Role row, c))))))"

definition Role_Update :: "policy \<Rightarrow> actor option \<Rightarrow> bytes \<Rightarrow> bytes option \<Rightarrow> model_role op" where
  "Role_Update p act ident name =
     bindE (checkUUID ident) (\<lambda>_.
     bindE (case name of None \<Rightarrow> returnE () | Some n \<Rightarrow> guardE (Name n 64)) (\<lambda>_.
     Mutate p act ''UPDATE'' (Role_Update_tx act ident name)))"

definition Role_Delete_tx :: "actor option \<Rightarrow> bytes \<Rightarrow> (unit \<times> change) op" where
  "Role_Delete_tx act ident =
     bindE (mapE DB (LockRole ident)) (\<lambda>row.
     bindE (guardE (NotSystemName SystemRoles ''role'' (r_name row))) (\<lambda>_.
     bindE (RoleWithinActor act ident) (\<lambda>_.
     bindE (mapE DB (DeleteRole ident)) (\<lambda>_.
     bindE (liftE (Capture ident (Some (role_snapshot (Role row))) None)) (\<lambda>c. returnE ((), c))))))"

definition Role_Delete :: "policy \<Rightarrow> actor option \<Rightarrow> bytes \<Rightarrow> unit op" where
  "Role_Delete p act ident =
     bindE (checkUUID ident) (\<lambda>_. Mutate p act ''DELETE'' (Role_Delete_tx act ident))"

text \<open>An unknown permission is invalid input, not a missing resource.\<close>

definition unknown_permission :: "goerr \<Rightarrow> goerr" where
  "unknown_permission err = (case as_fault (DB err) of
       Some (Missing, m) \<Rightarrow> New Invalid ''Referenced record does not exist or is in use''
     | _ \<Rightarrow> DB err)"

definition Role_Assign_tx :: "actor option \<Rightarrow> bytes \<Rightarrow> bytes list \<Rightarrow> (unit \<times> change) op" where
  "Role_Assign_tx act ident ids =
     bindE (mapE DB (LockRole ident)) (\<lambda>row.
     bindE (mapE DB (ListRolePermissionIDs ident)) (\<lambda>old.
     bindE (forE ids (\<lambda>v. bindE (mapE unknown_permission (FindPermission v)) (\<lambda>_. returnE ()))) (\<lambda>_.
     bindE (PermissionsWithinActor act old) (\<lambda>_.
     bindE (PermissionsWithinActor act ids) (\<lambda>_.
     bindE GuardSystemPermissionHolders (\<lambda>check.
     bindE (mapE DB (ClearRolePermissions ident)) (\<lambda>_.
     bindE (forE ids (\<lambda>v. mapE DB (AssignRolePermission ident v))) (\<lambda>_.
     bindE check (\<lambda>_.
     bindE (liftE (Capture ident (Some (assignment_snapshot (r_name row) old))
       (Some (assignment_snapshot (r_name row) ids)))) (\<lambda>c. returnE ((), c)))))))))))"

definition Role_Assign :: "policy \<Rightarrow> actor option \<Rightarrow> bytes \<Rightarrow> bytes list \<Rightarrow> model_role op" where
  "Role_Assign p act ident ids =
     bindE (checkUUID ident) (\<lambda>_.
     bindE (guardE (if ids = [] then Some (New Invalid ''permissionIds is required'') else None)) (\<lambda>_.
     bindE (forE ids checkUUID) (\<lambda>_.
     bindE (Mutate p act ''UPDATE'' (Role_Assign_tx act ident (remdups_adj (sort ids)))) (\<lambda>_.
     Role_Get ident))))"

subsection \<open>Constraints\<close>

lemma Role_reads [reads]: "evolves (=) e (Role_Get i)" "evolves (=) e Role_List"
  unfolding Role_List_def Role_Get_def by (intro same.ev_rules reads)+

lemma Role_tx_wf:
  "evolves (keeps wf_db) e (Role_Create_tx n)" "evolves (keeps wf_db) e (Role_Update_tx act i nm)"
  "evolves (keeps wf_db) e (Role_Delete_tx act i)"
  unfolding Role_Create_tx_def Role_Update_tx_def Role_Delete_tx_def
  by (intro keeps.ev_rules writes reads [THEN same_keeps])+

subsection \<open>Assignment\<close>

text \<open>The body of an assignment: the checks read the database the transaction found.\<close>

definition replace_permissions :: "bytes \<Rightarrow> bytes list \<Rightarrow> unit op" where
  "replace_permissions ident ids = bindE (mapE DB (ClearRolePermissions ident))
     (\<lambda>_. forE ids (\<lambda>v. mapE DB (AssignRolePermission ident v)))"

lemma Role_Assign_run:
  assumes "Role_Assign_tx act ident ids e w = (Inr (r, c), w')"
  obtains row i w1 w2 w3 w4 w5 where "uuid_in e ident = Some i"
    and "select_one (\<lambda>r. r_id r = i) (roles (db w)) = Some row"
    and "PermissionsWithinActor act (role_permission_ids (db w) i) e w1 = (Inr (), w2)" "db w1 = db w"
    and "PermissionsWithinActor act ids e w2 = (Inr (), w3)" "db w2 = db w"
    and "replace_permissions ident ids e w4 = (Inr (), w5)" "db w4 = db w" "db w5 = db w'"
    and "still_held (db w) (db w')"
proof -
  let ?find = "\<lambda>v. bindE (mapE unknown_permission (FindPermission v)) (\<lambda>_. returnE ())"
  from assms obtain row w1 old w2 w3 w4 w5 check w6 w7 w8 w9 where
    lock: "LockRole ident e w = (Inr row, w1)" and old: "ListRolePermissionIDs ident e w1 = (Inr old, w2)"
    and find: "forE ids ?find e w2 = (Inr (), w3)"
    and within: "PermissionsWithinActor act old e w3 = (Inr (), w4)"
      "PermissionsWithinActor act ids e w4 = (Inr (), w5)"
    and guard: "GuardSystemPermissionHolders e w5 = (Inr check, w6)"
    and clear: "ClearRolePermissions ident e w6 = (Inr (), w7)"
    and grant: "forE ids (\<lambda>v. mapE DB (AssignRolePermission ident v)) e w7 = (Inr (), w8)"
    and check: "check e w8 = (Inr (), w9)" and w': "w' = w9"
    unfolding Role_Assign_tx_def run_parts by auto
  have "evolves (=) e (forE ids ?find)" by (intro same.ev_rules reads)
  from reads_db [OF this find] have db3: "db w3 = db w2" .
  from lock obtain i where i: "uuid_in e ident = Some i"
      "select_one (\<lambda>r. r_id r = i) (roles (db w)) = Some row" and db1: "db w1 = db w"
    by (auto simp: LockRole_def run_simps)
  from old i(1) db1 have db2: "db w2 = db w" and old_ids: "old = role_permission_ids (db w) i"
    by (auto simp: ListRolePermissionIDs_def run_simps)
  have db4: "db w4 = db w" using reads_db [OF privilege_reads(1) within(1)] db3 db2 by simp
  have db5: "db w5 = db w" using reads_db [OF privilege_reads(1) within(2)] db4 by simp
  have db6: "db w6 = db w" and kept: "still_held (db w) (db w8)" and db9: "db w9 = db w8"
    using guarded [OF guard check] db5 by auto
  have repl: "replace_permissions ident ids e w6 = (Inr (), w8)"
    unfolding replace_permissions_def run_parts using clear grant by blast
  show thesis
    by (rule that [OF i within(1) [unfolded old_ids] _ within(2) db4 repl db6])
       (use db3 db2 db9 w' kept in simp_all)
qed

text \<open>What the replacement leaves: the other roles' rows, and the given permissions for this one.\<close>

lemma grants_run:
  assumes "forE ids (\<lambda>v. mapE DB (AssignRolePermission ident v)) e w = (Inr (), w')"
    and i: "uuid_in e ident = Some i"
  shows "set (role_permissions (db w')) = set (role_permissions (db w))
      \<union> {\<lparr>rp_role_id = i, rp_permission_id = p\<rparr> | p. \<exists>v \<in> set ids. uuid_in e v = Some p}
    \<and> (\<exists>rps. db w' = (db w)\<lparr>role_permissions := rps\<rparr>)"
  using assms(1)
proof (induction ids arbitrary: w)
  case Nil
  then show ?case by (auto simp: run_simps intro: exI [of _ "role_permissions (db w)"])
next
  case (Cons v ids)
  then obtain w1 where one: "AssignRolePermission ident v e w = (Inr (), w1)"
    and rest: "forE ids (\<lambda>v. mapE DB (AssignRolePermission ident v)) e w1 = (Inr (), w')"
    unfolding run_forE run_mapE_Inr by blast
  from one i obtain p where p: "uuid_in e v = Some p"
    and db1: "db w1 = (if \<lparr>rp_role_id = i, rp_permission_id = p\<rparr> \<in> set (role_permissions (db w)) then db w
      else (db w)\<lparr>role_permissions := role_permissions (db w) @ [\<lparr>rp_role_id = i, rp_permission_id = p\<rparr>]\<rparr>)"
    by (auto simp: AssignRolePermission_def run_simps Let_def split: if_splits)
  have set1: "set (role_permissions (db w1)) = insert \<lparr>rp_role_id = i, rp_permission_id = p\<rparr> (set (role_permissions (db w)))"
    using db1 by auto
  obtain rps where w1: "db w1 = (db w)\<lparr>role_permissions := rps\<rparr>"
    using db1 that [of "role_permissions (db w)"] that by (simp split: if_splits)
  have "\<exists>rps. db w' = (db w)\<lparr>role_permissions := rps\<rparr>"
    using Cons.IH [OF rest] by (auto simp: w1)
  then show ?case using Cons.IH [OF rest] p set1 by auto
qed

lemma replace_run:
  assumes "replace_permissions ident ids e w = (Inr (), w')" and i: "uuid_in e ident = Some i"
  shows "set (role_permissions (db w')) = {rp \<in> set (role_permissions (db w)). rp_role_id rp \<noteq> i}
      \<union> {\<lparr>rp_role_id = i, rp_permission_id = p\<rparr> | p. \<exists>v \<in> set ids. uuid_in e v = Some p}"
    and "\<exists>rps. db w' = (db w)\<lparr>role_permissions := rps\<rparr>"
proof -
  from assms obtain w1 where clear: "ClearRolePermissions ident e w = (Inr (), w1)"
    and grant: "forE ids (\<lambda>v. mapE DB (AssignRolePermission ident v)) e w1 = (Inr (), w')"
    unfolding replace_permissions_def run_parts by auto
  from clear i have w1: "db w1 = (db w)\<lparr>role_permissions := delete_where (\<lambda>rp. rp_role_id rp = i) (role_permissions (db w))\<rparr>"
    by (auto simp: ClearRolePermissions_def run_simps)
  note g = grants_run [OF grant i]
  show "set (role_permissions (db w')) = {rp \<in> set (role_permissions (db w)). rp_role_id rp \<noteq> i}
      \<union> {\<lparr>rp_role_id = i, rp_permission_id = p\<rparr> | p. \<exists>v \<in> set ids. uuid_in e v = Some p}"
    using g by (simp add: w1)
  show "\<exists>rps. db w' = (db w)\<lparr>role_permissions := rps\<rparr>" using g by (auto simp: w1)
qed

lemma replace_wf: "evolves (keeps wf_db) e (replace_permissions ident ids)"
  unfolding replace_permissions_def by (intro keeps.ev_rules writes)

lemma system_rows_cong:
  "roles d' = roles d \<Longrightarrow> permissions d' = permissions d \<Longrightarrow> system_rows d' = system_rows d"
  by (simp add: system_rows_def)

subsection \<open>No service of a role breaks the access rules\<close>

lemma Role_Create_step: "evolves (rbac_step e) e (Role_Create p act n)"
  unfolding Role_Create_def
proof (intro rbac.ev_rules rbac.ev_Mutate)
  assume "NotSystemName SystemRoles ''role'' (TrimSpace n) = None"
  then have n: "TrimSpace n \<notin> set SystemRoles" by (auto simp: NotSystemName_def split: if_splits)
  show "achieves (rbac_step e) e (Role_Create_tx n)"
    unfolding Role_Create_tx_def by (intro evolves_achieves rbac.ev_rules CreateRole_step n)
qed

lemma Role_Update_tx_step: "achieves (rbac_step e) e (Role_Update_tx act i n)"
proof (rule achievesI)
  fix w a w'
  assume run: "Role_Update_tx act i n e w = (Inr a, w')"
  let ?new = "\<lambda>old. case n of None \<Rightarrow> r_name old | Some m \<Rightarrow> TrimSpace m"
  let ?check = "\<lambda>old. if ?new old \<noteq> r_name old
           then bindE (guardE (NotSystemName SystemRoles ''role'' (r_name old)))
             (\<lambda>_. guardE (NotSystemName SystemRoles ''role'' (?new old)))
           else returnE ()"
  obtain old w1 w2 w3 row where lock: "LockRole i e w = (Inr old, w1)"
    and within: "RoleWithinActor act i e w1 = (Inr (), w2)"
    and check: "?check old e w2 = (Inr (), w3)"
    and upd: "UpdateRole i (?new old) e w3 = (Inr row, w')"
    using run unfolding Role_Update_tx_def Let_def run_parts by blast
  define new where "new = ?new old"
  from check have new: "new = r_name old \<or> new \<notin> set SystemRoles \<and> r_name old \<notin> set SystemRoles"
    and db3: "w3 = w2"
    unfolding new_def by (auto simp: run_simps NotSystemName_def split: if_splits)
  from lock have sel: "\<exists>u. uuid_in e i = Some u \<and> select_one (\<lambda>r. r_id r = u) (roles (db w)) = Some old"
    and db1: "db w1 = db w" by (auto simp: LockRole_def run_simps)
  have db2: "db w2 = db w" using reads_db [OF privilege_reads(2) within] db1 by simp
  from upd [folded new_def] sel db2 db3 obtain u t where u: "select_one (\<lambda>r. r_id r = u) (roles (db w)) = Some old"
    and w': "db w' = (db w)\<lparr>roles := update_where (\<lambda>x. r_id x = u)
      (\<lambda>x. x\<lparr>r_name := new, r_updated_at := t\<rparr>) (roles (db w))\<rparr>"
    by (auto simp: UpdateRole_def run_simps)
  show "rbac_step e (db w) (db w')"
    using UpdateRole_ok [OF _ u new, of t] w'
    by (intro rbac_stepI [OF Role_tx_wf(2) run]) (simp add: still_held_same soundD canonical_updates)
qed

lemma Role_Update_step: "evolves (rbac_step e) e (Role_Update p act i n)"
  unfolding Role_Update_def
  by (intro rbac.ev_rules rbac.ev_Mutate Role_Update_tx_step rbac_same [OF checkUUID_reads])

lemma Role_Delete_tx_step: "achieves (rbac_step e) e (Role_Delete_tx act i)"
proof (rule achievesI)
  fix w a w'
  assume run: "Role_Delete_tx act i e w = (Inr a, w')"
  then obtain old w1 w2 w3 where lock: "LockRole i e w = (Inr old, w1)"
    and name: "NotSystemName SystemRoles ''role'' (r_name old) = None"
    and within: "RoleWithinActor act i e w1 = (Inr (), w2)"
    and del: "DeleteRole i e w2 = (Inr (), w')"
    unfolding Role_Delete_tx_def run_parts by auto
  from lock obtain u where u: "uuid_in e i = Some u" "select_one (\<lambda>r. r_id r = u) (roles (db w)) = Some old"
    and db1: "db w1 = db w" by (auto simp: LockRole_def run_simps)
  have db2: "db w2 = db w" using reads_db [OF privilege_reads(2) within] db1 by simp
  from del u(1) db2 have unused: "u \<in> r_id ` set (roles (db w)) \<longrightarrow> u \<notin> u_role_id ` set (users (db w))"
    and w': "db w' = (db w)\<lparr>roles := delete_where (\<lambda>x. r_id x = u) (roles (db w)),
       role_permissions := delete_where (\<lambda>rp. rp_role_id rp = u) (role_permissions (db w))\<rparr>"
    by (auto simp: DeleteRole_def run_simps)
  have "r_name old \<notin> set SystemRoles" using name by (auto simp: NotSystemName_def split: if_splits)
  moreover have "u \<notin> u_role_id ` set (users (db w))"
    using unused select_one_Some [OF u(2)] by auto
  ultimately show "rbac_step e (db w) (db w')"
    using DeleteRole_ok [OF _ u(2)] w' by (intro rbac_stepI [OF Role_tx_wf(3) run]) (simp add: soundD canonical_updates)
qed

lemma Role_Delete_step: "evolves (rbac_step e) e (Role_Delete p act i)"
  unfolding Role_Delete_def
  by (intro rbac.ev_rules rbac.ev_Mutate Role_Delete_tx_step rbac_same [OF checkUUID_reads])

lemma Role_Assign_tx_step: "achieves (rbac_step e) e (Role_Assign_tx act i ids)"
proof (rule achievesI)
  fix w a w'
  assume run: "Role_Assign_tx act i ids e w = (Inr a, w')"
  obtain r c where a: "a = (r, c)" by (cases a)
  obtain u w4 w5 where u: "uuid_in e i = Some u" and held: "still_held (db w) (db w')"
    and repl: "replace_permissions i ids e w4 = (Inr (), w5)" and db: "db w4 = db w" "db w5 = db w'"
    using Role_Assign_run [OF run [unfolded a]] by metis
  have "wf_db (db w')" if "wf_db (db w)"
    using keeps_run [OF replace_wf repl] db that by simp
  moreover obtain rps where w': "db w' = (db w)\<lparr>role_permissions := rps\<rparr>"
    using replace_run(2) [OF repl u] db by auto
  moreover have "system_rows (db w') = system_rows (db w)"
    by (rule system_rows_cong) (simp_all add: w')
  ultimately show "rbac_step e (db w) (db w')"
    using held by (simp add: rbac_step_def sound_def canonical_ids_def)
qed

lemma Role_Assign_step: "evolves (rbac_step e) e (Role_Assign p act i ids)"
  unfolding Role_Assign_def
  by (intro rbac.ev_rules rbac.ev_Mutate Role_Assign_tx_step rbac_same reads)

end
