(* ===== verification/UserService.thy ===== *)
theory UserService
  imports RoleService
begin

text \<open>
  \<open>internal/user/service.go\<close>.  A page and a limit are Go's \<open>int\<close>, 64 bits; the product of
  \<open>page - 1\<close> and \<open>limit\<close> is computed with the wrap-around of \<open>int64\<close> and narrowed to \<open>int32\<close>.
\<close>

definition int64 :: "int \<Rightarrow> int" where
  "int64 x = (x + 2 ^ 63) mod 2 ^ 64 - 2 ^ 63"

definition int32 :: "int \<Rightarrow> int" where
  "int32 x = (x + 2 ^ 31) mod 2 ^ 32 - 2 ^ 31"

definition User_enrich :: "model_user \<Rightarrow> model_user op" where
  "User_enrich out =
     bindE (Role_Get (mu_role_id out)) (\<lambda>r.
       returnE (out\<lparr>mu_role := Some \<lparr>ur_id = mr_id r, ur_name = mr_name r,
         ur_permissions = mr_permissions r\<rparr>\<rparr>))"

definition User_Get :: "bytes \<Rightarrow> model_user op" where
  "User_Get ident =
     bindE (checkUUID ident) (\<lambda>_.
     bindE (mapE DB (Q (FindUser ident))) (\<lambda>row. User_enrich (User row)))"

text \<open>The checks and defaults of the list parameters.\<close>

definition list_query :: "int \<Rightarrow> int \<Rightarrow> bytes \<Rightarrow> bytes \<Rightarrow> goerr + bytes \<times> bytes" where
  "list_query page limit sortBy orderBy =
    (if page < 1 \<or> limit < 1 \<or> limit > 100 \<or> int64 (int64 (page - 1) * limit) > 2147483647
     then Inl (New Invalid ''Invalid pagination'')
     else let sortBy = (if sortBy = [] \<or> sortBy = ''created_at'' then ''createdAt'' else sortBy) in
       if sortBy \<notin> {''createdAt'', ''updatedAt'', ''email''} then Inl (New Invalid ''Invalid sortBy'')
       else let orderBy = (if orderBy = [] then ''asc'' else orderBy) in
         if orderBy \<noteq> ''asc'' \<and> orderBy \<noteq> ''desc'' then Inl (New Invalid ''Invalid orderBy'')
         else Inr (sortBy, orderBy))"

definition page_of :: "int \<Rightarrow> int \<Rightarrow> int \<Rightarrow> pagination" where
  "page_of page limit items = (let pages = (items + limit - 1) div limit in
     \<lparr>pg_page = page, pg_limit = limit, pg_total_items = items, pg_total_pages = pages,
      pg_has_next = page < pages, pg_has_prev = page > 1\<rparr>)"

definition User_List ::
  "int \<Rightarrow> int \<Rightarrow> bytes \<Rightarrow> bytes \<Rightarrow> bytes \<Rightarrow> (model_user list \<times> pagination) op" where
  "User_List page limit search sortBy orderBy =
     bindE (liftE (list_query page limit sortBy orderBy)) (\<lambda>(sort_by, direction).
     bindE (mapE DB (Q (CountUsers search))) (\<lambda>count.
     bindE (mapE DB (Q (ListUsers search sort_by direction
       (int32 (int64 (int64 (page - 1) * limit))) (int32 limit)))) (\<lambda>rows.
     bindE (mapM (\<lambda>r. User_enrich (User r)) rows) (\<lambda>out.
     returnE (out, page_of page limit (int count))))))"

definition password_check :: "bytes \<Rightarrow> goerr option" where
  "password_check password = (if length password < 6 \<or> length password > 72
     then Some (New Invalid ''Password must contain 6-72 bytes'') else None)"

definition User_Create_tx ::
  "actor option \<Rightarrow> bytes \<Rightarrow> bytes \<Rightarrow> bytes \<Rightarrow> (model_user \<times> change) op" where
  "User_Create_tx act email hash roleID =
     bindE (RoleWithinActor act roleID) (\<lambda>_.
     bindE (mapE DB (CreateUser email hash roleID)) (\<lambda>row.
       let out = User row in
       bindE (liftE (Capture (mu_id out) None (Some (model_user_json out)))) (\<lambda>c. returnE (out, c))))"

definition User_Create :: "policy \<Rightarrow> actor option \<Rightarrow> bytes \<Rightarrow> bytes \<Rightarrow> bytes \<Rightarrow> model_user op" where
  "User_Create p act email password roleID =
     bindE (guardE (Email email)) (\<lambda>_.
     bindE (checkUUID roleID) (\<lambda>_.
     bindE (guardE (password_check password)) (\<lambda>_.
     bindE (mapE DB (bcrypt_Generate password)) (\<lambda>hash.
     bindE (Mutate p act ''CREATE'' (User_Create_tx act email hash roleID)) (\<lambda>out.
     User_Get (mu_id out))))))"

definition role_changed :: "bytes option \<Rightarrow> user_row \<Rightarrow> bool" where
  "role_changed roleID old \<longleftrightarrow> (case roleID of None \<Rightarrow> False | Some r \<Rightarrow> r \<noteq> u_role_id old)"

definition User_Update_tx ::
  "actor option \<Rightarrow> bytes \<Rightarrow> bytes option \<Rightarrow> bytes option \<Rightarrow> (model_user \<times> change) op" where
  "User_Update_tx act ident email roleID =
     bindE (mapE DB (LockUser ident)) (\<lambda>old.
     bindE (RoleWithinActor act (u_role_id old)) (\<lambda>_.
     bindE (case roleID of None \<Rightarrow> returnE () | Some r \<Rightarrow> RoleWithinActor act r) (\<lambda>_.
       let roleChanged = role_changed roleID old in
       bindE (if roleChanged then GuardSystemPermissionHolders else returnE (returnE ())) (\<lambda>check.
       bindE (mapE DB (UpdateUser ident email roleID)) (\<lambda>row.
       bindE check (\<lambda>_.
       bindE (if roleChanged then RevokeUserSessions ident else returnE ()) (\<lambda>_.
       bindE (liftE (Capture ident (Some (model_user_json (User old)))
         (Some (model_user_json (User row))))) (\<lambda>c. returnE (User row, c)))))))))"

definition User_Update ::
  "policy \<Rightarrow> actor option \<Rightarrow> bytes \<Rightarrow> bytes option \<Rightarrow> bytes option \<Rightarrow> model_user op" where
  "User_Update p act ident email roleID =
     bindE (checkUUID ident) (\<lambda>_.
     bindE (guardE (if email = None \<and> roleID = None
       then Some (New Invalid ''No fields to update'') else None)) (\<lambda>_.
     bindE (case email of None \<Rightarrow> returnE () | Some m \<Rightarrow> guardE (Email m)) (\<lambda>_.
     bindE (case roleID of None \<Rightarrow> returnE () | Some r \<Rightarrow> checkUUID r) (\<lambda>_.
     bindE (Mutate p act ''UPDATE'' (User_Update_tx act ident email roleID)) (\<lambda>_.
     User_Get ident)))))"

definition User_Delete_tx :: "actor option \<Rightarrow> bytes \<Rightarrow> (unit \<times> change) op" where
  "User_Delete_tx act ident =
     bindE (mapE DB (LockUser ident)) (\<lambda>row.
     bindE (RoleWithinActor act (u_role_id row)) (\<lambda>_.
     bindE GuardSystemPermissionHolders (\<lambda>check.
     bindE (mapE DB (SoftDeleteUser ident)) (\<lambda>_.
     bindE check (\<lambda>_.
     bindE (RevokeUserSessions ident) (\<lambda>_.
     bindE (liftE (Capture ident (Some (model_user_json (User row))) None))
       (\<lambda>c. returnE ((), c))))))))"

definition User_Delete :: "policy \<Rightarrow> actor \<Rightarrow> bytes \<Rightarrow> unit op" where
  "User_Delete p act ident =
     bindE (checkUUID ident) (\<lambda>_.
     bindE (guardE (if a_ID act = ident
       then Some (New Forbidden ''You cannot delete your own account.'') else None)) (\<lambda>_.
     Mutate p (Some act) ''DELETE'' (User_Delete_tx (Some act) ident)))"

subsection \<open>No service of a user breaks the access rules\<close>

lemma User_reads [reads]:
  "evolves (=) e (User_enrich u)" "evolves (=) e (User_Get i)" "evolves (=) e (User_List a b c d' f)"
  unfolding User_Get_def User_List_def User_enrich_def by (intro same.ev_rules reads)+

lemma User_Create_step: "evolves (rbac_step e) e (User_Create p act m pw r)"
  unfolding User_Create_def User_Create_tx_def
  by (intro rbac.ev_rules rbac.ev_Mutate CreateUser_step rbac_same reads evolves_achieves)

lemma UpdateUser_same_role:
  assumes wf: "wf_db d"
    and old: "select_one (\<lambda>u. u_id u = i \<and> u_deleted_at u = None) (users d) = Some old"
    and role: "role = None \<or> role = Some (u_role_id old)"
  shows "still_held d (d\<lparr>users := update_where (\<lambda>x. u_id x = i) (set_user email role t) (users d)\<rparr>)"
proof -
  have uniq: "u = old" if "u \<in> set (users d)" "u_id u = i" for u
    using key_inj [of u_id "users d" u old] select_one_Some [OF old] that wf
    by (auto simp: wf_db_def wf_users_def)
  define g where "g = (\<lambda>x. if u_id x = i then set_user email role t x else x)"
  have g: "u_role_id (g u) = u_role_id u \<and> u_deleted_at (g u) = u_deleted_at u" if "u \<in> set (users d)" for u
    using uniq [OF that] role by (auto simp: g_def set_user_def)
  have "update_where (\<lambda>x. u_id x = i) (set_user email role t) (users d) = map g (users d)"
    by (simp add: update_where_def g_def)
  then show ?thesis
    unfolding still_held_def active_holders_pos using g by fastforce
qed

text \<open>A write of users that keeps the permissions held, followed by the end of the sessions.\<close>

lemma users_step:
  assumes "evolves (keeps wf_db) e m" and "m e w = (Inr a, w1)"
    and "\<exists>us. db w1 = (db w)\<lparr>users := us\<rparr>" and "sound e (db w) \<Longrightarrow> still_held (db w) (db w1)"
  shows "rbac_step e (db w) (db w1)"
  using assms(3,4)
  by (intro rbac_stepI [OF assms(1,2)]) (auto simp: sound_def canonical_ids_def system_rows_def)

lemma User_Update_tx_step: "achieves (rbac_step e) e (User_Update_tx act i m r)"
proof (rule achievesI)
  fix w a w'
  assume run: "User_Update_tx act i m r e w = (Inr a, w')"
  obtain old w1 w2 w3 check w4 row w5 w6 where lock: "LockUser i e w = (Inr old, w1)"
    and within1: "RoleWithinActor act (u_role_id old) e w1 = (Inr (), w2)"
    and within2: "(case r of None \<Rightarrow> returnE () | Some x \<Rightarrow> RoleWithinActor act x) e w2 = (Inr (), w3)"
    and guard: "(if role_changed r old then GuardSystemPermissionHolders else returnE (returnE ())) e w3 = (Inr check, w4)"
    and upd: "UpdateUser i m r e w4 = (Inr row, w5)" and check: "check e w5 = (Inr (), w6)"
    and revoke: "(if role_changed r old then RevokeUserSessions i else returnE ()) e w6 = (Inr (), w')"
    using run unfolding User_Update_tx_def Let_def run_parts by blast
  from lock obtain u where u: "uuid_in e i = Some u"
      "select_one (\<lambda>x. u_id x = u \<and> u_deleted_at x = None) (users (db w)) = Some old"
    and db1: "db w1 = db w" by (auto simp: LockUser_def run_simps)
  have "evolves (=) e (case r of None \<Rightarrow> returnE () | Some x \<Rightarrow> RoleWithinActor act x)"
    by (intro same.ev_rules reads)
  then have "db w3 = db w2" using within2 by (rule reads_db)
  then have db3: "db w3 = db w" using reads_db [OF privilege_reads(2) within1] db1 by simp
  have db4: "db w4 = db w" and db6: "db w6 = db w5"
    using guard check db3 guarded by (auto simp: run_simps split: if_splits)
  from upd u(1) db4 obtain role t where
    role: "(r = None \<and> role = None) \<or> (\<exists>x y. r = Some x \<and> uuid_in e x = Some y \<and> role = Some y)"
    and w5: "db w5 = (db w)\<lparr>users := update_where (\<lambda>x. u_id x = u) (set_user m role t) (users (db w))\<rparr>"
    by (auto simp: UpdateUser_def run_simps Let_def split: option.splits)
  have "still_held (db w) (db w5)" if s: "sound e (db w)"
  proof (cases "role_changed r old")
    case True
    then show ?thesis using guard check guarded(2) db3 by fastforce
  next
    case False
    have "u_role_id old \<in> r_id ` set (roles (db w))"
      using soundD(1) [OF s] select_one_Some [OF u(2)] by (auto simp: wf_db_def wf_users_def)
    then have "uuid_in e (u_role_id old) = Some (u_role_id old)"
      using soundD(2) [OF s] by (auto simp: canonical_ids_def)
    then have "role = None \<or> role = Some (u_role_id old)"
      using False role by (auto simp: role_changed_def)
    then show ?thesis unfolding w5 by (rule UpdateUser_same_role [OF soundD(1) [OF s] u(2)])
  qed
  then have "rbac_step e (db w4) (db w5)"
    using w5 db4 by (intro users_step [OF UpdateUser_wf upd]) auto
  moreover have "rbac_step e (db w6) (db w')"
    using revoke RevokeUserSessions_step [THEN evolvesD]
    by (auto simp: run_simps rbac.refl split: if_splits)
  ultimately show "rbac_step e (db w) (db w')" using db4 db6 rbac.trans by metis
qed

lemma User_Update_step: "evolves (rbac_step e) e (User_Update p act i m r)"
  unfolding User_Update_def
  by (intro rbac.ev_rules rbac.ev_Mutate User_Update_tx_step rbac_same reads)

lemma User_Delete_tx_step: "achieves (rbac_step e) e (User_Delete_tx act i)"
proof (rule achievesI)
  fix w a w'
  assume run: "User_Delete_tx act i e w = (Inr a, w')"
  then obtain old w1 w2 check w3 w4 w5 where lock: "LockUser i e w = (Inr old, w1)"
    and within: "RoleWithinActor act (u_role_id old) e w1 = (Inr (), w2)"
    and guard: "GuardSystemPermissionHolders e w2 = (Inr check, w3)"
    and del: "SoftDeleteUser i e w3 = (Inr (), w4)" and check: "check e w4 = (Inr (), w5)"
    and revoke: "RevokeUserSessions i e w5 = (Inr (), w')"
    unfolding User_Delete_tx_def run_parts by blast
  have "evolves (=) e (LockUser i)" by (rule reads)
  then have "db w1 = db w" using lock by (rule reads_db)
  then have db2: "db w2 = db w" using reads_db [OF privilege_reads(2) within] by simp
  have "\<exists>us. db w4 = (db w3)\<lparr>users := us\<rparr>" using del by (auto simp: SoftDeleteUser_def run_simps)
  then have "rbac_step e (db w3) (db w4)"
    using guarded [OF guard check] by (intro users_step [OF SoftDeleteUser_wf del]) auto
  moreover have "rbac_step e (db w5) (db w')" using RevokeUserSessions_step revoke by (rule evolvesD)
  ultimately show "rbac_step e (db w) (db w')"
    using guarded [OF guard check] db2 rbac.trans by metis
qed

lemma User_Delete_step: "evolves (rbac_step e) e (User_Delete p act i)"
  unfolding User_Delete_def
  by (intro rbac.ev_rules rbac.ev_Mutate User_Delete_tx_step rbac_same reads)

end
