(* ===== verification/AuthService.thy ===== *)
theory AuthService
  imports UserService
begin

text \<open>
  \<open>internal/auth/service.go\<close>: registration, login, the rotation of refresh tokens within a
  family, logout, and the checks of an access token.  The variables a transaction's closure
  assigns (\<open>pair\<close>, \<open>actor\<close>, \<open>invalid\<close>, \<open>mutated\<close>, \<open>change\<close>, \<open>behavior\<close>) are the fields
  of the value its body returns.  The comparison with a dummy hash for an unknown e-mail
  address has no effect but time and is not modelled.
\<close>

record auth_service =
  s_Secret :: bytes
  s_Issuer :: bytes
  s_Audience :: bytes
  s_RefreshIdle :: int
  s_RefreshAbsolute :: int

definition accessTokenTTL :: int where
  "accessTokenTTL = 15 * 60 * 1000"

definition idleExpiry :: "auth_service \<Rightarrow> instant \<Rightarrow> instant \<Rightarrow> instant" where
  "idleExpiry s now family =
    (let idle = now + s_RefreshIdle s in if idle < family then idle else family)"

definition Register_tx :: "bytes \<Rightarrow> bytes \<Rightarrow> (auth_user \<times> change) op" where
  "Register_tx email hash =
     bindE (mapE DB (FindRoleByName ''user'')) (\<lambda>r.
     bindE (mapE DB (CreateUser email hash (r_id r))) (\<lambda>row.
       let out = AuthUser row in
       bindE (liftE (Capture (au_id out) None (Some (auth_user_json out)))) (\<lambda>c. returnE (out, c))))"

definition Register :: "policy \<Rightarrow> bytes \<Rightarrow> bytes \<Rightarrow> auth_user op" where
  "Register p email password =
     bindE (guardE (Email email)) (\<lambda>_.
     bindE (guardE (password_check password)) (\<lambda>_.
     bindE (mapE DB (bcrypt_Generate password)) (\<lambda>hash.
     Mutate p None ''CREATE'' (Register_tx email hash))))"

definition token_claims :: "auth_service \<Rightarrow> bytes \<Rightarrow> bytes \<Rightarrow> bytes \<Rightarrow> instant \<Rightarrow> claims" where
  "token_claims s userID email roleID now = \<lparr>cl_ID = userID, cl_Email = email, cl_RoleID = roleID,
     cl_TokenUse = ''access'', cl_Issuer = s_Issuer s,
     cl_Audience = (if s_Audience s \<noteq> [] then [s_Audience s] else []),
     cl_IssuedAt = now, cl_ExpiresAt = now + accessTokenTTL\<rparr>"

definition issueTokenPair ::
  "auth_service \<Rightarrow> bytes \<Rightarrow> bytes \<Rightarrow> bytes \<Rightarrow> bytes \<Rightarrow> instant \<Rightarrow> (token_pair \<times> bytes \<times> bytes) op" where
  "issueTokenPair s userID email roleID familyID refreshExpiresAt =
     bindE askE (\<lambda>e.
     bindE (if familyID = [] then NewString else returnE familyID) (\<lambda>family.
     bindE rand_Read (\<lambda>refreshBytes.
       let refreshToken = base64url e refreshBytes; hash = sha256 e refreshToken in
       bindE time_Now (\<lambda>now.
       bindE (liftE (jwt_sign e (s_Secret s) (token_claims s userID email roleID now))) (\<lambda>accessToken.
       returnE (\<lparr>tp_access_token = accessToken, tp_refresh_token = refreshToken,
         tp_access_expires_in = accessTokenTTL div 1000,
         tp_refresh_expires_at = refreshExpiresAt\<rparr>, hash, family))))))"

definition Login_tx :: "auth_service \<Rightarrow> user_row \<Rightarrow> (token_pair \<times> change) op" where
  "Login_tx s row =
     bindE time_Now (\<lambda>now.
       let familyExpires = now + s_RefreshAbsolute s in
       bindE (issueTokenPair s (u_id row) (u_email row) (u_role_id row) [] (idleExpiry s now familyExpires))
         (\<lambda>(pair, tokenHash, familyID).
       bindE (CreateRefreshFamily familyID (u_id row) familyExpires) (\<lambda>_.
       bindE (CreateAuthRefreshToken familyID (u_id row) tokenHash (tp_refresh_expires_at pair)) (\<lambda>_.
       returnE (pair, \<lparr>ch_EntityID = u_id row, ch_Before = None, ch_After = None\<rparr>)))))"

definition actor_of :: "user_row \<Rightarrow> actor" where
  "actor_of u = \<lparr>a_ID = u_id u, a_Email = u_email u, a_RoleID = u_role_id u, a_ExpiresAt = zero_time\<rparr>"

definition Login :: "auth_service \<Rightarrow> policy \<Rightarrow> bytes \<Rightarrow> bytes \<Rightarrow> token_pair op" where
  "Login s p email password =
     bindE askE (\<lambda>e.
     bindE (mapE (\<lambda>x. if \<not> Is x NoRows then DB x else New Unauthorized ''Invalid credentials'')
       (Q (FindActiveUserByEmail (ToLower email)))) (\<lambda>row.
     bindE (guardE (if bcrypt_matches e (u_password row) password then None
       else Some (New Unauthorized ''Invalid credentials''))) (\<lambda>_.
     Mutate p (Some (actor_of row)) ''LOGIN'' (Login_tx s row))))"

subsection \<open>Refresh\<close>

definition session_snapshot :: "instant \<Rightarrow> bool \<Rightarrow> json" where
  "session_snapshot expires revoked =
     JObj [(''expiresAt'', JTime expires), (''revoked'', JBool revoked)]"

record session_result =
  sr_pair :: token_pair
  sr_actor :: "actor option"
  sr_invalid :: bool
  sr_mutated :: bool
  sr_behavior :: bytes
  sr_change :: change

definition zero_pair :: token_pair where
  "zero_pair = \<lparr>tp_access_token = [], tp_refresh_token = [], tp_access_expires_in = 0,
     tp_refresh_expires_at = zero_time\<rparr>"

definition dead :: "refresh_family \<Rightarrow> refresh_token_row \<Rightarrow> user_row option \<Rightarrow> instant \<Rightarrow> bool" where
  "dead family stored user now \<longleftrightarrow> m_revoked_at family \<noteq> None \<or> \<not> m_expires_at family > now
     \<or> t_revoked_at stored \<noteq> None \<or> \<not> t_expires_at stored > now \<or> user = None"

definition revoke_family :: "refresh_family \<Rightarrow> unit op" where
  "revoke_family family = bindE (RevokeRefreshFamilyRecord (m_id family))
     (\<lambda>_. RevokeAuthRefreshFamily (m_id family))"

definition rotate ::
  "auth_service \<Rightarrow> refresh_family \<Rightarrow> refresh_token_row \<Rightarrow> user_row \<Rightarrow> instant \<Rightarrow> token_pair op" where
  "rotate s family stored user now =
     (let expires = idleExpiry s now (m_expires_at family) in
      bindE (issueTokenPair s (u_id user) (u_email user) (u_role_id user) (m_id family) expires)
        (\<lambda>(pair, tokenHash, _).
      bindE (RevokeAuthRefreshToken (t_id stored)) (\<lambda>_.
      bindE (CreateAuthRefreshToken (m_id family) (u_id user) tokenHash expires) (\<lambda>_.
      returnE pair))))"

definition Refresh_tx :: "auth_service \<Rightarrow> policy \<Rightarrow> bytes \<Rightarrow> bytes \<Rightarrow> session_result op" where
  "Refresh_tx s p hash familyID =
     bindE (optional_row (LockRefreshFamily familyID)) (\<lambda>locked. case locked of
       None \<Rightarrow> returnE \<lparr>sr_pair = zero_pair, sr_actor = None, sr_invalid = True, sr_mutated = False,
         sr_behavior = ''TOKEN_REFRESH'', sr_change = no_change\<rparr>
     | Some family \<Rightarrow>
       bindE (FindAuthRefreshTokenByHash hash) (\<lambda>stored.
       bindE (optional_row (FindActiveUserByID (m_user_id family))) (\<lambda>user.
       bindE time_Now (\<lambda>now.
         let act = map_option actor_of user; revoked = m_revoked_at family \<noteq> None;
             bad = dead family stored user now;
             behavior = (if bad then ''REFRESH_REPLAY'' else ''TOKEN_REFRESH'') in
         bindE (if bad then bindE (revoke_family family) (\<lambda>_. returnE zero_pair)
            else rotate s family stored (the user) now) (\<lambda>pair.
         bindE (liftE (Capture (m_id family) (Some (session_snapshot (m_expires_at family) revoked))
           (Some (session_snapshot (m_expires_at family) (bad \<or> revoked))))) (\<lambda>c.
         bindE (if pol_Mode p = Required then Write p act behavior c else returnE ()) (\<lambda>_.
         returnE \<lparr>sr_pair = pair, sr_actor = act, sr_invalid = bad, sr_mutated = True,
           sr_behavior = behavior, sr_change = c\<rparr>)))))))"

definition optionalSessionAudit :: "policy \<Rightarrow> actor option \<Rightarrow> bytes \<Rightarrow> change \<Rightarrow> unit op" where
  "optionalSessionAudit p act behavior c =
     bindE (attempt (Q (Write p act behavior c))) (\<lambda>_. returnE ())"

text \<open>The two halves of \<open>Refresh\<close>: the lookup outside the transaction, and the rest.\<close>

definition Refresh_lookup :: "bytes \<Rightarrow> bytes op" where
  "Refresh_lookup raw = bindE askE (\<lambda>e.
     bindE (mapE (\<lambda>x. if Is x NoRows then New Unauthorized ''Invalid refresh token'' else DB x)
       (Q (LookupAuthRefreshToken (sha256 e raw)))) (\<lambda>lookup. returnE (t_family_id lookup)))"

definition Refresh_finish :: "auth_service \<Rightarrow> policy \<Rightarrow> bytes \<Rightarrow> bytes \<Rightarrow> token_pair op" where
  "Refresh_finish s p raw familyID = bindE askE (\<lambda>e.
     bindE (mapE DB (Transaction (Refresh_tx s p (sha256 e raw) familyID))) (\<lambda>r.
     bindE (if sr_mutated r \<and> pol_Mode p = Optional
         then optionalSessionAudit p (sr_actor r) (sr_behavior r) (sr_change r) else returnE ()) (\<lambda>_.
     if sr_invalid r then failE (New Unauthorized ''Invalid or expired refresh token'')
     else returnE (sr_pair r))))"

definition Refresh :: "auth_service \<Rightarrow> policy \<Rightarrow> bytes \<Rightarrow> token_pair op" where
  "Refresh s p raw = bindE (Refresh_lookup raw) (\<lambda>familyID. Refresh_finish s p raw familyID)"

subsection \<open>Logout\<close>

definition Logout_tx :: "policy \<Rightarrow> bytes \<Rightarrow> (bool \<times> actor option \<times> change) op" where
  "Logout_tx p familyID =
     bindE (optional_row (LockRefreshFamily familyID)) (\<lambda>locked. case locked of
       None \<Rightarrow> returnE (False, None, no_change)
     | Some family \<Rightarrow>
       if m_revoked_at family \<noteq> None then returnE (False, None, no_change)
       else bindE (optional_row (FindActiveUserByID (m_user_id family))) (\<lambda>user.
         let act = map_option actor_of user in
         bindE (revoke_family family) (\<lambda>_.
         bindE (liftE (Capture (m_id family) (Some (session_snapshot (m_expires_at family) False))
           (Some (session_snapshot (m_expires_at family) True)))) (\<lambda>c.
         bindE (if pol_Mode p = Required then Write p act ''LOGOUT'' c else returnE ()) (\<lambda>_.
         returnE (True, act, c))))))"

definition Logout :: "policy \<Rightarrow> bytes \<Rightarrow> unit op" where
  "Logout p raw = bindE askE (\<lambda>e.
     bindE (mapE DB (optional_row (Q (LookupAuthRefreshToken (sha256 e raw))))) (\<lambda>lookup.
     case lookup of None \<Rightarrow> returnE ()
     | Some t \<Rightarrow> bindE (mapE DB (Transaction (Logout_tx p (t_family_id t)))) (\<lambda>(changed, act, c).
         if changed \<and> pol_Mode p = Optional then optionalSessionAudit p act ''LOGOUT'' c
         else returnE ())))"

subsection \<open>Access tokens\<close>

definition VerifyAccessToken :: "auth_service \<Rightarrow> bytes \<Rightarrow> claims op" where
  "VerifyAccessToken s raw =
    (let deny = failE (New Unauthorized ''Unauthorized'') in
     if \<not> HasPrefix raw ''Bearer '' then deny
     else bindE askE (\<lambda>e. bindE time_Now (\<lambda>now.
       case jwt_parse e (s_Secret s) (s_Issuer s) (s_Audience s) now (TrimPrefix raw ''Bearer '') of
         None \<Rightarrow> deny
       | Some c \<Rightarrow> if cl_TokenUse c \<noteq> ''access'' \<or> UUID (uuid_parses e) (cl_ID c) \<noteq> None then deny
           else returnE c)))"

definition LoadActor :: "claims \<Rightarrow> actor op" where
  "LoadActor c =
     bindE (mapE (\<lambda>x. if Is x NoRows then New Unauthorized ''Unauthorized'' else DB x)
       (Q (FindActiveUserByID (cl_ID c)))) (\<lambda>row.
     returnE ((actor_of row)\<lparr>a_ExpiresAt := cl_ExpiresAt c\<rparr>))"

definition Authenticate :: "auth_service \<Rightarrow> bytes \<Rightarrow> actor op" where
  "Authenticate s raw = bindE (VerifyAccessToken s raw) (\<lambda>c. LoadActor c)"

definition Authorize :: "actor \<Rightarrow> bytes \<Rightarrow> unit op" where
  "Authorize act permission =
    (if permission = [] then returnE ()
     else bindE (mapE DB (Q (UserHasPermission (a_ID act) permission))) (\<lambda>allowed.
       guardE (if allowed then None else Some (New Forbidden ''Forbidden''))))"

definition Me :: "actor \<Rightarrow> auth_user op" where
  "Me act = bindE (mapE DB (Q (FindUser (a_ID act)))) (\<lambda>r. returnE (AuthUser r))"

end
