(* ===== verification/PermissionService.thy ===== *)
theory PermissionService
  imports RbacSafety
begin

text \<open>\<open>internal/permission/service.go\<close>.\<close>

definition Permission_Get :: "bytes \<Rightarrow> model_permission op" where
  "Permission_Get ident =
     bindE (checkUUID ident) (\<lambda>_.
     bindE (mapE DB (Q (FindPermission ident))) (\<lambda>row. returnE (Permission row)))"

definition Permission_List :: "model_permission list op" where
  "Permission_List = bindE (mapE DB (Q ListPermissions)) (\<lambda>rows. returnE (map Permission rows))"

definition Permission_Create_tx :: "bytes \<Rightarrow> (model_permission \<times> change) op" where
  "Permission_Create_tx name =
     bindE (mapE DB (CreatePermission (TrimSpace name))) (\<lambda>row.
     bindE (GrantToPermissionManagers (p_id row)) (\<lambda>_.
       let out = Permission row in
       bindE (liftE (Capture (mp_id out) None (Some (model_permission_json out))))
         (\<lambda>c. returnE (out, c))))"

definition Permission_Create :: "policy \<Rightarrow> actor option \<Rightarrow> bytes \<Rightarrow> model_permission op" where
  "Permission_Create p act name =
     bindE (guardE (Name name 128)) (\<lambda>_.
     bindE (guardE (NotSystemName SystemPermissions ''permission'' (TrimSpace name))) (\<lambda>_.
     Mutate p act ''CREATE'' (Permission_Create_tx name)))"

definition Permission_Update_tx ::
  "actor option \<Rightarrow> bytes \<Rightarrow> bytes option \<Rightarrow> (model_permission \<times> change) op" where
  "Permission_Update_tx act ident name =
     bindE (mapE DB (LockPermission ident)) (\<lambda>old.
       let newName = (case name of None \<Rightarrow> p_name old | Some n \<Rightarrow> TrimSpace n) in
       bindE (guardE (NotSystemName SystemPermissions ''permission'' (p_name old))) (\<lambda>_.
       bindE (guardE (NotSystemName SystemPermissions ''permission'' newName)) (\<lambda>_.
       bindE (PermissionsWithinActor act [ident]) (\<lambda>_.
       bindE (mapE DB (UpdatePermission ident newName)) (\<lambda>row.
       bindE (liftE (Capture ident (Some (model_permission_json (Permission old)))
         (Some (model_permission_json (Permission row))))) (\<lambda>c. returnE (Permission row, c)))))))"

definition Permission_Update ::
  "policy \<Rightarrow> actor option \<Rightarrow> bytes \<Rightarrow> bytes option \<Rightarrow> model_permission op" where
  "Permission_Update p act ident name =
     bindE (checkUUID ident) (\<lambda>_.
     bindE (case name of None \<Rightarrow> returnE () | Some n \<Rightarrow> guardE (Name n 128)) (\<lambda>_.
     Mutate p act ''UPDATE'' (Permission_Update_tx act ident name)))"

definition Permission_Delete_tx :: "actor option \<Rightarrow> bytes \<Rightarrow> (unit \<times> change) op" where
  "Permission_Delete_tx act ident =
     bindE (mapE DB (LockPermission ident)) (\<lambda>row.
     bindE (guardE (NotSystemName SystemPermissions ''permission'' (p_name row))) (\<lambda>_.
     bindE (PermissionsWithinActor act [ident]) (\<lambda>_.
     bindE (mapE DB (DeletePermission ident)) (\<lambda>_.
     bindE (liftE (Capture ident (Some (model_permission_json (Permission row))) None))
       (\<lambda>c. returnE ((), c))))))"

definition Permission_Delete :: "policy \<Rightarrow> actor option \<Rightarrow> bytes \<Rightarrow> unit op" where
  "Permission_Delete p act ident =
     bindE (checkUUID ident) (\<lambda>_. Mutate p act ''DELETE'' (Permission_Delete_tx act ident))"

subsection \<open>No service of a permission breaks the access rules\<close>

lemma Permission_reads [reads]: "evolves (=) e (Permission_Get i)" "evolves (=) e Permission_List"
  unfolding Permission_Get_def Permission_List_def by (intro same.ev_rules reads)+

lemma Permission_tx_wf:
  "evolves (keeps wf_db) e (Permission_Create_tx n)"
  "evolves (keeps wf_db) e (Permission_Update_tx act i nm)"
  "evolves (keeps wf_db) e (Permission_Delete_tx act i)"
  unfolding Permission_Create_tx_def Permission_Update_tx_def Permission_Delete_tx_def
  by (intro keeps.ev_rules writes reads [THEN same_keeps])+

lemma NotSystemName_None: "NotSystemName names k n = None \<longleftrightarrow> n \<notin> set names"
  by (simp add: NotSystemName_def)

lemma Permission_Create_step: "evolves (rbac_step e) e (Permission_Create p act n)"
  unfolding Permission_Create_def
proof (intro rbac.ev_rules rbac.ev_Mutate)
  assume "NotSystemName SystemPermissions ''permission'' (TrimSpace n) = None"
  then have n: "TrimSpace n \<notin> set SystemPermissions" by (simp add: NotSystemName_None)
  show "achieves (rbac_step e) e (Permission_Create_tx n)"
    unfolding Permission_Create_tx_def
    by (intro evolves_achieves rbac.ev_rules CreatePermission_step GrantToPermissionManagers_step n)
qed

lemma Permission_Update_tx_step: "achieves (rbac_step e) e (Permission_Update_tx act i n)"
proof (rule achievesI)
  fix w a w'
  assume run: "Permission_Update_tx act i n e w = (Inr a, w')"
  let ?new = "\<lambda>old. case n of None \<Rightarrow> p_name old | Some m \<Rightarrow> TrimSpace m"
  obtain old w1 w2 row where lock: "LockPermission i e w = (Inr old, w1)"
    and names: "NotSystemName SystemPermissions ''permission'' (p_name old) = None"
      "NotSystemName SystemPermissions ''permission'' (?new old) = None"
    and within: "PermissionsWithinActor act [i] e w1 = (Inr (), w2)"
    and upd: "UpdatePermission i (?new old) e w2 = (Inr row, w')"
    using run unfolding Permission_Update_tx_def Let_def run_parts by blast
  from lock have sel: "\<exists>u. uuid_in e i = Some u \<and> select_one (\<lambda>p. p_id p = u) (permissions (db w)) = Some old"
    and db1: "db w1 = db w" by (auto simp: LockPermission_def run_simps)
  have db2: "db w2 = db w" using reads_db [OF privilege_reads(1) within] db1 by simp
  define new where "new = ?new old"
  from upd [folded new_def] sel db2 obtain u t where
    u: "select_one (\<lambda>p. p_id p = u) (permissions (db w)) = Some old"
    and w': "db w' = (db w)\<lparr>permissions := update_where (\<lambda>x. p_id x = u)
      (\<lambda>x. x\<lparr>p_name := new, p_updated_at := t\<rparr>) (permissions (db w))\<rparr>"
    by (auto simp: UpdatePermission_def run_simps)
  show "rbac_step e (db w) (db w')"
    using UpdatePermission_ok [OF _ u, of new t] w' names
    by (intro rbac_stepI [OF Permission_tx_wf(2) run]) (simp add: NotSystemName_None new_def soundD canonical_updates)
qed

lemma Permission_Update_step: "evolves (rbac_step e) e (Permission_Update p act i n)"
  unfolding Permission_Update_def
  by (intro rbac.ev_rules rbac.ev_Mutate Permission_Update_tx_step rbac_same [OF checkUUID_reads])

lemma Permission_Delete_tx_step: "achieves (rbac_step e) e (Permission_Delete_tx act i)"
proof (rule achievesI)
  fix w a w'
  assume run: "Permission_Delete_tx act i e w = (Inr a, w')"
  then obtain old w1 w2 where lock: "LockPermission i e w = (Inr old, w1)"
    and name: "NotSystemName SystemPermissions ''permission'' (p_name old) = None"
    and within: "PermissionsWithinActor act [i] e w1 = (Inr (), w2)"
    and del: "DeletePermission i e w2 = (Inr (), w')"
    unfolding Permission_Delete_tx_def run_parts by blast
  from lock obtain u where u: "uuid_in e i = Some u"
      "select_one (\<lambda>p. p_id p = u) (permissions (db w)) = Some old"
    and db1: "db w1 = db w" by (auto simp: LockPermission_def run_simps)
  have db2: "db w2 = db w" using reads_db [OF privilege_reads(1) within] db1 by simp
  from del u(1) db2 have w': "db w' = (db w)\<lparr>permissions := delete_where (\<lambda>x. p_id x = u) (permissions (db w)),
       role_permissions := delete_where (\<lambda>rp. rp_permission_id rp = u) (role_permissions (db w))\<rparr>"
    by (auto simp: DeletePermission_def run_simps)
  show "rbac_step e (db w) (db w')"
    using DeletePermission_ok [OF _ u(2)] name w'
    by (intro rbac_stepI [OF Permission_tx_wf(3) run])
       (simp add: NotSystemName_None soundD canonical_updates)
qed

lemma Permission_Delete_step: "evolves (rbac_step e) e (Permission_Delete p act i)"
  unfolding Permission_Delete_def
  by (intro rbac.ev_rules rbac.ev_Mutate Permission_Delete_tx_step rbac_same [OF checkUUID_reads])

end
