(* ===== verification/SessionSafety.thy ===== *)
theory SessionSafety
  imports AuthService PermissionService
begin

text \<open>
  What holds of the refresh sessions in every state the services reach: along every service a
  family keeps its user and its absolute expiry and a revocation is never undone
  (\<open>session_step\<close>); a token never outlives its family, a revoked family has no live token, and
  a family has at most one live token (\<open>sessions_ok\<close>).
\<close>

definition same_family :: "refresh_family \<Rightarrow> refresh_family \<Rightarrow> bool" where
  "same_family m m' \<longleftrightarrow> m_id m' = m_id m \<and> m_user_id m' = m_user_id m \<and> m_expires_at m' = m_expires_at m
     \<and> (m_revoked_at m \<noteq> None \<longrightarrow> m_revoked_at m' = m_revoked_at m)"

definition same_token :: "refresh_token_row \<Rightarrow> refresh_token_row \<Rightarrow> bool" where
  "same_token t t' \<longleftrightarrow> t_id t' = t_id t \<and> t_family_id t' = t_family_id t \<and> t_user_id t' = t_user_id t
     \<and> t_token_hash t' = t_token_hash t \<and> t_expires_at t' = t_expires_at t
     \<and> (t_revoked_at t \<noteq> None \<longrightarrow> t_revoked_at t' = t_revoked_at t)"

definition session_step :: "database \<Rightarrow> database \<Rightarrow> bool" where
  "session_step d d' \<longleftrightarrow>
     (\<forall>m \<in> set (refresh_families d). \<exists>m' \<in> set (refresh_families d'). same_family m m')
     \<and> (\<forall>t \<in> set (auth_refresh_tokens d). \<exists>t' \<in> set (auth_refresh_tokens d'). same_token t t')"

lemma same_family_trans: "same_family a b \<Longrightarrow> same_family b c \<Longrightarrow> same_family a c"
  by (auto simp: same_family_def)

lemma same_token_trans: "same_token a b \<Longrightarrow> same_token b c \<Longrightarrow> same_token a c"
  by (auto simp: same_token_def)

lemma session_step_view: "session_view d' = session_view d \<Longrightarrow> session_step d d'"
  by (auto simp: session_step_def session_view_def same_family_def same_token_def)

interpretation session: audited session_step
proof
  show "session_step d d" for d by (rule session_step_view) simp
  show "session_step a b \<Longrightarrow> session_step b c \<Longrightarrow> session_step a c" for a b c
    unfolding session_step_def by (meson same_family_trans same_token_trans)
  show "evolves session_step e (InsertAudit b m i u s x y r p)" for e b m i u s x y r p
    by (rule fixed_weaken [OF _ session_step_view]) (rule frames)
qed

lemma session_frame: "evolves (fixed session_view) e m \<Longrightarrow> evolves session_step e m"
  by (rule fixed_weaken [OF _ session_step_view])

lemma session_same: "evolves (=) e m \<Longrightarrow> evolves session_step e m"
  by (rule evolves_same [OF _ session.evolution_axioms])

text \<open>The statements that write sessions.\<close>

lemma same_refl [simp]: "same_family m m" "same_token t t"
  by (simp_all add: same_family_def same_token_def)

lemma updated_row:
  "r \<in> set rs \<Longrightarrow> rel r r \<Longrightarrow> (P r \<Longrightarrow> rel r (f r)) \<Longrightarrow> \<exists>r' \<in> set (update_where P f rs). rel r r'"
  by (cases "P r") (auto simp: update_where_def image_iff)

lemma step_update_tokens:
  "(\<And>t. t \<in> set (auth_refresh_tokens d) \<Longrightarrow> P t \<Longrightarrow> same_token t (f t)) \<Longrightarrow>
   session_step d (d\<lparr>auth_refresh_tokens := update_where P f (auth_refresh_tokens d)\<rparr>)"
  unfolding session_step_def by (auto intro: updated_row same_refl)

lemma step_update_families:
  "(\<And>m. m \<in> set (refresh_families d) \<Longrightarrow> P m \<Longrightarrow> same_family m (f m)) \<Longrightarrow>
   session_step d (d\<lparr>refresh_families := update_where P f (refresh_families d)\<rparr>)"
  unfolding session_step_def by (auto intro: updated_row same_refl)

lemma step_add:
  "session_step d (d\<lparr>auth_refresh_tokens := auth_refresh_tokens d @ ts\<rparr>)"
  "session_step d (d\<lparr>refresh_families := refresh_families d @ ms\<rparr>)"
  unfolding session_step_def by (auto intro: same_refl)

lemma session_writes:
  "evolves session_step e (CreateAuthRefreshToken a b c t)"
  "evolves session_step e (CreateRefreshFamily a b t)"
  "evolves session_step e (RevokeAuthRefreshFamily a)"
  "evolves session_step e (RevokeAuthRefreshToken a)"
  "evolves session_step e (RevokeRefreshFamilyRecord a)"
  "evolves session_step e (RevokeUserAuthRefreshTokens a)"
  "evolves session_step e (RevokeUserRefreshFamilies a)"
  unfolding auth_write_defs
  by (rule session.ev_stmt,
      auto simp: run_simps same_token_def same_family_def intro!: step_add step_update_tokens step_update_families)+

lemma auth_service_reads [reads]:
  "evolves (=) e (optional_row (LockRefreshFamily f))" "evolves (=) e (optional_row (FindActiveUserByID i))"
  "evolves (=) e (optional_row (Q (LookupAuthRefreshToken h)))"
  "evolves (=) e (Refresh_lookup raw)" "evolves (=) e (VerifyAccessToken s raw)"
  "evolves (=) e (LoadActor c)" "evolves (=) e (Authenticate s raw)" "evolves (=) e (Authorize a q)"
  "evolves (=) e (Me a)" "evolves (=) e (issueTokenPair s u m r f x)"
  unfolding Refresh_lookup_def VerifyAccessToken_def LoadActor_def Authenticate_def Authorize_def Me_def
    issueTokenPair_def Let_def
  by (intro same.ev_rules reads)+

lemma revoke_session: "evolves session_step e (revoke_family m)" "evolves session_step e (RevokeUserSessions u)"
  unfolding revoke_family_def RevokeUserSessions_def by (intro session.ev_rules session_writes)+

lemma Refresh_tx_session: "evolves session_step e (Refresh_tx s p h f)"
  unfolding Refresh_tx_def rotate_def Let_def
  by (intro session.ev_rules session_writes revoke_session session.ev_Write session_same reads)

lemma Logout_tx_session: "evolves session_step e (Logout_tx p f)"
  unfolding Logout_tx_def Let_def
  by (intro session.ev_rules session_writes revoke_session session.ev_Write session_same reads)

lemma auth_session:
  "evolves session_step e (Refresh_finish s p raw f)" "evolves session_step e (Logout p raw)"
  "evolves session_step e (Login s p m pw)" "evolves session_step e (Register p m pw)"
  unfolding Refresh_finish_def Logout_def Login_def Register_def Login_tx_def Register_tx_def
    optionalSessionAudit_def Let_def
  by (intro session.ev_rules session.ev_Mutate evolves_achieves session_writes Refresh_tx_session
      Logout_tx_session session.ev_Write session_frame [OF rbac_frame(9) [THEN fixed_pair(1)]]
      session_same reads)+

lemma Refresh_session: "evolves session_step e (Refresh s p raw)"
  unfolding Refresh_def by (intro session.ev_bindE auth_session session_same reads)

subsection \<open>The shape of the sessions\<close>

definition sessions_ok :: "database \<Rightarrow> bool" where
  "sessions_ok d \<longleftrightarrow>
     (\<forall>t \<in> set (auth_refresh_tokens d). \<forall>m \<in> set (refresh_families d). m_id m = t_family_id t \<longrightarrow>
        t_user_id t = m_user_id m \<and> t_expires_at t \<le> m_expires_at m
        \<and> (m_revoked_at m \<noteq> None \<longrightarrow> t_revoked_at t \<noteq> None))
     \<and> (\<forall>t \<in> set (auth_refresh_tokens d). \<forall>t' \<in> set (auth_refresh_tokens d).
        t_family_id t = t_family_id t' \<and> t_revoked_at t = None \<and> t_revoked_at t' = None \<longrightarrow> t = t')"

definition user_ids :: "database \<Rightarrow> bytes set" where
  "user_ids d = u_id ` set (users d)"

definition canonical_sessions :: "env \<Rightarrow> database \<Rightarrow> bool" where
  "canonical_sessions e d \<longleftrightarrow> (\<forall>i \<in> user_ids d \<union> m_id ` set (refresh_families d)
     \<union> t_id ` set (auth_refresh_tokens d). uuid_in e i = Some i)"

definition sess_sound :: "env \<Rightarrow> database \<Rightarrow> bool" where
  "sess_sound e d \<longleftrightarrow> uuid_laws e \<and> wf_db d \<and> canonical_sessions e d \<and> sessions_ok d"

definition sess_step :: "env \<Rightarrow> database \<Rightarrow> database \<Rightarrow> bool" where
  "sess_step e d d' \<longleftrightarrow> (sess_sound e d \<longrightarrow> sess_sound e d')"

lemma sess_view:
  "evolves (keeps wf_db) e m \<Longrightarrow> evolves (fixed session_view) e m \<Longrightarrow> evolves (fixed user_ids) e m \<Longrightarrow>
   evolves (sess_step e') e m"
  by (auto simp: evolves_def keeps_def fixed_def session_view_def sess_step_def sess_sound_def
      canonical_sessions_def sessions_ok_def)

lemma rbac_user_ids: "evolves (fixed rbac_view) e m \<Longrightarrow> evolves (fixed user_ids) e m"
  by (erule fixed_weaken) (simp add: fixed_def rbac_view_def user_ids_def)

lemma user_ids_frame [frames]:
  "evolves (fixed user_ids) e (AssignRolePermission a b)" "evolves (fixed user_ids) e (ClearRolePermissions a)"
  "evolves (fixed user_ids) e (CreateRole a)" "evolves (fixed user_ids) e (DeleteRole a)"
  "evolves (fixed user_ids) e (UpdateRole a b)" "evolves (fixed user_ids) e (CreatePermission a)"
  "evolves (fixed user_ids) e (DeletePermission a)" "evolves (fixed user_ids) e (UpdatePermission a b)"
  unfolding AssignRolePermission_def ClearRolePermissions_def CreateRole_def DeleteRole_def
    UpdateRole_def CreatePermission_def DeletePermission_def UpdatePermission_def Let_def
  by (rule fixed_stmt, auto simp: run_simps user_ids_def split: option.splits if_splits)+

lemma updated_user_ids:
  "(\<And>u. u_id (f u) = u_id u) \<Longrightarrow> user_ids (d\<lparr>users := update_where P f (users d)\<rparr>) = user_ids d"
  by (simp add: user_ids_def image_update_where)

lemma user_update_frame [frames]:
  "evolves (fixed user_ids) e (SoftDeleteUser a)" "evolves (fixed user_ids) e (UpdateUser a p q)"
  unfolding SoftDeleteUser_def UpdateUser_def Let_def
  by (rule fixed_stmt, clarsimp simp: run_simps, erule subst, rule updated_user_ids,
      simp add: set_user_def)+

interpretation sess: audited "sess_step e"
  by (intro audited.intro evolution.intro audited_axioms.intro sess_view InsertAudit_wf rbac_user_ids frames)
     (auto simp: sess_step_def)

lemma sess_same: "evolves (=) e m \<Longrightarrow> evolves (sess_step e') e m"
  by (rule evolves_same [OF _ sess.evolution_axioms])

lemma CreateUser_sess: "evolves (sess_step e) e (CreateUser a b c)"
proof -
  have "sess_step e (db w) (db (snd (CreateUser a b c e w)))" for w
  proof -
    obtain r w' where run: "CreateUser a b c e w = (r, w')" by (cases "CreateUser a b c e w")
    show ?thesis
    proof (cases r)
      case (Inl x)
      then show ?thesis using run stmt_Inl_db by (fastforce simp: CreateUser_def sess.refl)
    next
      case (Inr row)
      with run have wf: "wf_db (db w) \<Longrightarrow> wf_db (db w')" using CreateUser_wf keeps_run by blast
      from run Inr obtain u where w': "db w' = (db w)\<lparr>users := users (db w) @ [u]\<rparr>"
        and u: "u_id u = gen_uuid e (tick w)"
        by (fastforce simp: CreateUser_def run_simps Let_def)
      have "sessions_ok (db w') = sessions_ok (db w)" by (simp add: w' sessions_ok_def)
      moreover have "uuid_laws e \<Longrightarrow> canonical_sessions e (db w) \<Longrightarrow> canonical_sessions e (db w')"
        by (simp add: w' u uuid_laws_def canonical_sessions_def user_ids_def)
      ultimately show ?thesis using run wf by (simp add: sess_step_def sess_sound_def)
    qed
  qed
  then show ?thesis by (simp add: evolves_def)
qed

subsubsection \<open>Ending sessions\<close>

text \<open>Families and tokens revoked together: every token of a revoked family is.\<close>

lemma end_sessions:
  assumes ok: "sess_sound e d"
    and fam: "\<And>m. same_family m (f m)" and tok: "\<And>t. same_token t (g t)" "\<And>t. t_revoked_at (g t) \<noteq> None"
    and covers: "\<And>m t. m \<in> set (refresh_families d) \<Longrightarrow> t \<in> set (auth_refresh_tokens d) \<Longrightarrow>
      m_id m = t_family_id t \<Longrightarrow> t_user_id t = m_user_id m \<Longrightarrow> P m \<Longrightarrow> O' t \<or> t_revoked_at t \<noteq> None"
  shows "sess_sound e (d\<lparr>refresh_families := update_where P f (refresh_families d),
    auth_refresh_tokens := update_where O' g (auth_refresh_tokens d)\<rparr>)"
proof -
  let ?ms = "update_where P f (refresh_families d)"
  let ?ts = "update_where O' g (auth_refresh_tokens d)"
  have mf: "m_id (f m) = m_id m" "m_user_id (f m) = m_user_id m" "m_expires_at (f m) = m_expires_at m" for m
    using fam [of m] by (simp_all add: same_family_def)
  have tg: "t_id (g t) = t_id t" "t_family_id (g t) = t_family_id t" "t_user_id (g t) = t_user_id t"
    "t_token_hash (g t) = t_token_hash t" "t_expires_at (g t) = t_expires_at t" for t
    using tok(1) [of t] by (simp_all add: same_token_def)
  from ok have wf: "wf_db d" and s: "sessions_ok d" and c: "canonical_sessions e d" and u: "uuid_laws e"
    by (simp_all add: sess_sound_def)
  have "wf_db (d\<lparr>refresh_families := ?ms\<rparr>)"
    by (rule wf_set_families [OF wf]) (simp_all add: mf row_simps)
  then have "wf_db (d\<lparr>refresh_families := ?ms, auth_refresh_tokens := ?ts\<rparr>)"
    using wf_set_tokens [of "d\<lparr>refresh_families := ?ms\<rparr>" ?ts] by (simp add: tg row_simps)
  moreover have "canonical_sessions e (d\<lparr>refresh_families := ?ms, auth_refresh_tokens := ?ts\<rparr>)"
    using c image_update_where [of m_id f P "refresh_families d", OF mf(1)]
      image_update_where [of t_id g O' "auth_refresh_tokens d", OF tg(1)]
    by (simp add: canonical_sessions_def user_ids_def)
  moreover have "sessions_ok (d\<lparr>refresh_families := ?ms, auth_refresh_tokens := ?ts\<rparr>)"
    unfolding sessions_ok_def
  proof (intro conjI ballI impI; (elim conjE)?; simp)
    fix t m
    assume "t \<in> set ?ts" "m \<in> set ?ms" and fid: "m_id m = t_family_id t"
    then obtain t0 m0 where t: "t0 \<in> set (auth_refresh_tokens d)" "t = (if O' t0 then g t0 else t0)"
      and m: "m0 \<in> set (refresh_families d)" "m = (if P m0 then f m0 else m0)"
      by (auto simp: set_update_where)
    have id0: "m_id m0 = t_family_id t0" using fid t(2) m(2) by (simp add: mf tg split: if_splits)
    then have old: "t_user_id t0 = m_user_id m0" "t_expires_at t0 \<le> m_expires_at m0"
      "m_revoked_at m0 \<noteq> None \<Longrightarrow> t_revoked_at t0 \<noteq> None"
      using s t(1) m(1) by (auto simp: sessions_ok_def)
    show "t_user_id t = m_user_id m" using old t(2) m(2) by (simp add: mf tg)
    show "t_expires_at t \<le> m_expires_at m" using old t(2) m(2) by (simp add: mf tg)
    assume "\<exists>y. m_revoked_at m = Some y"
    then have "\<not> O' t0 \<Longrightarrow> t_revoked_at t0 \<noteq> None"
      using old m covers [OF m(1) t(1) id0 old(1)] by (cases "P m0") auto
    then show "\<exists>y. t_revoked_at t = Some y" using t(2) tok(2) [of t0] by (cases "O' t0") auto
  next
    fix t t'
    assume "t \<in> set ?ts" "t' \<in> set ?ts" and f: "t_family_id t = t_family_id t'"
      and live: "t_revoked_at t = None" "t_revoked_at t' = None"
    moreover have "x \<in> set (auth_refresh_tokens d)" if "x \<in> set ?ts" "t_revoked_at x = None" for x
      using that tok(2) by (metis set_update_where)
    ultimately have "t \<in> set (auth_refresh_tokens d)" "t' \<in> set (auth_refresh_tokens d)" by blast+
    then show "t = t'" using s f live by (auto simp: sessions_ok_def)
  qed
  ultimately show ?thesis using u by (simp add: sess_sound_def)
qed

lemma revoke_family_effect:
  assumes "revoke_family family e w = (Inr (), w')" and "uuid_in e (m_id family) = Some (m_id family)"
  obtains t t' where "db w' = (db w)\<lparr>
      refresh_families := update_where (\<lambda>m. m_id m = m_id family)
        (\<lambda>m. m\<lparr>m_revoked_at := (case m_revoked_at m of None \<Rightarrow> Some t | Some t \<Rightarrow> Some t)\<rparr>) (refresh_families (db w)),
      auth_refresh_tokens := update_where (\<lambda>t. t_family_id t = m_id family \<and> t_revoked_at t = None)
        (\<lambda>x. x\<lparr>t_revoked_at := case t_revoked_at x of None \<Rightarrow> Some t' | Some t \<Rightarrow> Some t\<rparr>)
        (auth_refresh_tokens (db w))\<rparr>"
  using assms unfolding revoke_family_def run_parts
  by (auto simp: RevokeRefreshFamilyRecord_def RevokeAuthRefreshFamily_def run_simps update_where_def
      cong: if_cong)

text \<open>The family named and all its tokens are revoked.\<close>

definition family_ended :: "bytes \<Rightarrow> database \<Rightarrow> bool" where
  "family_ended i d \<longleftrightarrow> (\<exists>m \<in> set (refresh_families d). m_id m = i \<and> m_revoked_at m \<noteq> None)
     \<and> (\<forall>m \<in> set (refresh_families d). m_id m = i \<longrightarrow> m_revoked_at m \<noteq> None)
     \<and> (\<forall>t \<in> set (auth_refresh_tokens d). t_family_id t = i \<longrightarrow> t_revoked_at t \<noteq> None)"

lemma revoke_family_ends:
  assumes "revoke_family family e w = (Inr (), w')" and "uuid_in e (m_id family) = Some (m_id family)"
    and "family \<in> set (refresh_families (db w))"
  shows "family_ended (m_id family) (db w')"
  using assms(1,2)
proof (rule revoke_family_effect)
  fix t t'
  assume w': "db w' = (db w)\<lparr>
      refresh_families := update_where (\<lambda>m. m_id m = m_id family)
        (\<lambda>m. m\<lparr>m_revoked_at := (case m_revoked_at m of None \<Rightarrow> Some t | Some t \<Rightarrow> Some t)\<rparr>) (refresh_families (db w)),
      auth_refresh_tokens := update_where (\<lambda>t. t_family_id t = m_id family \<and> t_revoked_at t = None)
        (\<lambda>x. x\<lparr>t_revoked_at := case t_revoked_at x of None \<Rightarrow> Some t' | Some t \<Rightarrow> Some t\<rparr>)
        (auth_refresh_tokens (db w))\<rparr>"
  have "\<forall>m \<in> set (refresh_families (db w')). m_id m = m_id family \<longrightarrow> m_revoked_at m \<noteq> None"
    unfolding w' by (simp add: ball_update_where split: option.split)
  moreover have "m_id family \<in> m_id ` set (refresh_families (db w'))"
    using assms(3) by (simp add: w' image_update_where)
  moreover have "\<forall>t \<in> set (auth_refresh_tokens (db w')). t_family_id t = m_id family \<longrightarrow> t_revoked_at t \<noteq> None"
    unfolding w' by (simp add: ball_update_where split: option.split)
  ultimately show ?thesis unfolding family_ended_def by auto
qed

lemma family_ended_logs: "family_ended i d \<Longrightarrow> adds_logs d d' \<Longrightarrow> family_ended i d'"
  by (simp add: family_ended_def adds_logs_simps)

lemma revoke_family_sess:
  assumes ok: "sess_sound e (db w)" and fam: "family \<in> set (refresh_families (db w))"
    and run: "revoke_family family e w = (Inr (), w')"
  shows "sess_sound e (db w')"
proof -
  have "uuid_in e (m_id family) = Some (m_id family)"
    using ok fam by (auto simp: sess_sound_def canonical_sessions_def)
  from run this obtain t t' where w': "db w' = (db w)\<lparr>
      refresh_families := update_where (\<lambda>m. m_id m = m_id family)
        (\<lambda>m. m\<lparr>m_revoked_at := (case m_revoked_at m of None \<Rightarrow> Some t | Some t \<Rightarrow> Some t)\<rparr>) (refresh_families (db w)),
      auth_refresh_tokens := update_where (\<lambda>t. t_family_id t = m_id family \<and> t_revoked_at t = None)
        (\<lambda>x. x\<lparr>t_revoked_at := case t_revoked_at x of None \<Rightarrow> Some t' | Some t \<Rightarrow> Some t\<rparr>)
        (auth_refresh_tokens (db w))\<rparr>"
    by (rule revoke_family_effect)
  show ?thesis
    unfolding w' by (rule end_sessions [OF ok]) (auto simp: same_family_def same_token_def split: option.splits)
qed

lemma RevokeUserSessions_effect:
  assumes "RevokeUserSessions ident e w = (Inr (), w')"
  obtains i t t' where "uuid_in e ident = Some i" "db w' = (db w)\<lparr>
      refresh_families := update_where (\<lambda>m. m_user_id m = i \<and> m_revoked_at m = None)
        (\<lambda>m. m\<lparr>m_revoked_at := case m_revoked_at m of None \<Rightarrow> Some t | Some t \<Rightarrow> Some t\<rparr>) (refresh_families (db w)),
      auth_refresh_tokens := update_where (\<lambda>t. t_user_id t = i \<and> t_revoked_at t = None)
        (\<lambda>x. x\<lparr>t_revoked_at := case t_revoked_at x of None \<Rightarrow> Some t' | Some t \<Rightarrow> Some t\<rparr>)
        (auth_refresh_tokens (db w))\<rparr>"
  using assms unfolding RevokeUserSessions_def run_parts
  by (auto simp: RevokeUserRefreshFamilies_def RevokeUserAuthRefreshTokens_def run_simps update_where_def
      cong: if_cong)

lemma RevokeUserSessions_sess:
  assumes ok: "sess_sound e (db w)" and run: "RevokeUserSessions ident e w = (Inr (), w')"
  shows "sess_sound e (db w')"
  using run
proof (rule RevokeUserSessions_effect)
  fix i t t'
  assume w': "db w' = (db w)\<lparr>
      refresh_families := update_where (\<lambda>m. m_user_id m = i \<and> m_revoked_at m = None)
        (\<lambda>m. m\<lparr>m_revoked_at := case m_revoked_at m of None \<Rightarrow> Some t | Some t \<Rightarrow> Some t\<rparr>) (refresh_families (db w)),
      auth_refresh_tokens := update_where (\<lambda>t. t_user_id t = i \<and> t_revoked_at t = None)
        (\<lambda>x. x\<lparr>t_revoked_at := case t_revoked_at x of None \<Rightarrow> Some t' | Some t \<Rightarrow> Some t\<rparr>)
        (auth_refresh_tokens (db w))\<rparr>"
  show ?thesis
    unfolding w' by (rule end_sessions [OF ok]) (auto simp: same_family_def same_token_def split: option.splits)
qed

subsubsection \<open>Issuing tokens\<close>

lemma issueTokenPair_run:
  assumes "issueTokenPair s u m r fam x e w = (Inr (pair, h, f), w')"
  shows "db w' = db w" and "h = sha256 e (tp_refresh_token pair)" and "tp_refresh_expires_at pair = x"
    and "fam \<noteq> [] \<Longrightarrow> f = fam" and "fam = [] \<Longrightarrow> f = gen_uuid e (tick w)"
  using assms by (auto simp: issueTokenPair_def Let_def run_simps split: if_splits)

text \<open>One more token for a family that has no live one.\<close>

lemma add_token:
  assumes ok: "sess_sound e d" and wf: "wf_db (d\<lparr>auth_refresh_tokens := auth_refresh_tokens d @ [t]\<rparr>)"
    and idc: "uuid_in e (t_id t) = Some (t_id t)"
    and fam: "m \<in> set (refresh_families d)" "t_family_id t = m_id m" "t_user_id t = m_user_id m"
      "t_expires_at t \<le> m_expires_at m" "m_revoked_at m = None"
    and none: "\<And>t'. t' \<in> set (auth_refresh_tokens d) \<Longrightarrow> t_family_id t' = m_id m \<Longrightarrow> t_revoked_at t' \<noteq> None"
  shows "sess_sound e (d\<lparr>auth_refresh_tokens := auth_refresh_tokens d @ [t]\<rparr>)"
proof -
  have uniq: "m' = m" if "m' \<in> set (refresh_families d)" "m_id m' = m_id m" for m'
    using key_inj [of m_id "refresh_families d"] that fam(1) ok
    by (auto simp: sess_sound_def wf_db_def wf_families_def)
  have "canonical_sessions e (d\<lparr>auth_refresh_tokens := auth_refresh_tokens d @ [t]\<rparr>)"
    using ok idc by (auto simp: sess_sound_def canonical_sessions_def user_ids_def)
  moreover have "sessions_ok (d\<lparr>auth_refresh_tokens := auth_refresh_tokens d @ [t]\<rparr>)"
    unfolding sessions_ok_def
  proof (intro conjI ballI impI; (elim conjE)?; simp)
    fix t1 m1
    assume t1: "t1 = t \<or> t1 \<in> set (auth_refresh_tokens d)" and m1: "m1 \<in> set (refresh_families d)"
      and id1: "m_id m1 = t_family_id t1"
    have new: "m1 = m" if "t1 = t" using uniq [OF m1] id1 fam(2) that by simp
    have old: "t_user_id t1 = m_user_id m1 \<and> t_expires_at t1 \<le> m_expires_at m1
        \<and> (m_revoked_at m1 \<noteq> None \<longrightarrow> t_revoked_at t1 \<noteq> None)" if "t1 \<in> set (auth_refresh_tokens d)"
      using ok that m1 id1 by (auto simp: sess_sound_def sessions_ok_def)
    show "t_user_id t1 = m_user_id m1" using t1 new old fam(3) by auto
    show "t_expires_at t1 \<le> m_expires_at m1" using t1 new old fam(4) by auto
    assume "\<exists>y. m_revoked_at m1 = Some y"
    then show "\<exists>y. t_revoked_at t1 = Some y" using t1 new old fam(5) by auto
  next
    fix t1 t2
    assume "t1 = t \<or> t1 \<in> set (auth_refresh_tokens d)" "t2 = t \<or> t2 \<in> set (auth_refresh_tokens d)"
      "t_family_id t1 = t_family_id t2" "t_revoked_at t1 = None" "t_revoked_at t2 = None"
    then show "t1 = t2"
      using none [of t1] none [of t2] fam(2) ok by (auto simp: sess_sound_def sessions_ok_def)
  qed
  ultimately show ?thesis using ok wf by (simp add: sess_sound_def)
qed

lemma CreateAuthRefreshToken_run:
  assumes "CreateAuthRefreshToken f u h x e w = (Inr (), w')"
  obtains i j where "uuid_in e f = Some i" "uuid_in e u = Some j"
    "db w' = (db w)\<lparr>auth_refresh_tokens := auth_refresh_tokens (db w) @
      [\<lparr>t_id = gen_uuid e (tick w), t_family_id = i, t_user_id = j, t_token_hash = h, t_expires_at = x,
        t_created_at = txnow w, t_revoked_at = None\<rparr>]\<rparr>"
  using assms by (auto simp: CreateAuthRefreshToken_def run_simps)

lemma revoke_tokens:
  assumes "sess_sound e d" and "\<And>t. same_token t (g t)" and "\<And>t. t_revoked_at (g t) \<noteq> None"
  shows "sess_sound e (d\<lparr>auth_refresh_tokens := update_where O' g (auth_refresh_tokens d)\<rparr>)"
proof -
  have "update_where (\<lambda>_. False) (\<lambda>m. m) (refresh_families d) = refresh_families d"
    by (simp add: update_where_def)
  then show ?thesis
    using end_sessions [OF assms(1), of "\<lambda>m. m" g "\<lambda>_. False" O'] assms(2,3) by simp
qed

lemma rotate_effect:
  assumes ok: "sess_sound e (db w)" and fam: "family \<in> set (refresh_families (db w))"
    and stored: "stored \<in> set (auth_refresh_tokens (db w))" and user: "u_id user = m_user_id family"
    and run: "rotate s family stored user now e w = (Inr pair, w')"
  obtains t i at where
    "db w' = (db w)\<lparr>auth_refresh_tokens := update_where (\<lambda>t. t_id t = t_id stored \<and> t_revoked_at t = None)
        (\<lambda>x. x\<lparr>t_revoked_at := case t_revoked_at x of None \<Rightarrow> Some t | Some t \<Rightarrow> Some t\<rparr>)
        (auth_refresh_tokens (db w)) @
      [\<lparr>t_id = i, t_family_id = m_id family, t_user_id = m_user_id family,
        t_token_hash = sha256 e (tp_refresh_token pair), t_expires_at = idleExpiry s now (m_expires_at family),
        t_created_at = at, t_revoked_at = None\<rparr>]\<rparr>"
    and "uuid_in e i = Some i"
proof -
  let ?x = "idleExpiry s now (m_expires_at family)"
  have ids: "uuid_in e (m_id family) = Some (m_id family)" "uuid_in e (t_id stored) = Some (t_id stored)"
    using ok fam stored by (auto simp: sess_sound_def canonical_sessions_def)
  have "m_user_id family \<in> user_ids (db w)"
    using ok fam by (auto simp: sess_sound_def wf_db_def wf_families_def user_ids_def)
  then have uid: "uuid_in e (u_id user) = Some (m_user_id family)"
    using ok user by (auto simp: sess_sound_def canonical_sessions_def)
  obtain h f w1 n w2 where issue: "issueTokenPair s (u_id user) (u_email user) (u_role_id user)
      (m_id family) ?x e w = (Inr (pair, h, f), w1)"
    and rev: "RevokeAuthRefreshToken (t_id stored) e w1 = (Inr n, w2)"
    and crt: "CreateAuthRefreshToken (m_id family) (u_id user) h ?x e w2 = (Inr (), w')"
    using run unfolding rotate_def Let_def run_parts by (auto simp: run_parts split: prod.splits)
  note iss = issueTokenPair_run [OF issue]
  from rev ids(2) iss(1) obtain t where w2: "db w2 = (db w)\<lparr>auth_refresh_tokens :=
      update_where (\<lambda>t. t_id t = t_id stored \<and> t_revoked_at t = None)
        (\<lambda>x. x\<lparr>t_revoked_at := case t_revoked_at x of None \<Rightarrow> Some t | Some t \<Rightarrow> Some t\<rparr>)
        (auth_refresh_tokens (db w))\<rparr>"
    by (auto simp: RevokeAuthRefreshToken_def run_simps update_where_def cong: if_cong)
  from crt obtain at i where "db w' = (db w2)\<lparr>auth_refresh_tokens := auth_refresh_tokens (db w2) @
      [\<lparr>t_id = i, t_family_id = m_id family, t_user_id = m_user_id family, t_token_hash = h,
        t_expires_at = ?x, t_created_at = at, t_revoked_at = None\<rparr>]\<rparr>"
    "uuid_in e i = Some i"
    using ids(1) uid ok by (elim CreateAuthRefreshToken_run) (auto simp: sess_sound_def uuid_laws_def)
  then show thesis using that w2 iss(2) by simp
qed

lemma rotate_sess:
  assumes ok: "sess_sound e (db w)" and fam: "family \<in> set (refresh_families (db w))"
    and stored: "stored \<in> set (auth_refresh_tokens (db w))" and user: "u_id user = m_user_id family"
    and ids: "t_family_id stored = m_id family" and live: "t_revoked_at stored = None" "m_revoked_at family = None"
    and run: "rotate s family stored user now e w = (Inr pair, w')"
  shows "sess_sound e (db w')"
  using ok fam stored user run
proof (rule rotate_effect)
  fix t i at
  let ?g = "\<lambda>x :: refresh_token_row. x\<lparr>t_revoked_at := case t_revoked_at x of None \<Rightarrow> Some t | Some t \<Rightarrow> Some t\<rparr>"
  let ?d = "(db w)\<lparr>auth_refresh_tokens := update_where (\<lambda>t. t_id t = t_id stored \<and> t_revoked_at t = None) ?g (auth_refresh_tokens (db w))\<rparr>"
  let ?t = "\<lparr>t_id = i, t_family_id = m_id family, t_user_id = m_user_id family,
        t_token_hash = sha256 e (tp_refresh_token pair), t_expires_at = idleExpiry s now (m_expires_at family),
        t_created_at = at, t_revoked_at = None\<rparr>"
  assume w': "db w' = (db w)\<lparr>auth_refresh_tokens := update_where (\<lambda>t. t_id t = t_id stored \<and> t_revoked_at t = None) ?g
        (auth_refresh_tokens (db w)) @ [?t]\<rparr>" and i: "uuid_in e i = Some i"
  have d: "sess_sound e ?d" by (rule revoke_tokens [OF ok]) (simp_all add: same_token_def split: option.splits)
  have w'': "db w' = ?d\<lparr>auth_refresh_tokens := auth_refresh_tokens ?d @ [?t]\<rparr>" by (simp add: w')
  have "evolves (keeps wf_db) e (rotate s family stored user now)"
    unfolding rotate_def Let_def by (intro keeps.ev_rules writes reads [THEN same_keeps])
  then have wf: "wf_db (db w')" using run ok by (auto simp: sess_sound_def dest: keeps_run)
  have none: "t_revoked_at t' \<noteq> None" if t': "t' \<in> set (auth_refresh_tokens ?d)" "t_family_id t' = m_id family" for t'
  proof
    assume l: "t_revoked_at t' = None"
    have g: "t_revoked_at (?g x) \<noteq> None" for x :: refresh_token_row by (simp split: option.splits)
    obtain t0 where "t0 \<in> set (auth_refresh_tokens (db w))" "t' = (if t_id t0 = t_id stored \<and> t_revoked_at t0 = None then ?g t0 else t0)"
      using t'(1) by (auto simp: set_update_where)
    with l g [of t0] have "t' \<in> set (auth_refresh_tokens (db w))" "t_id t' \<noteq> t_id stored"
      by (cases "t_id t0 = t_id stored \<and> t_revoked_at t0 = None"; simp)+
    then show False
      using ok stored t'(2) ids live(1) l by (auto simp: sess_sound_def sessions_ok_def)
  qed
  show ?thesis
    unfolding w'' by (rule add_token [OF d, where m = family])
      (use wf w'' i fam live none in \<open>auto simp: idleExpiry_def Let_def\<close>)
qed

subsubsection \<open>The transaction of a refresh\<close>

lemma optional_row_reads: "evolves (=) e m \<Longrightarrow> optional_row m e w = (r, w') \<Longrightarrow> db w' = db w"
  by (rule reads_db [OF same.ev_optional_row])

lemma locked_family:
  "optional_row (LockRefreshFamily f) e w = (Inr (Some m), w') \<Longrightarrow>
   m \<in> set (refresh_families (db w)) \<and> uuid_in e f = Some (m_id m)"
  by (auto simp: run_optional_row LockRefreshFamily_def run_simps dest!: select_one_Some)

lemma active_user:
  "optional_row (FindActiveUserByID i) e w = (Inr (Some u), w') \<Longrightarrow>
   u \<in> set (users (db w)) \<and> uuid_in e i = Some (u_id u) \<and> u_deleted_at u = None"
  by (auto simp: run_optional_row FindActiveUserByID_def run_simps dest!: select_one_Some)

text \<open>What a completed transaction did: it found no family, or revoked it, or rotated the token.\<close>

definition refresh_case ::
  "env \<Rightarrow> auth_service \<Rightarrow> bytes \<Rightarrow> bytes \<Rightarrow> world \<Rightarrow> session_result \<Rightarrow> world \<Rightarrow> bool" where
  "refresh_case e s hash fid w r w' \<longleftrightarrow>
     (\<exists>family stored user now w1 w2. family \<in> set (refresh_families (db w)) \<and> uuid_in e fid = Some (m_id family)
        \<and> stored \<in> set (auth_refresh_tokens (db w)) \<and> t_token_hash stored = hash \<and> db w1 = db w
        \<and> (\<forall>u. user = Some u \<longrightarrow> u \<in> set (users (db w)) \<and> u_deleted_at u = None
             \<and> uuid_in e (m_user_id family) = Some (u_id u))
        \<and> sr_mutated r \<and> sr_invalid r = dead family stored user now \<and> adds_logs (db w2) (db w')
        \<and> (if dead family stored user now then revoke_family family e w1 = (Inr (), w2)
           else rotate s family stored (the user) now e w1 = (Inr (sr_pair r), w2)))"

lemma Refresh_tx_run:
  assumes run: "Refresh_tx s p hash fid e w = (Inr r, w')"
  shows "(sr_invalid r \<and> \<not> sr_mutated r \<and> db w' = db w
      \<and> optional_row (LockRefreshFamily fid) e w = (Inr None, w')) \<or> refresh_case e s hash fid w r w'"
proof -
  obtain locked w1 where l: "optional_row (LockRefreshFamily fid) e w = (Inr locked, w1)"
    using run unfolding Refresh_tx_def run_parts by blast
  have db1: "db w1 = db w" using reads_db [OF auth_service_reads(1) l] .
  show ?thesis
  proof (cases locked)
    case None
    then show ?thesis using run l db1 by (auto simp: Refresh_tx_def run_parts)
  next
    case (Some family)
    define bad where "bad = dead family"
    obtain stored w2 user w3 now w4 pair w5 c w6 where
      st: "FindAuthRefreshTokenByHash hash e w1 = (Inr stored, w2)"
      and us: "optional_row (FindActiveUserByID (m_user_id family)) e w2 = (Inr user, w3)"
      and tm: "time_Now e w3 = (Inr now, w4)"
      and act: "(if dead family stored user now then bindE (revoke_family family) (\<lambda>_. returnE zero_pair)
            else rotate s family stored (the user) now) e w4 = (Inr pair, w5)"
      and wr: "(if pol_Mode p = Required then Write p (map_option actor_of user)
          (if dead family stored user now then ''REFRESH_REPLAY'' else ''TOKEN_REFRESH'') c
          else returnE ()) e w5 = (Inr (), w6)"
      and r: "sr_pair r = pair" "sr_invalid r = dead family stored user now" "sr_mutated r" "w' = w6"
      using run l Some unfolding Refresh_tx_def Let_def run_parts by (auto simp: run_parts)
    have fam: "family \<in> set (refresh_families (db w))" "uuid_in e fid = Some (m_id family)"
      using locked_family l Some by auto
    have stored: "stored \<in> set (auth_refresh_tokens (db w))" "t_token_hash stored = hash" and db2: "db w2 = db w"
      using st db1 by (auto simp: FindAuthRefreshTokenByHash_def run_simps dest!: select_one_Some)
    have db4: "db w4 = db w"
      using reads_db [OF auth_service_reads(2) us] tm db2 by (simp add: run_simps)
    have user: "\<forall>u. user = Some u \<longrightarrow> u \<in> set (users (db w)) \<and> u_deleted_at u = None
        \<and> uuid_in e (m_user_id family) = Some (u_id u)"
      using active_user us db2 by metis
    have logs: "adds_logs (db w5) (db w')"
      using wr r(4) by (auto simp: run_simps logging.refl split: if_splits dest: logging.ev_Write [THEN evolvesD])
    have "if dead family stored user now then revoke_family family e w4 = (Inr (), w5)
        else rotate s family stored (the user) now e w4 = (Inr (sr_pair r), w5)"
      using act r(1) by (auto simp: run_parts split: if_splits)
    then show ?thesis
      unfolding refresh_case_def using fam stored db4 user r logs by blast
  qed
qed

lemma sess_logs: "sess_sound e d \<Longrightarrow> adds_logs d d' \<Longrightarrow> wf_db d' \<Longrightarrow> sess_sound e d'"
  by (auto simp: sess_sound_def adds_logs_def canonical_sessions_def sessions_ok_def user_ids_def)

lemma auth_tx_wf [writes]:
  "evolves (keeps wf_db) e (Refresh_tx s p h f)" "evolves (keeps wf_db) e (Logout_tx p f)"
  "evolves (keeps wf_db) e (Login_tx s row)" "evolves (keeps wf_db) e (Register_tx m pw)"
  unfolding Refresh_tx_def Logout_tx_def Login_tx_def Register_tx_def rotate_def revoke_family_def Let_def
  by (intro keeps.ev_rules writes reads [THEN same_keeps] kept.ev_Write)+

lemma Refresh_tx_sess:
  assumes ok: "sess_sound e (db w)" and run: "Refresh_tx s p hash fid e w = (Inr r, w')"
    and fid: "\<And>t. t \<in> set (auth_refresh_tokens (db w)) \<Longrightarrow> t_token_hash t = hash \<Longrightarrow> uuid_in e fid = Some (t_family_id t)"
  shows "sess_sound e (db w')"
  using Refresh_tx_run [OF run]
proof (elim disjE conjE)
  assume "refresh_case e s hash fid w r w'"
  then obtain family stored user now w1 w2 where
    fam: "family \<in> set (refresh_families (db w))" "uuid_in e fid = Some (m_id family)"
    and stored: "stored \<in> set (auth_refresh_tokens (db w))" "t_token_hash stored = hash" and db1: "db w1 = db w"
    and user: "\<And>u. user = Some u \<Longrightarrow> uuid_in e (m_user_id family) = Some (u_id u)"
    and logs: "adds_logs (db w2) (db w')"
    and act: "if dead family stored user now then revoke_family family e w1 = (Inr (), w2)
           else rotate s family stored (the user) now e w1 = (Inr (sr_pair r), w2)"
    unfolding refresh_case_def by blast
  have "sess_sound e (db w2)"
  proof (cases "dead family stored user now")
    case True
    then show ?thesis using act revoke_family_sess [of e w1 family w2] ok db1 fam by simp
  next
    case False
    then obtain u where u: "user = Some u" by (auto simp: dead_def)
    have "m_user_id family \<in> user_ids (db w)"
      using ok fam by (auto simp: sess_sound_def wf_db_def wf_families_def user_ids_def)
    then have "u_id u = m_user_id family"
      using ok user [OF u] by (auto simp: sess_sound_def canonical_sessions_def)
    then show ?thesis
      using False act u fam stored fid [OF stored] ok db1
      by (intro rotate_sess [of e w1 family stored u s now "sr_pair r" w2]) (auto simp: dead_def)
  qed
  moreover have "wf_db (db w')"
    using keeps_run [OF auth_tx_wf(1) run] ok by (simp add: sess_sound_def)
  ultimately show ?thesis using logs by (blast intro: sess_logs)
qed (use ok in simp)

text \<open>The lookup finds the family of the token with this hash.\<close>

lemma Refresh_lookup_run:
  "Refresh_lookup raw e w = (Inr fid, w') \<Longrightarrow> db w' = db w \<and>
   (\<exists>t \<in> set (auth_refresh_tokens (db w)). t_token_hash t = sha256 e raw \<and> t_family_id t = fid)"
  by (auto simp: Refresh_lookup_def LookupAuthRefreshToken_def run_simps dest!: select_one_Some)

lemma hash_inj:
  "wf_db d \<Longrightarrow> t \<in> set (auth_refresh_tokens d) \<Longrightarrow> t' \<in> set (auth_refresh_tokens d) \<Longrightarrow>
   t_token_hash t = t_token_hash t' \<Longrightarrow> t = t'"
  using key_inj [of t_token_hash "auth_refresh_tokens d" t t'] by (simp add: wf_db_def wf_tokens_def)

lemma token_family_canonical:
  assumes "sess_sound e d" and "t \<in> set (auth_refresh_tokens d)"
  shows "uuid_in e (t_family_id t) = Some (t_family_id t)"
proof -
  have "t_family_id t \<in> m_id ` set (refresh_families d)"
    using assms by (auto simp: sess_sound_def wf_db_def wf_tokens_def)
  then show ?thesis using assms(1) by (auto simp: sess_sound_def canonical_sessions_def)
qed

subsection \<open>Every service keeps the sessions in shape\<close>

lemma Refresh_finish_sess:
  assumes ok: "sess_sound e (db w)"
    and fid: "\<And>t. t \<in> set (auth_refresh_tokens (db w)) \<Longrightarrow> t_token_hash t = sha256 e raw \<Longrightarrow> t_family_id t = fid"
    and run: "Refresh_finish s p raw fid e w = (res, w')"
  shows "sess_sound e (db w')"
proof -
  define T where "T = Transaction (Refresh_tx s p (sha256 e raw) fid)"
  define K where "K = (\<lambda>r :: session_result. bindE (if sr_mutated r \<and> pol_Mode p = Optional
         then optionalSessionAudit p (sr_actor r) (sr_behavior r) (sr_change r) else returnE ()) (\<lambda>_.
     if sr_invalid r then failE (New Unauthorized ''Invalid or expired refresh token'')
     else returnE (sr_pair r)))"
  obtain rt w1 where t: "T e w = (rt, w1)" by (cases "T e w")
  have w1: "sess_sound e (db w1)"
  proof (cases rt)
    case (Inl x)
    then show ?thesis using t Transaction_rollback ok unfolding T_def by metis
  next
    case (Inr r)
    then obtain w2 where tx: "Refresh_tx s p (sha256 e raw) fid e (tx_start e w) = (Inr r, w2)" and "db w1 = db w2"
      using t by (auto simp: T_def run_simps tx_start_def)
    moreover have "sess_sound e (db w2)"
      by (rule Refresh_tx_sess [OF _ tx])
         (use ok fid token_family_canonical [OF ok] in \<open>auto simp: tx_start_def\<close>)
    ultimately show ?thesis by simp
  qed
  have K: "evolves (sess_step e) e (K r)" for r
    unfolding K_def optionalSessionAudit_def by (intro sess.ev_rules sess.ev_Write)
  have "Refresh_finish s p raw fid e w = bindE (mapE DB T) K e w"
    by (simp add: Refresh_finish_def T_def K_def bindE_def askE_def)
  then have "sess_step e (db w1) (db w')"
    using run t K [THEN evolvesD, OF sym] by (cases rt) (auto simp: bindE_def mapE_def sess.refl)
  then show ?thesis using w1 by (simp add: sess_step_def)
qed

lemma Refresh_sess: "evolves (sess_step e) e (Refresh s p raw)"
proof -
  have "sess_sound e (db w')" if ok: "sess_sound e (db w)" and run: "Refresh s p raw e w = (res, w')" for w w' res
  proof -
    obtain l w1 where l: "Refresh_lookup raw e w = (l, w1)" by (cases "Refresh_lookup raw e w")
    have db1: "db w1 = db w" using reads_db [OF auth_service_reads(4) l] .
    show ?thesis
    proof (cases l)
      case (Inl x)
      then show ?thesis using run l db1 ok by (simp add: Refresh_def bindE_def)
    next
      case (Inr fid)
      then obtain t0 where t0: "t0 \<in> set (auth_refresh_tokens (db w))" "t_token_hash t0 = sha256 e raw" "t_family_id t0 = fid"
        using Refresh_lookup_run l by blast
      have fin: "Refresh_finish s p raw fid e w1 = (res, w')"
        using run l Inr by (simp add: Refresh_def bindE_def)
      have fid: "t_family_id t = fid"
        if "t \<in> set (auth_refresh_tokens (db w1))" "t_token_hash t = sha256 e raw" for t
        using hash_inj [of "db w" t t0] that t0 db1 ok by (simp add: sess_sound_def)
      show ?thesis by (rule Refresh_finish_sess [OF _ fid fin]) (use ok db1 in simp_all)
    qed
  qed
  then show ?thesis
    by (simp add: evolves_def sess_step_def) (metis prod.collapse)
qed

lemma Logout_tx_sess: "achieves (sess_step e) e (Logout_tx p fid)"
proof (rule achievesI)
  fix w a w'
  assume run: "Logout_tx p fid e w = (Inr a, w')"
  obtain locked w1 where l: "optional_row (LockRefreshFamily fid) e w = (Inr locked, w1)"
    using run unfolding Logout_tx_def run_parts by blast
  have db1: "db w1 = db w" using reads_db [OF auth_service_reads(1) l] .
  consider "w' = w1" | family where "locked = Some family" "m_revoked_at family = None"
    using run l by (cases locked) (auto simp: Logout_tx_def run_parts split: if_splits)
  then show "sess_step e (db w) (db w')"
  proof cases
    case 1
    then show ?thesis using db1 by (simp add: sess.refl)
  next
    case 2
    then obtain user w2 w3 c where us: "optional_row (FindActiveUserByID (m_user_id family)) e w1 = (Inr user, w2)"
      and rev: "revoke_family family e w2 = (Inr (), w3)"
      and wr: "(if pol_Mode p = Required then Write p (map_option actor_of user) ''LOGOUT'' c else returnE ()) e w3 = (Inr (), w')"
      using run l unfolding Logout_tx_def Let_def run_parts by (auto simp: run_parts)
    have db2: "db w2 = db w" using reads_db [OF auth_service_reads(2) us] db1 by simp
    have fam: "family \<in> set (refresh_families (db w2))" using locked_family l 2 db2 by auto
    have "sess_step e (db w2) (db w3)"
      using revoke_family_sess [OF _ fam rev] by (simp add: sess_step_def)
    moreover have "sess_step e (db w3) (db w')"
      using wr sess.ev_Write [THEN evolvesD] by (auto simp: run_simps sess.refl split: if_splits)
    ultimately show ?thesis using db2 sess.trans by metis
  qed
qed

lemma Logout_sess: "evolves (sess_step e) e (Logout p raw)"
  unfolding Logout_def optionalSessionAudit_def
  by (intro sess.ev_rules sess.ev_Transaction_achieves Logout_tx_sess sess.ev_Write sess_same reads)

text \<open>A login starts a new family with one token, which does not outlive it.\<close>

lemma Login_tx_run:
  assumes "Login_tx s row e w = (Inr (pair, c), w')"
  obtains i j n at now where
    "db w' = (db w)\<lparr>refresh_families := refresh_families (db w) @
        [\<lparr>m_id = i, m_user_id = j, m_created_at = at, m_expires_at = now + s_RefreshAbsolute s, m_revoked_at = None\<rparr>],
      auth_refresh_tokens := auth_refresh_tokens (db w) @
        [\<lparr>t_id = n, t_family_id = i, t_user_id = j, t_token_hash = sha256 e (tp_refresh_token pair),
          t_expires_at = idleExpiry s now (now + s_RefreshAbsolute s), t_created_at = at, t_revoked_at = None\<rparr>]\<rparr>"
    and "uuid_in e (u_id row) = Some j" and "\<exists>k. uuid_in e (gen_uuid e k) = Some i" and "\<exists>k. n = gen_uuid e k"
    and "i \<notin> m_id ` set (refresh_families (db w))"
proof -
  obtain now w1 h f w2 w3 where t: "time_Now e w = (Inr now, w1)"
    and iss: "issueTokenPair s (u_id row) (u_email row) (u_role_id row) []
      (idleExpiry s now (now + s_RefreshAbsolute s)) e w1 = (Inr (pair, h, f), w2)"
    and fam: "CreateRefreshFamily f (u_id row) (now + s_RefreshAbsolute s) e w2 = (Inr (), w3)"
    and tok: "CreateAuthRefreshToken f (u_id row) h (tp_refresh_expires_at pair) e w3 = (Inr (), w')"
    using assms unfolding Login_tx_def Let_def run_parts by (auto simp: run_parts split: prod.splits)
  note i = issueTokenPair_run [OF iss]
  have db2: "db w2 = db w" using i(1) t by (simp add: run_simps)
  from fam obtain fi j where fi: "uuid_in e f = Some fi" "uuid_in e (u_id row) = Some j"
    and new: "fi \<notin> m_id ` set (refresh_families (db w))"
    and w3: "txnow w3 = txnow w2" "db w3 = (db w)\<lparr>refresh_families := refresh_families (db w) @
      [\<lparr>m_id = fi, m_user_id = j, m_created_at = txnow w2, m_expires_at = now + s_RefreshAbsolute s,
        m_revoked_at = None\<rparr>]\<rparr>"
    using db2 by (auto simp: CreateRefreshFamily_def run_simps)
  from tok fi have "db w' = (db w3)\<lparr>auth_refresh_tokens := auth_refresh_tokens (db w3) @
      [\<lparr>t_id = gen_uuid e (tick w3), t_family_id = fi, t_user_id = j, t_token_hash = h,
        t_expires_at = tp_refresh_expires_at pair, t_created_at = txnow w3, t_revoked_at = None\<rparr>]\<rparr>"
    by (auto elim!: CreateAuthRefreshToken_run)
  then show thesis
    using that [where i = fi and j = j and n = "gen_uuid e (tick w3)" and at = "txnow w2" and now = now] w3 i fi new by auto
qed

lemma Login_tx_sess: "achieves (sess_step e) e (Login_tx s row)"
proof (rule achievesI)
  fix w a w'
  assume run: "Login_tx s row e w = (Inr a, w')"
  obtain pair c where a: "a = (pair, c)" by (cases a)
  show "sess_step e (db w) (db w')"
    using run [unfolded a]
  proof (rule Login_tx_run)
    fix i j n at now
    let ?m = "\<lparr>m_id = i, m_user_id = j, m_created_at = at, m_expires_at = now + s_RefreshAbsolute s,
      m_revoked_at = None\<rparr>"
    let ?t = "\<lparr>t_id = n, t_family_id = i, t_user_id = j, t_token_hash = sha256 e (tp_refresh_token pair),
      t_expires_at = idleExpiry s now (now + s_RefreshAbsolute s), t_created_at = at, t_revoked_at = None\<rparr>"
    let ?d = "(db w)\<lparr>refresh_families := refresh_families (db w) @ [?m]\<rparr>"
    assume w': "db w' = (db w)\<lparr>refresh_families := refresh_families (db w) @ [?m],
        auth_refresh_tokens := auth_refresh_tokens (db w) @ [?t]\<rparr>"
      and j: "uuid_in e (u_id row) = Some j" and i: "\<exists>k. uuid_in e (gen_uuid e k) = Some i"
      and n: "\<exists>k. n = gen_uuid e k" and new: "i \<notin> m_id ` set (refresh_families (db w))"
    have "sess_sound e (db w')" if ok: "sess_sound e (db w)"
    proof -
      have wf': "wf_db (db w')" using keeps_run [OF auth_tx_wf(3) run] ok by (simp add: sess_sound_def)
      have fresh: "t_family_id t \<noteq> i" if "t \<in> set (auth_refresh_tokens (db w))" for t
        using ok new that by (auto simp: sess_sound_def wf_db_def wf_tokens_def)
      have jd: "j \<in> u_id ` set (users (db w))"
        using wf' by (simp add: w' wf_db_def wf_families_def)
      have "wf_db ?d" by (rule wf_add_family) (use ok new jd in \<open>simp_all add: sess_sound_def\<close>)
      moreover have "canonical_sessions e ?d"
        using ok i by (auto simp: sess_sound_def canonical_sessions_def user_ids_def uuid_laws_def)
      moreover have "sessions_ok ?d"
        using ok fresh by (auto simp: sess_sound_def sessions_ok_def)
      ultimately have d: "sess_sound e ?d" using ok by (simp add: sess_sound_def)
      have w'': "db w' = ?d\<lparr>auth_refresh_tokens := auth_refresh_tokens ?d @ [?t]\<rparr>" by (simp add: w')
      show ?thesis
        unfolding w'' by (rule add_token [OF d, where m = ?m])
          (use wf' w'' n ok fresh in \<open>auto simp: idleExpiry_def Let_def sess_sound_def uuid_laws_def\<close>)
    qed
    then show ?thesis by (simp add: sess_step_def)
  qed
qed

lemma auth_sess:
  "evolves (sess_step e) e (Login s p m pw)" "evolves (sess_step e) e (Register p m pw)"
  unfolding Login_def Register_def Register_tx_def
  by (intro sess.ev_rules sess.ev_Mutate Login_tx_sess evolves_achieves CreateUser_sess sess_same reads)+

end
