(* ===== verification/OutboxSafety.thy ===== *)
theory OutboxSafety
  imports OutboxWorker NotificationService SessionSafety
begin

text \<open>
  The invariant of the e-mail outbox and how jobs move.  A job keeps what it was created with and
  never loses attempts; a job that is SENT or FAILED does not change any more; the status a
  notification shows is the status of its job; and no job is attempted more often than the
  configuration allows.  \<open>outbox_step\<close> relates the database before and after an operation.
\<close>

definition completed_status :: "bytes \<Rightarrow> bool" where
  "completed_status s \<longleftrightarrow> s = ''SENT'' \<or> s = ''FAILED''"

definition same_job :: "email_job \<Rightarrow> email_job \<Rightarrow> bool" where
  "same_job j j' \<longleftrightarrow> j_id j' = j_id j \<and> j_notification_id j' = j_notification_id j
     \<and> j_recipient j' = j_recipient j \<and> j_title j' = j_title j \<and> j_body j' = j_body j
     \<and> j_created_at j' = j_created_at j"

definition advances :: "email_job \<Rightarrow> email_job \<Rightarrow> bool" where
  "advances j j' \<longleftrightarrow> same_job j j' \<and> j_attempts j \<le> j_attempts j'
     \<and> (completed_status (j_status j) \<longrightarrow> j' = j)"

definition shown_status :: "bytes \<Rightarrow> bytes" where
  "shown_status s = (if completed_status s then s else ''PENDING'')"

definition agree :: "database \<Rightarrow> bool" where
  "agree d \<longleftrightarrow> (\<forall>j \<in> set (email_jobs d). \<forall>n \<in> set (notifications d).
     n_id n = j_notification_id j \<longrightarrow> n_email_status n = shown_status (j_status j))"

definition canonical_outbox :: "env \<Rightarrow> database \<Rightarrow> bool" where
  "canonical_outbox e d \<longleftrightarrow>
     (\<forall>i \<in> j_id ` set (email_jobs d) \<union> n_id ` set (notifications d). uuid_in e i = Some i)"

definition outbox_sound :: "env \<Rightarrow> operations \<Rightarrow> database \<Rightarrow> bool" where
  "outbox_sound e c d \<longleftrightarrow> uuid_laws e \<and> wf_db d \<and> canonical_outbox e d \<and> agree d
     \<and> 0 < op_MaxAttempts c
     \<and> (\<forall>j \<in> set (email_jobs d). 0 \<le> j_attempts j \<and> j_attempts j \<le> op_MaxAttempts c)"

definition jobs_advance :: "database \<Rightarrow> database \<Rightarrow> bool" where
  "jobs_advance d d' \<longleftrightarrow> (\<forall>j \<in> set (email_jobs d). \<exists>j' \<in> set (email_jobs d'). advances j j')"

definition outbox_step :: "env \<Rightarrow> operations \<Rightarrow> database \<Rightarrow> database \<Rightarrow> bool" where
  "outbox_step e c d d' \<longleftrightarrow> (outbox_sound e c d \<longrightarrow> outbox_sound e c d' \<and> jobs_advance d d')"

lemma advances_refl [simp]: "advances j j"
  by (simp add: advances_def same_job_def)

lemma advances_trans: "advances i j \<Longrightarrow> advances j k \<Longrightarrow> advances i k"
  unfolding advances_def same_job_def by force

lemma jobs_advance_trans: "jobs_advance a b \<Longrightarrow> jobs_advance b c \<Longrightarrow> jobs_advance a c"
  unfolding jobs_advance_def using advances_trans by blast

lemma jobs_advance_same: "email_jobs d' = email_jobs d \<Longrightarrow> jobs_advance d d'"
  unfolding jobs_advance_def using advances_refl by metis

lemmas jobs_advance_refl = jobs_advance_same [OF HOL.refl]

lemma outbox_view_step:
  "evolves (keeps wf_db) e m \<Longrightarrow> evolves (fixed outbox_view) e m \<Longrightarrow> evolves (outbox_step e' c) e m"
  by (auto simp: evolves_def keeps_def fixed_def outbox_view_def outbox_step_def outbox_sound_def
      canonical_outbox_def agree_def intro: jobs_advance_same)

interpretation outbox: audited "outbox_step e c"
  by (intro audited.intro evolution.intro audited_axioms.intro outbox_view_step InsertAudit_wf frames)
     (auto simp: outbox_step_def jobs_advance_refl dest: jobs_advance_trans)

lemma outbox_same: "evolves (=) e m \<Longrightarrow> evolves (outbox_step e' c) e m"
  by (rule evolves_same [OF _ outbox.evolution_axioms])

subsection \<open>Updating one job\<close>

lemma job_unique:
  "wf_db d \<Longrightarrow> j \<in> set (email_jobs d) \<Longrightarrow> j' \<in> set (email_jobs d) \<Longrightarrow> j_id j = j_id j' \<Longrightarrow> j = j'"
  "wf_db d \<Longrightarrow> j \<in> set (email_jobs d) \<Longrightarrow> j' \<in> set (email_jobs d) \<Longrightarrow>
   j_notification_id j = j_notification_id j' \<Longrightarrow> j = j'"
  using key_inj [of j_id "email_jobs d" j j'] key_inj [of j_notification_id "email_jobs d" j j']
  by (auto simp: wf_db_def wf_jobs_def)

text \<open>
  A job that is not completed takes a new state; if that completes it, its notification shows
  the new status.
\<close>

lemma job_update:
  assumes ok: "outbox_sound e c d" and j: "j \<in> set (email_jobs d)" "\<not> completed_status (j_status j)"
    and same: "\<And>x. same_job x (f x)" and st: "j_status (f j) \<in> set job_statuses"
    and att: "j_attempts j \<le> j_attempts (f j)" "j_attempts (f j) \<le> op_MaxAttempts c"
    and ns: "ns = (if completed_status (j_status (f j))
      then update_where (\<lambda>n. n_id n = j_notification_id j) (\<lambda>n. n\<lparr>n_email_status := j_status (f j)\<rparr>) (notifications d)
      else notifications d)"
  defines "d' \<equiv> d\<lparr>email_jobs := update_where (\<lambda>x. j_id x = j_id j) f (email_jobs d), notifications := ns\<rparr>"
  shows "outbox_sound e c d'" and "jobs_advance d d'"
proof -
  from ok have wf: "wf_db d" and ag: "agree d" and can: "canonical_outbox e d"
    and bound: "\<And>x. x \<in> set (email_jobs d) \<Longrightarrow> 0 \<le> j_attempts x \<and> j_attempts x \<le> op_MaxAttempts c"
    by (auto simp: outbox_sound_def)
  have id: "j_id (f x) = j_id x" "j_notification_id (f x) = j_notification_id x" for x
    using same [of x] by (simp_all add: same_job_def)
  have uniq: "x = j" if "x \<in> set (email_jobs d)" "j_id x = j_id j" for x
    using job_unique(1) [OF wf that(1) j(1) that(2)] .
  have jobs: "y \<in> set (email_jobs d') \<Longrightarrow> y = f j \<or> (y \<in> set (email_jobs d) \<and> j_id y \<noteq> j_id j)" for y
    using uniq unfolding d'_def by (simp add: set_update_where split: if_splits) (metis id(1))
  have "wf_db (d\<lparr>email_jobs := update_where (\<lambda>x. j_id x = j_id j) f (email_jobs d)\<rparr>)"
    using uniq st by (intro wf_update_jobs [OF wf]) (auto simp: id)
  moreover have "wf_db (x\<lparr>notifications := ns\<rparr>)" if "wf_db x" "notifications x = notifications d" for x
    using that st unfolding ns
    by (auto simp: completed_status_def email_statuses_def that(2) [symmetric] intro!: wf_update_notifications)
  ultimately have wf': "wf_db d'" unfolding d'_def by simp
  have nids: "n_id ` set ns = n_id ` set (notifications d)"
    unfolding ns by (simp add: row_simps)
  have can': "canonical_outbox e d'"
    using can nids image_update_where [of j_id f "\<lambda>x. j_id x = j_id j" "email_jobs d", OF id(1)]
    by (simp add: canonical_outbox_def d'_def)
  have "n_email_status n = shown_status (j_status x)"
    if x: "x \<in> set (email_jobs d')" and n: "n \<in> set ns" "n_id n = j_notification_id x" for x n
  proof -
    obtain m where m: "m \<in> set (notifications d)" "n_id m = n_id n"
      and upd: "n = (if completed_status (j_status (f j)) \<and> n_id m = j_notification_id j
        then m\<lparr>n_email_status := j_status (f j)\<rparr> else m)"
      using n(1) unfolding ns by (auto simp: set_update_where split: if_splits)
    from jobs [OF x] show ?thesis
    proof
      assume x: "x = f j"
      then have nid: "n_id m = j_notification_id j" using n(2) m(2) by (simp add: id)
      then have "n_email_status m = ''PENDING''"
        using ag j m(1) by (simp add: agree_def shown_status_def)
      then show ?thesis using upd nid by (simp add: x shown_status_def)
    next
      assume y: "x \<in> set (email_jobs d) \<and> j_id x \<noteq> j_id j"
      then have "j_notification_id x \<noteq> j_notification_id j" using job_unique(2) [OF wf _ j(1)] by blast
      then have "n_id m \<noteq> j_notification_id j" using n(2) m(2) by simp
      then have "n = m" using upd by simp
      then show ?thesis using n(2) m(1) ag y by (simp add: agree_def)
    qed
  qed
  then have "agree d'" by (simp add: agree_def d'_def)
  moreover have "0 \<le> j_attempts x \<and> j_attempts x \<le> op_MaxAttempts c" if "x \<in> set (email_jobs d')" for x
    using jobs [OF that]
  proof
    assume "x = f j"
    then show ?thesis using att bound [OF j(1)] by simp
  next
    assume "x \<in> set (email_jobs d) \<and> j_id x \<noteq> j_id j"
    then show ?thesis using bound by blast
  qed
  ultimately show "outbox_sound e c d'"
    using ok wf' can' by (simp add: outbox_sound_def)
  show "jobs_advance d d'"
    unfolding jobs_advance_def
  proof
    fix x assume x: "x \<in> set (email_jobs d)"
    let ?y = "if j_id x = j_id j then f x else x"
    have "?y \<in> set (email_jobs d')" using x by (auto simp: d'_def set_update_where)
    moreover have "advances x ?y" using uniq [OF x] j(2) att same [of j] by (auto simp: advances_def same_job_def)
    ultimately show "\<exists>j' \<in> set (email_jobs d'). advances x j'" by blast
  qed
qed

subsection \<open>The worker\<close>

lemma claimable_job:
  assumes "ClaimableEmail now e w = (Inr job, w')"
  shows "job \<in> set (email_jobs (db w))" and "claimable now job" and "db w' = db w"
    and "\<forall>x \<in> set (email_jobs (db w)). claimable now x \<longrightarrow> j_available_at job \<le> j_available_at x"
proof -
  let ?xs = "sort_key j_available_at (sort_key j_id (filter (claimable now) (email_jobs (db w))))"
  obtain js where js: "?xs = job # js" and db: "db w' = db w"
    using assms by (auto simp: ClaimableEmail_def run_simps split: list.splits)
  have "set ?xs = {x \<in> set (email_jobs (db w)). claimable now x}" by auto
  then have xs: "insert job (set js) = {x \<in> set (email_jobs (db w)). claimable now x}" by (simp add: js)
  then show "job \<in> set (email_jobs (db w))" "claimable now job" "db w' = db w" using db by auto
  have "sorted (map j_available_at (job # js))" unfolding js [symmetric] by simp
  then show "\<forall>x \<in> set (email_jobs (db w)). claimable now x \<longrightarrow> j_available_at job \<le> j_available_at x"
    using xs by auto
qed

lemma ClaimableEmail_none:
  assumes "ClaimableEmail now e w = (Inl x, w')"
  shows "(\<exists>n. fault_at e n \<noteq> None) \<or> (\<forall>j \<in> set (email_jobs (db w)). \<not> claimable now j)"
proof (cases "fault_at e (tick w)")
  case None
  let ?xs = "sort_key j_available_at (sort_key j_id (filter (claimable now) (email_jobs (db w))))"
  have "?xs = []"
    using assms None by (auto simp: ClaimableEmail_def stmt_def select_row_def split: list.splits)
  then have "set ?xs = {}" by (simp only: list.set)
  then show ?thesis by auto
qed auto

lemma claimable_open: "claimable now j \<Longrightarrow> \<not> completed_status (j_status j)"
  by (auto simp: claimable_def completed_status_def)

lemma outbox_ids:
  "outbox_sound e c d \<Longrightarrow> j \<in> set (email_jobs d) \<Longrightarrow> uuid_in e (j_id j) = Some (j_id j)"
  "outbox_sound e c d \<Longrightarrow> j \<in> set (email_jobs d) \<Longrightarrow> uuid_in e (j_notification_id j) = Some (j_notification_id j)"
  by (auto simp: outbox_sound_def canonical_outbox_def wf_db_def wf_jobs_def)

text \<open>Recording a final status: the job and its notification.\<close>

lemma complete_run:
  assumes ok: "outbox_sound e c (db w)" and j: "job \<in> set (email_jobs (db w))" "\<not> completed_status (j_status job)"
    and st: "completed_status st"
    and run: "CompleteEmail (j_id job) st av ct e w = (Inr (), w1)"
      "SetNotificationEmailStatus (j_notification_id job) st e w1 = (Inr (), w2)"
  shows "outbox_sound e c (db w2)" and "jobs_advance (db w) (db w2)"
    and "db w2 = (db w)\<lparr>email_jobs := update_where (\<lambda>x. j_id x = j_id job) (complete_update st av ct) (email_jobs (db w)),
      notifications := update_where (\<lambda>n. n_id n = j_notification_id job) (\<lambda>n. n\<lparr>n_email_status := st\<rparr>) (notifications (db w))\<rparr>"
proof -
  show w2: "db w2 = (db w)\<lparr>email_jobs := update_where (\<lambda>x. j_id x = j_id job) (complete_update st av ct) (email_jobs (db w)),
      notifications := update_where (\<lambda>n. n_id n = j_notification_id job) (\<lambda>n. n\<lparr>n_email_status := st\<rparr>) (notifications (db w))\<rparr>"
    using run outbox_ids [OF ok j(1)]
    by (auto simp: CompleteEmail_def SetNotificationEmailStatus_def run_simps)
  have "j_attempts job \<le> op_MaxAttempts c" using ok j(1) by (simp add: outbox_sound_def)
  moreover have "st \<in> set job_statuses" using st by (auto simp: completed_status_def job_statuses_def)
  ultimately show "outbox_sound e c (db w2)" "jobs_advance (db w) (db w2)"
    unfolding w2
    by (intro job_update [OF ok j]; simp add: complete_update_def same_job_def st)+
qed

text \<open>What a committed claim did: nothing, give up on an exhausted job, or lease one.\<close>

definition claim_case :: "env \<Rightarrow> operations \<Rightarrow> database \<Rightarrow> email_job option \<Rightarrow> database \<Rightarrow> bool" where
  "claim_case e c d r d' \<longleftrightarrow> (\<exists>now \<in> range (app_now e).
     (r = None \<and> d' = d \<and> ((\<exists>n. fault_at e n \<noteq> None) \<or> (\<forall>j \<in> set (email_jobs d). \<not> claimable now j)))
   \<or> (\<exists>job \<in> set (email_jobs d). claimable now job
      \<and> (\<forall>x \<in> set (email_jobs d). claimable now x \<longrightarrow> j_available_at job \<le> j_available_at x)
      \<and> (if j_attempts job \<ge> op_MaxAttempts c
         then r = None \<and> d' = d\<lparr>email_jobs := update_where (\<lambda>x. j_id x = j_id job)
              (complete_update ''FAILED'' (j_available_at job) (Some now)) (email_jobs d),
            notifications := update_where (\<lambda>n. n_id n = j_notification_id job)
              (\<lambda>n. n\<lparr>n_email_status := ''FAILED''\<rparr>) (notifications d)\<rparr>
         else \<exists>tk. r = Some (claim_update (gen_uuid e tk) (now + op_LeaseSeconds c * 1000) job)
           \<and> d' = d\<lparr>email_jobs := update_where (\<lambda>x. j_id x = j_id job)
              (claim_update (gen_uuid e tk) (now + op_LeaseSeconds c * 1000)) (email_jobs d)\<rparr>)))"

lemma claim_update_fields [simp]:
  "j_id (claim_update l u j) = j_id j" "j_notification_id (claim_update l u j) = j_notification_id j"
  "j_attempts (claim_update l u j) = j_attempts j + 1" "j_status (claim_update l u j) = ''PROCESSING''"
  "j_lease_id (claim_update l u j) = Some l" "j_lease_until (claim_update l u j) = Some u"
  by (simp_all add: claim_update_def)

lemma select_updated_job:
  assumes "wf_db d" and "job \<in> set (email_jobs d)" and "\<And>x. j_id (f x) = j_id x"
  shows "select_one (\<lambda>x. j_id x = j_id job) (update_where (\<lambda>x. j_id x = j_id job) f (email_jobs d)) = Some (f job)"
proof (rule select_one_key)
  show "distinct (map j_id (update_where (\<lambda>x. j_id x = j_id job) f (email_jobs d)))"
    using assms(1) map_update_where [of j_id f, OF assms(3)] by (simp add: wf_db_def wf_jobs_def)
  show "f job \<in> set (update_where (\<lambda>x. j_id x = j_id job) f (email_jobs d))"
    using assms(2) by (auto simp: set_update_where)
qed (rule assms)

lemma claim_tx_case:
  assumes ok: "outbox_sound e c (db w)" and run: "claim_tx c e w = (Inr r, w')"
  shows "claim_case e c (db w) r (db w')"
proof -
  from run obtain now w1 found w2 where now: "time_Now e w = (Inr now, w1)"
    and l: "optional_row (ClaimableEmail now) e w1 = (Inr found, w2)"
    unfolding claim_tx_def run_parts by blast
  have db1: "db w1 = db w" and clock: "now \<in> range (app_now e)" using now by (auto simp: time_Now_def)
  show ?thesis
  proof (cases found)
    case None
    then have "r = None" "w' = w2" using run now l by (auto simp: claim_tx_def run_simps)
    moreover have "evolves (=) e (optional_row (ClaimableEmail now))" by (intro same.ev_rules reads)
    then have "db w2 = db w1" using l by (rule reads_db)
    moreover have "(\<exists>n. fault_at e n \<noteq> None) \<or> (\<forall>j \<in> set (email_jobs (db w)). \<not> claimable now j)"
      using ClaimableEmail_none [of now e w1] l None db1 by (auto simp: run_optional_row)
    ultimately show ?thesis unfolding claim_case_def using db1 by (intro bexI [OF _ clock]) simp
  next
    case (Some job)
    then have "ClaimableEmail now e w1 = (Inr job, w2)" using l by (simp add: run_optional_row)
    note job = claimable_job [OF this, unfolded db1]
    have ids: "uuid_in e (j_id job) = Some (j_id job)" using outbox_ids [OF ok job(1)] by simp
    have wf: "wf_db (db w)" using ok by (simp add: outbox_sound_def)
    show ?thesis
    proof (cases "j_attempts job \<ge> op_MaxAttempts c")
      case True
      obtain w3 where "CompleteEmail (j_id job) ''FAILED'' (j_available_at job) (Some now) e w2 = (Inr (), w3)"
        "SetNotificationEmailStatus (j_notification_id job) ''FAILED'' e w3 = (Inr (), w')" and r: "r = None"
        using run now l Some True unfolding claim_tx_def run_parts by (auto simp: run_parts)
      then have "db w' = (db w2)\<lparr>email_jobs := update_where (\<lambda>x. j_id x = j_id job)
              (complete_update ''FAILED'' (j_available_at job) (Some now)) (email_jobs (db w2)),
            notifications := update_where (\<lambda>n. n_id n = j_notification_id job)
              (\<lambda>n. n\<lparr>n_email_status := ''FAILED''\<rparr>) (notifications (db w2))\<rparr>"
        using complete_run(3) [of e c w2] ok job claimable_open by (simp add: completed_status_def)
      then show ?thesis unfolding claim_case_def using job True r by (intro bexI [OF _ clock]) auto
    next
      case False
      obtain lease w3 w4 claimed where lease: "NewString e w2 = (Inr lease, w3)"
        and cl: "ClaimEmail lease (now + op_LeaseSeconds c * 1000) (j_id job) e w3 = (Inr (), w4)"
        and lk: "LockEmail (j_id job) e w4 = (Inr claimed, w')" and r: "r = Some claimed"
        using run now l Some False unfolding claim_tx_def run_parts by (auto simp: run_parts)
      let ?f = "claim_update lease (now + op_LeaseSeconds c * 1000)"
      have lease': "lease = gen_uuid e (tick w2)" "w3 = bump w2" using lease by (auto simp: NewString_def)
      have "uuid_in e lease = Some lease" using ok lease' by (simp add: outbox_sound_def uuid_laws_def)
      then have w4: "db w4 = (db w)\<lparr>email_jobs := update_where (\<lambda>x. j_id x = j_id job) ?f (email_jobs (db w))\<rparr>"
        using cl ids lease' job(3) by (auto simp: ClaimEmail_def run_simps split: if_splits)
      have "db w' = db w4" "select_one (\<lambda>x. j_id x = j_id job) (email_jobs (db w4)) = Some claimed"
        using lk ids by (auto simp: LockEmail_def run_simps)
      then have "db w' = db w4" "claimed = ?f job"
        using select_updated_job [OF wf job(1), of ?f] by (simp_all add: w4)
      then show ?thesis unfolding claim_case_def using job False r w4 lease' by (intro bexI [OF _ clock]) auto
    qed
  qed
qed

lemma claim_case_step:
  assumes ok: "outbox_sound e c d" and cc: "claim_case e c d r d'"
  shows "outbox_sound e c d' \<and> jobs_advance d d'"
proof -
  consider "d' = d" | job now where "job \<in> set (email_jobs d)" "claimable now job"
      "d' = d\<lparr>email_jobs := update_where (\<lambda>x. j_id x = j_id job)
              (complete_update ''FAILED'' (j_available_at job) (Some now)) (email_jobs d),
            notifications := update_where (\<lambda>n. n_id n = j_notification_id job)
              (\<lambda>n. n\<lparr>n_email_status := ''FAILED''\<rparr>) (notifications d)\<rparr>"
    | job now l t where "job \<in> set (email_jobs d)" "claimable now job" "j_attempts job < op_MaxAttempts c"
      "d' = d\<lparr>email_jobs := update_where (\<lambda>x. j_id x = j_id job) (claim_update l t) (email_jobs d),
          notifications := notifications d\<rparr>"
    using cc unfolding claim_case_def by (auto split: if_splits)
  then show ?thesis
  proof cases
    case 1
    then show ?thesis using ok jobs_advance_refl by simp
  next
    case 2
    have "j_attempts job \<le> op_MaxAttempts c" using ok 2(1) by (simp add: outbox_sound_def)
    then show ?thesis
      unfolding 2(3) by (intro conjI job_update [OF ok 2(1) claimable_open [OF 2(2)]])
        (simp_all add: complete_update_def same_job_def job_statuses_def completed_status_def)
  next
    case 3
    show ?thesis
      unfolding 3(4) using 3(3) by (intro conjI job_update [OF ok 3(1) claimable_open [OF 3(2)]])
        (simp_all add: same_job_def job_statuses_def completed_status_def claim_update_def)
  qed
qed

lemma claim_step: "evolves (outbox_step e c) e (claim c)"
  unfolding claim_def
  by (intro outbox.ev_Transaction_achieves achievesI)
    (auto simp: outbox_step_def dest: claim_tx_case claim_case_step)

text \<open>What a committed completion did: nothing unless the worker still held the lease.\<close>

definition finish_case :: "env \<Rightarrow> operations \<Rightarrow> email_job \<Rightarrow> bool \<Rightarrow> database \<Rightarrow> bytes \<Rightarrow> database \<Rightarrow> bool" where
  "finish_case e c job success d outcome d' \<longleftrightarrow> (outcome = [] \<and> d' = d)
   \<or> (\<exists>now \<in> range (app_now e). \<exists>current \<in> set (email_jobs d). j_id current = j_id job \<and> holds_lease job current now
      \<and> (if success \<or> j_attempts job \<ge> op_MaxAttempts c
         then outcome = (if success then ''SENT'' else ''FAILED'')
           \<and> d' = d\<lparr>email_jobs := update_where (\<lambda>x. j_id x = j_id job)
                (complete_update outcome now (Some now)) (email_jobs d),
              notifications := update_where (\<lambda>n. n_id n = j_notification_id job)
                (\<lambda>n. n\<lparr>n_email_status := outcome\<rparr>) (notifications d)\<rparr>
         else outcome = ''RETRY''
           \<and> d' = d\<lparr>email_jobs := update_where (\<lambda>x. j_id x = j_id job)
                (complete_update ''PENDING'' (now + retry_delay (j_attempts job)) None) (email_jobs d)\<rparr>))"

lemma finish_tx_case:
  assumes ok: "outbox_sound e c (db w)" and run: "finish_tx c job success e w = (Inr r, w')"
    and ids: "uuid_in e (j_id job) = Some (j_id job)"
      "uuid_in e (j_notification_id job) = Some (j_notification_id job)"
  shows "finish_case e c job success (db w) r (db w')"
proof -
  obtain found w1 where l: "optional_row (LockEmail (j_id job)) e w = (Inr found, w1)"
    using run unfolding finish_tx_def run_parts by blast
  have "evolves (=) e (optional_row (LockEmail (j_id job)))" by (intro same.ev_rules reads)
  then have db1: "db w1 = db w" using l by (rule reads_db)
  show ?thesis
  proof (cases found)
    case None
    then show ?thesis using run l db1 by (auto simp: finish_tx_def run_simps finish_case_def)
  next
    case (Some current)
    then have "select_one (\<lambda>x. j_id x = j_id job) (email_jobs (db w)) = Some current"
      using l ids by (auto simp: run_optional_row LockEmail_def run_simps)
    then have cur: "current \<in> set (email_jobs (db w))" "j_id current = j_id job"
      by (auto dest: select_one_Some)
    obtain now w2 where now: "time_Now e w1 = (Inr now, w2)"
      using run l Some unfolding finish_tx_def run_parts by (auto simp: run_parts)
    have db2: "db w2 = db w" and clock: "now \<in> range (app_now e)" using now db1 by (auto simp: time_Now_def)
    show ?thesis
    proof (cases "holds_lease job current now")
      case False
      then show ?thesis using run l Some now db2 by (auto simp: finish_tx_def run_simps finish_case_def)
    next
      case True
      define st where "st = (if success then ''SENT'' else ''FAILED'')"
      show ?thesis
      proof (cases "success \<or> j_attempts job \<ge> op_MaxAttempts c")
        case t: True
        then obtain w3 where "CompleteEmail (j_id job) st now (Some now) e w2 = (Inr (), w3)"
          "SetNotificationEmailStatus (j_notification_id job) st e w3 = (Inr (), w')" and r: "r = st"
          using run l Some now True unfolding finish_tx_def run_parts
          by (auto simp: run_parts Let_def st_def split: if_splits)
        then have "db w' = (db w)\<lparr>email_jobs := update_where (\<lambda>x. j_id x = j_id job)
                (complete_update st now (Some now)) (email_jobs (db w)),
              notifications := update_where (\<lambda>n. n_id n = j_notification_id job)
                (\<lambda>n. n\<lparr>n_email_status := st\<rparr>) (notifications (db w))\<rparr>"
          using ids db2 by (auto simp: CompleteEmail_def SetNotificationEmailStatus_def run_simps)
        then show ?thesis unfolding finish_case_def using cur True t r st_def clock by auto
      next
        case nt: False
        then have "CompleteEmail (j_id job) ''PENDING'' (now + retry_delay (j_attempts job)) None e w2 = (Inr (), w')"
          and r: "r = ''RETRY''"
          using run l Some now True unfolding finish_tx_def run_parts by (auto simp: run_parts Let_def)
        then have "db w' = (db w)\<lparr>email_jobs := update_where (\<lambda>x. j_id x = j_id job)
                (complete_update ''PENDING'' (now + retry_delay (j_attempts job)) None) (email_jobs (db w))\<rparr>"
          using ids db2 by (auto simp: CompleteEmail_def run_simps)
        then show ?thesis unfolding finish_case_def using cur True nt r clock by auto
      qed
    qed
  qed
qed

text \<open>A copy of a stored job, as a worker holds it while it delivers.\<close>

definition known :: "database \<Rightarrow> email_job \<Rightarrow> bool" where
  "known d job \<longleftrightarrow> (\<exists>j \<in> set (email_jobs d). same_job j job)"

lemma known_advance: "known d job \<Longrightarrow> jobs_advance d d' \<Longrightarrow> known d' job"
  unfolding known_def jobs_advance_def advances_def same_job_def by metis

lemma known_ids:
  assumes "outbox_sound e c d" and "known d job"
  shows "uuid_in e (j_id job) = Some (j_id job)" "uuid_in e (j_notification_id job) = Some (j_notification_id job)"
  using assms outbox_ids [OF assms(1)] by (auto simp: known_def same_job_def)

lemma holds_lease_open: "holds_lease job current now \<Longrightarrow> \<not> completed_status (j_status current)"
  by (auto simp: holds_lease_def completed_status_def)

lemma complete_update_fields [simp]:
  "same_job j (complete_update st av ct j)" "j_attempts (complete_update st av ct j) = j_attempts j"
  "j_status (complete_update st av ct j) = st"
  by (simp_all add: complete_update_def same_job_def)

lemma finish_case_step:
  assumes ok: "outbox_sound e c d" and known: "known d job"
    and fc: "finish_case e c job success d r d'"
  shows "outbox_sound e c d' \<and> jobs_advance d d'"
proof -
  consider "d' = d" | current now st av ct where "current \<in> set (email_jobs d)" "j_id job = j_id current"
      "holds_lease job current now" "st \<in> set job_statuses"
      "d' = d\<lparr>email_jobs := update_where (\<lambda>x. j_id x = j_id current) (complete_update st av ct) (email_jobs d),
        notifications := (if completed_status st then update_where (\<lambda>n. n_id n = j_notification_id job)
            (\<lambda>n. n\<lparr>n_email_status := st\<rparr>) (notifications d) else notifications d)\<rparr>"
  proof (cases "d' = d")
    case False
    with fc obtain now current where cur: "current \<in> set (email_jobs d)" "j_id current = j_id job"
        "holds_lease job current now"
      and upd: "if success \<or> j_attempts job \<ge> op_MaxAttempts c
         then r = (if success then ''SENT'' else ''FAILED'')
           \<and> d' = d\<lparr>email_jobs := update_where (\<lambda>x. j_id x = j_id job)
                (complete_update r now (Some now)) (email_jobs d),
              notifications := update_where (\<lambda>n. n_id n = j_notification_id job)
                (\<lambda>n. n\<lparr>n_email_status := r\<rparr>) (notifications d)\<rparr>
         else r = ''RETRY''
           \<and> d' = d\<lparr>email_jobs := update_where (\<lambda>x. j_id x = j_id job)
                (complete_update ''PENDING'' (now + retry_delay (j_attempts job)) None) (email_jobs d)\<rparr>"
      unfolding finish_case_def by blast
    show thesis
    proof (cases "success \<or> j_attempts job \<ge> op_MaxAttempts c")
      case True
      then show thesis
        using that(2) [OF cur(1) cur(2) [symmetric] cur(3), of r now "Some now"] upd cur(2)
        by (auto simp: job_statuses_def completed_status_def)
    next
      case False
      then show thesis
        using that(2) [OF cur(1) cur(2) [symmetric] cur(3), of "''PENDING''" "now + retry_delay (j_attempts job)" None] upd cur(2)
        by (auto simp: job_statuses_def completed_status_def)
    qed
  qed simp
  then show ?thesis
  proof cases
    case 1
    then show ?thesis using ok jobs_advance_refl by simp
  next
    case 2
    obtain j where "j \<in> set (email_jobs d)" "same_job j job" using known by (auto simp: known_def)
    then have "j = current" "j_notification_id job = j_notification_id j"
      using job_unique(1) [of d j current] 2(1,2) ok by (auto simp: outbox_sound_def same_job_def)
    then have nid: "j_notification_id job = j_notification_id current" by simp
    have "j_attempts current \<le> op_MaxAttempts c" using ok 2(1) by (simp add: outbox_sound_def)
    then show ?thesis
      unfolding 2(5) nid
      by (intro conjI job_update [OF ok 2(1) holds_lease_open [OF 2(3)]]) (simp_all add: 2(4))
  qed
qed

lemma finish_run:
  assumes ok: "outbox_sound e c (db w)" "known (db w) job" and run: "finish c job success e w = (r, w')"
  shows "outbox_sound e c (db w') \<and> jobs_advance (db w) (db w')"
proof (cases r)
  case (Inl x)
  then have "db w' = db w" using run Transaction_rollback by (auto simp: finish_def)
  then show ?thesis using ok jobs_advance_refl by simp
next
  case (Inr a)
  then obtain w1 where "finish_tx c job success e (tx_start e w) = (Inr a, w1)" "db w' = db w1"
    using run by (auto simp: finish_def run_simps tx_start_def)
  then show ?thesis
    using finish_tx_case [of e c "tx_start e w" job success a w1] known_ids [OF ok]
      finish_case_step [OF ok, of success a] ok by simp
qed

subsection \<open>Renewals\<close>

lemma quiet_update:
  assumes ok: "outbox_sound e c d" and P: "\<And>j. P j \<Longrightarrow> \<not> completed_status (j_status j)"
    and f: "\<And>j. same_job j (f j)" "\<And>j. j_status (f j) = j_status j" "\<And>j. j_attempts (f j) = j_attempts j"
  defines "d' \<equiv> d\<lparr>email_jobs := update_where P f (email_jobs d)\<rparr>"
  shows "outbox_sound e c d' \<and> jobs_advance d d'"
proof -
  from ok have wf: "wf_db d" by (simp add: outbox_sound_def)
  have id: "j_id (f j) = j_id j" "j_notification_id (f j) = j_notification_id j" for j
    using f(1) [of j] by (simp_all add: same_job_def)
  have "wf_db d'" unfolding d'_def
    by (rule wf_update_jobs [OF wf]) (simp_all add: id f(2) wf_job_status [OF wf])
  moreover have "j_id ` set (email_jobs d') = j_id ` set (email_jobs d)"
    unfolding d'_def by (simp add: row_simps id)
  then have "canonical_outbox e d'" using ok by (simp add: outbox_sound_def canonical_outbox_def d'_def)
  moreover have "agree d'" using ok by (simp add: outbox_sound_def agree_def d'_def ball_update_where id f(2))
  ultimately have sound: "outbox_sound e c d'"
    using ok by (simp add: outbox_sound_def d'_def ball_update_where f(3))
  have "advances j (if P j then f j else j)" for j
    using P [of j] f(1) [of j] f(3) by (simp add: advances_def same_job_def)
  moreover have "(if P j then f j else j) \<in> set (email_jobs d')" if "j \<in> set (email_jobs d)" for j
    unfolding d'_def using that by (auto simp: set_update_where)
  ultimately have "jobs_advance d d'" unfolding jobs_advance_def by blast
  with sound show ?thesis by simp
qed

lemma renew_update:
  assumes "outbox_sound e c d"
  shows "outbox_sound e c (d\<lparr>email_jobs := update_where (renewable i l now) (\<lambda>j. j\<lparr>j_lease_until := Some t\<rparr>) (email_jobs d)\<rparr>)
    \<and> jobs_advance d (d\<lparr>email_jobs := update_where (renewable i l now) (\<lambda>j. j\<lparr>j_lease_until := Some t\<rparr>) (email_jobs d)\<rparr>)"
  by (rule quiet_update [OF assms]) (auto simp: renewable_def completed_status_def same_job_def)

lemma renew_step: "evolves (outbox_step e' c) e (renew c' job)"
  unfolding renew_def
proof (intro outbox.ev_rules)
  fix now
  show "evolves (outbox_step e' c) e (RenewEmail (now + op_LeaseSeconds c' * 1000) (j_id job) (j_lease_id job))"
    unfolding RenewEmail_def
    by (rule outbox.ev_stmt) (auto simp: run_simps outbox_step_def renew_update)
qed

subsection \<open>New jobs and other services\<close>

text \<open>A new job for a notification that shows PENDING and had none.\<close>

lemma add_job:
  assumes ok: "outbox_sound e c d" and wf: "wf_db d'"
    and d': "d' = d\<lparr>notifications := notifications d @ [n], notification_counters := cs, email_jobs := email_jobs d @ js\<rparr>"
    and fresh: "n_id n \<notin> n_id ` set (notifications d)" and n: "uuid_in e (n_id n) = Some (n_id n)"
    and js: "\<And>j. j \<in> set js \<Longrightarrow> uuid_in e (j_id j) = Some (j_id j) \<and> j_notification_id j = n_id n
      \<and> j_status j = ''PENDING'' \<and> j_attempts j = 0 \<and> n_email_status n = ''PENDING''"
  shows "outbox_sound e c d' \<and> jobs_advance d d'"
proof -
  have max: "0 < op_MaxAttempts c" and can: "canonical_outbox e d" and ag: "agree d"
    and old: "j_notification_id ` set (email_jobs d) \<subseteq> n_id ` set (notifications d)"
    using ok by (auto simp: outbox_sound_def wf_db_def wf_jobs_def)
  have "canonical_outbox e d'" using can n js by (auto simp: canonical_outbox_def d')
  moreover have "n_email_status m = shown_status (j_status j)"
    if "j \<in> set (email_jobs d')" "m \<in> set (notifications d')" "n_id m = j_notification_id j" for j m
  proof (cases "j \<in> set js")
    case True
    then have "n_id m = n_id n" using js that(3) by simp
    then have "m \<notin> set (notifications d)" using fresh by (metis imageI)
    then have "m = n" using that(2) by (simp add: d')
    then show ?thesis using js [OF True] by (simp add: shown_status_def completed_status_def)
  next
    case False
    then have j: "j \<in> set (email_jobs d)" using that(1) by (auto simp: d')
    then have "m \<noteq> n" using fresh that(3) old by (auto simp: image_subset_iff)
    then show ?thesis using ag j that(2,3) by (auto simp: d' agree_def)
  qed
  then have "agree d'" by (simp add: agree_def)
  ultimately have "outbox_sound e c d'" using ok wf js max by (auto simp: outbox_sound_def d')
  moreover have "set (email_jobs d) \<subseteq> set (email_jobs d')" by (simp add: d')
  then have "jobs_advance d d'" unfolding jobs_advance_def using advances_refl by blast
  ultimately show ?thesis by simp
qed

text \<open>What a committed creation added: one notification, its sequence number and at most one job.\<close>

definition next_counters :: "bytes \<Rightarrow> notification_counter list \<Rightarrow> notification_counter list" where
  "next_counters r cs = update_where (\<lambda>c. c_recipient_id c = r) (\<lambda>c. c\<lparr>c_sequence := c_sequence c + 1\<rparr>)
     (if r \<in> c_recipient_id ` set cs then cs else cs @ [\<lparr>c_recipient_id = r, c_sequence = 0\<rparr>])"

definition enqueued :: "env \<Rightarrow> bool \<Rightarrow> user_row \<Rightarrow> notification_row \<Rightarrow> email_job list \<Rightarrow> bool" where
  "enqueued e mail u n js \<longleftrightarrow> (if mail
     then \<exists>i tk rc t. uuid_in e (gen_uuid e tk) = Some i \<and> varchar 255 (u_email u) = Inr rc
        \<and> js = [\<lparr>j_id = i, j_notification_id = n_id n, j_recipient = rc, j_title = n_title n,
              j_body = n_body n, j_status = ''PENDING'', j_attempts = 0, j_available_at = t, j_lease_id = None,
              j_lease_until = None, j_completed_at = None, j_created_at = t\<rparr>]
     else js = [])"

definition created :: "env \<Rightarrow> bool \<Rightarrow> actor \<Rightarrow> create_input \<Rightarrow> database \<Rightarrow> notification_row \<Rightarrow> database \<Rightarrow> bool" where
  "created e smtp act inp d n d' \<longleftrightarrow> (\<exists>u \<in> set (users d). \<exists>js.
     d' = d\<lparr>notifications := notifications d @ [n],
       notification_counters := next_counters (n_recipient_id n) (notification_counters d),
       email_jobs := email_jobs d @ js\<rparr>
     \<and> uuid_in e (ci_RecipientID inp) = Some (n_recipient_id n) \<and> u_id u = n_recipient_id n \<and> u_deleted_at u = None
     \<and> n_id n \<notin> n_id ` set (notifications d) \<and> (\<exists>tk. uuid_in e (gen_uuid e tk) = Some (n_id n))
     \<and> n_title n = TrimSpace (ci_Title inp) \<and> n_body n = TrimSpace (ci_Body inp) \<and> n_read_at n = None
     \<and> n_email_status n = initial_status smtp (ci_SendEmail inp)
     \<and> uuid_in e (a_ID act) = n_actor_id n
     \<and> (\<exists>c \<in> set (next_counters (n_recipient_id n) (notification_counters d)).
          c_recipient_id c = n_recipient_id n \<and> c_sequence c = n_sequence n)
     \<and> enqueued e (ci_SendEmail inp \<and> smtp) u n js)"

lemma varchar_fits: "length s \<le> k \<Longrightarrow> varchar k s = Inr s"
  using RuneCount_le_length [of s] by (simp add: varchar_def RuneCountInString_def)

lemma select_one_append:
  "select_one P (xs @ ys) = (case select_one P xs of None \<Rightarrow> select_one P ys | Some x \<Rightarrow> Some x)"
  by (induction xs) (auto simp: select_one_def)

lemma guard_if: "(if b then Some x else None) = None \<longleftrightarrow> \<not> b"
  by simp

lemma counters_run:
  assumes "EnsureNotificationCounter rcp e w = (Inr (), w1)" and "IncrementNotificationCounter rcp e w1 = (Inr (), w2)"
    and "NotificationSequence rcp e w2 = (Inr sq, w3)" and r: "uuid_in e rcp = Some r"
  shows "db w3 = (db w)\<lparr>notification_counters := next_counters r (notification_counters (db w))\<rparr>"
    and "\<exists>c \<in> set (next_counters r (notification_counters (db w))). c_recipient_id c = r \<and> c_sequence c = sq"
proof -
  have w1: "db w1 = (db w)\<lparr>notification_counters := (if r \<in> c_recipient_id ` set (notification_counters (db w))
      then notification_counters (db w) else notification_counters (db w) @ [\<lparr>c_recipient_id = r, c_sequence = 0\<rparr>])\<rparr>"
    using assms(1) r by (auto simp: EnsureNotificationCounter_def run_simps split: if_splits)
  show w3: "db w3 = (db w)\<lparr>notification_counters := next_counters r (notification_counters (db w))\<rparr>"
    using assms(2,3) r w1 by (auto simp: IncrementNotificationCounter_def NotificationSequence_def run_simps next_counters_def)
  have "map_option c_sequence (select_one (\<lambda>c. c_recipient_id c = r) (notification_counters (db w3))) = Some sq"
    using assms(3) r by (auto simp: NotificationSequence_def run_simps)
  then show "\<exists>c \<in> set (next_counters r (notification_counters (db w))). c_recipient_id c = r \<and> c_sequence c = sq"
    unfolding w3 by (auto dest: select_one_Some)
qed

lemma Notification_Create_tx_run:
  assumes run: "Notification_Create_tx smtp act inp e w = (Inr (v, ch), w')" and laws: "uuid_laws e"
    and valid: "\<not> invalid_input inp"
  obtains n where "created e smtp act inp (db w) n (db w')" and "v = project n"
proof -
  let ?rcp = "ci_RecipientID inp"
  let ?t = "TrimSpace (ci_Title inp)" and ?b = "TrimSpace (ci_Body inp)"
  let ?enq = "\<lambda>ident u. if ci_SendEmail inp \<and> smtp
         then bindE NewString (\<lambda>job. EnqueueEmail job ident (u_email u) ?t ?b) else returnE ()"
  obtain u w1 w2 w3 sq w4 ident w5 w6 w7 row where
    lock: "LockUser ?rcp e w = (Inr u, w1)" and act_u: "u_deleted_at u = None"
    and cnt: "EnsureNotificationCounter ?rcp e w1 = (Inr (), w2)"
      "IncrementNotificationCounter ?rcp e w2 = (Inr (), w3)" "NotificationSequence ?rcp e w3 = (Inr sq, w4)"
    and new: "NewString e w4 = (Inr ident, w5)"
    and cr: "CreateNotification ident ?rcp (Some (a_ID act)) ?t ?b (initial_status smtp (ci_SendEmail inp)) sq e w5 = (Inr (), w6)"
    and enq: "?enq ident u e w6 = (Inr (), w7)"
    and fnd: "FindNotification ident e w7 = (Inr row, w')" and v: "v = project row"
    using run unfolding Notification_Create_tx_def Let_def run_parts guard_if by blast
  from lock obtain r where r: "uuid_in e ?rcp = Some r" and u: "u \<in> set (users (db w))" "u_id u = r"
    and db1: "db w1 = db w" by (auto simp: LockUser_def run_simps dest: select_one_Some)
  note c = counters_run [OF cnt r, unfolded db1]
  have ident: "ident = gen_uuid e (tick w4)" "db w5 = db w4" using new by (auto simp: NewString_def)
  have "length ?t \<le> 160" "length ?b \<le> 4000"
    using valid length_TrimSpace [of "ci_Title inp"] length_TrimSpace [of "ci_Body inp"]
    by (simp_all add: invalid_input_def)
  then have vc: "varchar 160 ?t = Inr ?t" "varchar 4000 ?b = Inr ?b" by (simp_all add: varchar_fits)
  have ui: "uuid_in e ident = Some ident" using laws ident by (simp add: uuid_laws_def)
  obtain n where w6: "db w6 = (db w5)\<lparr>notifications := notifications (db w5) @ [n]\<rparr>"
    and fresh: "n_id n \<notin> n_id ` set (notifications (db w5))"
    and n: "n_id n = ident" "n_recipient_id n = r" "n_title n = ?t" "n_body n = ?b" "n_read_at n = None"
      "n_email_status n = initial_status smtp (ci_SendEmail inp)" "n_sequence n = sq" "n_actor_id n = uuid_in e (a_ID act)"
    using cr ui r vc by (auto simp: CreateNotification_def run_simps)
  have db7: "\<exists>js. db w7 = (db w6)\<lparr>email_jobs := email_jobs (db w6) @ js\<rparr>
     \<and> enqueued e (ci_SendEmail inp \<and> smtp) u n js"
  proof (cases "ci_SendEmail inp \<and> smtp")
    case True
    then obtain job w8 where "NewString e w6 = (Inr job, w8)" and eq: "EnqueueEmail job ident (u_email u) ?t ?b e w8 = (Inr (), w7)"
      using enq unfolding run_parts by (auto simp: run_parts)
    then have "job = gen_uuid e (tick w6)" "db w8 = db w6" by (auto simp: NewString_def)
    then obtain i rc t where "uuid_in e (gen_uuid e (tick w6)) = Some i" "varchar 255 (u_email u) = Inr rc"
      and "db w7 = (db w6)\<lparr>email_jobs := email_jobs (db w6) @ [\<lparr>j_id = i, j_notification_id = ident,
        j_recipient = rc, j_title = ?t, j_body = ?b, j_status = ''PENDING'', j_attempts = 0, j_available_at = t,
        j_lease_id = None, j_lease_until = None, j_completed_at = None, j_created_at = t\<rparr>]\<rparr>"
      using eq ui vc by (auto simp: EnqueueEmail_def run_simps)
    then show ?thesis using True n(1,3,4) unfolding enqueued_def by auto
  next
    case False
    then show ?thesis using enq by (auto simp: run_simps enqueued_def)
  qed
  then obtain js where w7: "db w7 = (db w6)\<lparr>email_jobs := email_jobs (db w6) @ js\<rparr>"
    and js: "enqueued e (ci_SendEmail inp \<and> smtp) u n js" by blast
  have "notifications (db w7) = notifications (db w5) @ [n]" by (simp add: w7 w6)
  moreover have "select_one (\<lambda>x. n_id x = ident) (notifications (db w5)) = None"
    unfolding select_one_None using fresh n(1) imageI [of _ _ n_id] by metis
  ultimately have "select_one (\<lambda>x. n_id x = ident) (notifications (db w7)) = Some n"
    using n(1) by (simp add: select_one_append) (simp add: select_one_def)
  then have row: "row = n" "db w' = db w7" using fnd ui by (auto simp: FindNotification_def run_simps)
  have w': "db w' = (db w)\<lparr>notifications := notifications (db w) @ [n],
       notification_counters := next_counters (n_recipient_id n) (notification_counters (db w)),
       email_jobs := email_jobs (db w) @ js\<rparr>"
    by (simp add: row(2) w7 w6 ident(2) c(1) n(2))
  have "n_id n \<notin> n_id ` set (notifications (db w))" "\<exists>tk. uuid_in e (gen_uuid e tk) = Some (n_id n)"
    using fresh ui n(1) by (simp_all add: ident c(1)) (metis ident(1))
  then have "created e smtp act inp (db w) n (db w')"
    unfolding created_def using w' u act_u r c(2) n js
    by (intro bexI [OF _ u(1)] exI [of _ js]) simp
  then show thesis using that v row(1) by blast
qed

lemma enqueued_jobs:
  assumes "enqueued e mail u n js" and "uuid_laws e" and "j \<in> set js"
  shows "mail" and "uuid_in e (j_id j) = Some (j_id j)" and "j_notification_id j = n_id n"
    and "j_status j = ''PENDING''" and "j_attempts j = 0"
  using assms by (auto simp: enqueued_def uuid_laws_def split: if_splits)

lemma created_step:
  assumes ok: "outbox_sound e c d" and cr: "created e smtp act inp d n d'" and wf: "wf_db d'"
  shows "outbox_sound e c d' \<and> jobs_advance d d'"
proof -
  have laws: "uuid_laws e" using ok by (simp add: outbox_sound_def)
  obtain u js tk where d': "d' = d\<lparr>notifications := notifications d @ [n],
       notification_counters := next_counters (n_recipient_id n) (notification_counters d),
       email_jobs := email_jobs d @ js\<rparr>" and js: "enqueued e (ci_SendEmail inp \<and> smtp) u n js"
    and fresh: "n_id n \<notin> n_id ` set (notifications d)" and tk: "uuid_in e (gen_uuid e tk) = Some (n_id n)"
    and st: "n_email_status n = initial_status smtp (ci_SendEmail inp)"
    using cr by (auto simp: created_def)
  have n: "uuid_in e (n_id n) = Some (n_id n)" using tk laws unfolding uuid_laws_def by blast
  show ?thesis
    by (rule add_job [OF ok wf d' fresh n])
      (use enqueued_jobs [OF js laws] st in \<open>auto simp: initial_status_def\<close>)
qed

lemma Notification_Create_step: "evolves (outbox_step e c) e (Notification_Create smtp p act inp)"
  unfolding Notification_Create_def
proof (intro outbox.ev_rules outbox.ev_Mutate achievesI outbox_same reads)
  fix w a w'
  assume v: "(if invalid_input inp then Some ErrInvalid else None) = None"
    and run: "Notification_Create_tx smtp act inp e w = (Inr a, w')"
  obtain v ch where a: "a = (v, ch)" by (cases a)
  show "outbox_step e c (db w) (db w')"
    unfolding outbox_step_def
  proof
    assume ok: "outbox_sound e c (db w)"
    then have laws: "uuid_laws e" and "wf_db (db w)" by (simp_all add: outbox_sound_def)
    then have wf: "wf_db (db w')" using keeps_run [OF notification_tx_wf(1) run] by simp
    have "\<not> invalid_input inp" using v by (simp split: if_splits)
    then obtain n where "created e smtp act inp (db w) n (db w')"
      using Notification_Create_tx_run [OF run [unfolded a] laws] by blast
    then show "outbox_sound e c (db w') \<and> jobs_advance (db w) (db w')"
      using created_step ok wf by blast
  qed
qed

text \<open>Reading a notification changes neither its id nor its e-mail status.\<close>

lemma ReadNotification_step: "evolves (outbox_step e' c) e (ReadNotification i)"
proof -
  have "outbox_step e' c d (d\<lparr>notifications := update_where P (\<lambda>n. n\<lparr>n_read_at := g n\<rparr>) (notifications d)\<rparr>)"
    (is "outbox_step e' c d ?d") for d P g
  proof -
    have "wf_db ?d" if "wf_db d"
      by (rule wf_update_notifications [OF that]) (auto intro: wf_notification_status [OF that])
    moreover have "n_id ` set (notifications ?d) = n_id ` set (notifications d)" by (simp add: row_simps)
    moreover have "agree ?d" if "agree d" using that by (simp add: agree_def ball_update_where)
    ultimately show ?thesis
      by (simp add: outbox_step_def outbox_sound_def canonical_outbox_def jobs_advance_same)
  qed
  then show ?thesis unfolding ReadNotification_def by (intro outbox.ev_stmt) (auto simp: run_simps)
qed

lemma Notification_Read_step: "evolves (outbox_step e' c) e (Notification_Read p act i)"
  unfolding Notification_Read_def Notification_Read_tx_def
  by (intro outbox.ev_rules outbox.ev_Mutate evolves_achieves ReadNotification_step outbox_same reads)

end
