(* ===== verification/Errors.thy ===== *)
theory Errors
  imports SessionSafety
begin

text \<open>
  Which errors an operation can report.  \<open>errs P e m\<close> says that every error of \<open>m\<close> satisfies
  \<open>P\<close>; the rules follow the construction of the operation.  The hypothesis \<open>library_errors\<close>
  states what the code relies on: the database driver, the random source, bcrypt and the JWT
  library report errors of their own, never a \<open>*fault.Error\<close>, and a failing connection never
  reports \<open>sql.ErrNoRows\<close>.
\<close>

definition raw_error :: "goerr \<Rightarrow> bool" where
  "raw_error x \<longleftrightarrow> as_fault x = None"

definition library_errors :: "env \<Rightarrow> bool" where
  "library_errors e \<longleftrightarrow> (\<forall>n x. fault_at e n = Some x \<longrightarrow> raw_error x \<and> \<not> Is x NoRows)
     \<and> (\<forall>n x. rand_bytes e n = Inl x \<longrightarrow> raw_error x)
     \<and> (\<forall>n pw x. bcrypt_hash e n pw = Inl x \<longrightarrow> raw_error x)
     \<and> (\<forall>k c x. jwt_sign e k c = Inl x \<longrightarrow> raw_error x)"

definition errs :: "(goerr \<Rightarrow> bool) \<Rightarrow> env \<Rightarrow> 'a op \<Rightarrow> bool" where
  "errs P e m \<longleftrightarrow> (\<forall>w x w'. m e w = (Inl x, w') \<longrightarrow> P x)"

lemma errsD: "errs P e m \<Longrightarrow> m e w = (Inl x, w') \<Longrightarrow> P x"
  unfolding errs_def by blast

lemma errs_returnE: "errs P e (returnE a)" by (simp add: errs_def returnE_def)
lemma errs_failE: "P x \<Longrightarrow> errs P e (failE x)" by (simp add: errs_def failE_def)
lemma errs_askE_bind: "errs P e (k e) \<Longrightarrow> errs P e (bindE askE k)"
  by (simp add: errs_def bindE_def askE_def)

lemma errs_bindE: "errs P e m \<Longrightarrow> (\<And>a. errs P e (k a)) \<Longrightarrow> errs P e (bindE m k)"
  by (auto simp: errs_def bindE_def split: prod.splits sum.splits)

lemma errs_mapE: "errs (\<lambda>x. P (h x)) e m \<Longrightarrow> errs P e (mapE h m)"
  by (auto simp: errs_def mapE_def split: prod.splits sum.splits)

lemma errs_attempt: "errs P e (attempt m)"
  by (auto simp: errs_def attempt_def split: prod.splits)

lemma errs_guardE: "(\<And>x. g = Some x \<Longrightarrow> P x) \<Longrightarrow> errs P e (guardE g)"
  by (cases g) (auto simp: errs_def guardE_def failE_def returnE_def)

lemma errs_liftE: "(\<And>x. r = Inl x \<Longrightarrow> P x) \<Longrightarrow> errs P e (liftE r)"
  by (cases r) (auto simp: errs_def liftE_def failE_def returnE_def)

lemma errs_forE: "(\<And>x. errs P e (f x)) \<Longrightarrow> errs P e (forE xs f)"
  by (induction xs) (auto intro: errs_returnE errs_bindE)

lemma errs_mapM: "(\<And>x. errs P e (f x)) \<Longrightarrow> errs P e (mapM f xs)"
  by (induction xs) (auto intro!: errs_returnE errs_bindE)

lemma errs_If: "(b \<Longrightarrow> errs P e x) \<Longrightarrow> (\<not> b \<Longrightarrow> errs P e y) \<Longrightarrow> errs P e (if b then x else y)"
  by simp

lemma errs_case_option:
  "errs P e x \<Longrightarrow> (\<And>a. errs P e (y a)) \<Longrightarrow> errs P e (case p of None \<Rightarrow> x | Some a \<Rightarrow> y a)"
  by (cases p) auto

lemma errs_case_prod: "(\<And>a b. errs P e (x a b)) \<Longrightarrow> errs P e (case p of (a, b) \<Rightarrow> x a b)"
  by (cases p) auto

lemma errs_Q: "errs P e m \<Longrightarrow> errs P e (Q m)"
  by (auto simp: errs_def Q_def)

lemma errs_clocks: "errs P e time_Now" "errs P e NewString"
  by (simp_all add: errs_def time_Now_def NewString_def)

lemma errs_optional_row: "errs P e m \<Longrightarrow> errs P e (optional_row m)"
  by (auto simp: errs_def optional_row_def bindE_def attempt_def failE_def returnE_def
      split: prod.splits sum.splits if_splits)

lemma errs_Transaction: "errs P e m \<Longrightarrow> (\<And>n x. fault_at e n = Some x \<Longrightarrow> P x) \<Longrightarrow> errs P e (Transaction m)"
  by (auto simp: errs_def Transaction_def split: option.splits sum.splits prod.splits)

lemmas errs_rules = errs_returnE errs_failE errs_askE_bind errs_bindE errs_mapE errs_attempt errs_guardE
  errs_liftE errs_forE errs_mapM errs_If errs_case_option errs_case_prod errs_Q errs_clocks errs_optional_row

text \<open>The raw errors of the statements.\<close>

lemma errs_stmt:
  assumes "library_errors e" and "\<And>now new d x. f e now new d = Inl x \<Longrightarrow> raw_error x"
  shows "errs raw_error e (stmt f)"
  using assms by (auto simp: errs_def stmt_def library_errors_def split: option.splits sum.splits prod.splits)

lemma raw_engine: "raw_error unique_violation" "raw_error foreign_key_violation" "raw_error check_violation"
  "raw_error invalid_text" "raw_error NoRows" "raw_error string_too_long" "raw_error out_of_range"
  by (simp_all add: raw_error_def engine_errors)

lemma raw_auth_statements:
  assumes "library_errors e"
  shows "errs raw_error e (LockRefreshFamily f)" "errs raw_error e (FindAuthRefreshTokenByHash h)"
    "errs raw_error e (FindActiveUserByID i)" "errs raw_error e (RevokeRefreshFamilyRecord f)"
    "errs raw_error e (RevokeAuthRefreshFamily f)" "errs raw_error e (RevokeAuthRefreshToken f)"
    "errs raw_error e (CreateAuthRefreshToken f i h x)" "errs raw_error e (LookupAuthRefreshToken h)"
    "errs raw_error e (CreateRefreshFamily f i x)"
    "errs raw_error e (InsertAudit b m en us an bf af rq ep)"
  unfolding LockRefreshFamily_def FindAuthRefreshTokenByHash_def FindActiveUserByID_def
    LookupAuthRefreshToken_def InsertAudit_def auth_write_defs
  by (rule errs_stmt [OF assms],
      auto simp: with_uuid_def with_uuid_opt_def select_row_def raw_engine split: option.splits if_splits)+

lemma raw_Capture: "Capture i b a = Inl x \<Longrightarrow> raw_error x"
  by (auto simp: Capture_def Marshal_opt_def Marshal_def raw_error_def split: option.splits sum.splits if_splits)

lemma raw_Write: "library_errors e \<Longrightarrow> errs raw_error e (Write p act b c)"
  unfolding Write_def Let_def by (intro errs_rules raw_auth_statements)

lemma raw_rand: "library_errors e \<Longrightarrow> errs raw_error e rand_Read"
  by (auto simp: errs_def rand_Read_def library_errors_def)

lemma raw_Refresh_tx: "library_errors e \<Longrightarrow> errs raw_error e (Refresh_tx s p h f)"
  unfolding Refresh_tx_def rotate_def revoke_family_def issueTokenPair_def Let_def
  by (intro errs_rules raw_auth_statements raw_rand raw_Write)
     (auto dest: raw_Capture simp: library_errors_def)

end
