(* ===== verification/AuthProperties.thy ===== *)
theory AuthProperties
  imports Errors
begin

text \<open>
  The properties of the refresh sessions: a refresh token works once, its replay ends the
  session, rotation never prolongs a family, two concurrent refreshes of one token never both
  succeed, and logging out ends the session.
\<close>

subsection \<open>What a refresh did\<close>

lemma same_token_hash:
  "session_step d d' \<Longrightarrow> t \<in> set (auth_refresh_tokens d) \<Longrightarrow>
   \<exists>t' \<in> set (auth_refresh_tokens d'). same_token t t'"
  by (simp add: session_step_def)

lemma Refresh_parts:
  assumes "Refresh s p raw e w = (Inr pair, w')"
  obtains fid w1 where "Refresh_lookup raw e w = (Inr fid, w1)" "db w1 = db w"
    "Refresh_finish s p raw fid e w1 = (Inr pair, w')"
proof -
  from assms obtain fid w1 where "Refresh_lookup raw e w = (Inr fid, w1)"
    "Refresh_finish s p raw fid e w1 = (Inr pair, w')"
    unfolding Refresh_def run_parts by blast
  then show thesis using that Refresh_lookup_run by blast
qed

text \<open>A successful second half rotated a live token of a live family.\<close>

lemma Refresh_finish_success:
  assumes "Refresh_finish s p raw fid e w = (Inr pair, w')"
  obtains family stored user now w1 w2 where
    "family \<in> set (refresh_families (db w))" "uuid_in e fid = Some (m_id family)"
    "stored \<in> set (auth_refresh_tokens (db w))" "t_token_hash stored = sha256 e raw"
    "user \<in> set (users (db w))" "u_deleted_at user = None" "uuid_in e (m_user_id family) = Some (u_id user)"
    "\<not> dead family stored (Some user) now" "db w1 = db w"
    "rotate s family stored user now e w1 = (Inr pair, w2)" "adds_logs (db w2) (db w')"
proof -
  obtain r w2 w3 where tx: "Transaction (Refresh_tx s p (sha256 e raw) fid) e w = (Inr r, w2)"
    and audit: "(if sr_mutated r \<and> pol_Mode p = Optional
         then optionalSessionAudit p (sr_actor r) (sr_behavior r) (sr_change r) else returnE ()) e w2 = (Inr (), w3)"
    and fin: "(if sr_invalid r then failE (New Unauthorized ''Invalid or expired refresh token'')
     else returnE (sr_pair r)) e w3 = (Inr pair, w')"
    using assms unfolding Refresh_finish_def by (auto simp: bindE_def askE_def mapE_def split: prod.splits sum.splits)
  from fin have r: "\<not> sr_invalid r" "sr_pair r = pair" "w' = w3"
    by (auto simp: failE_def returnE_def split: if_splits)
  from tx obtain w4 where tx': "Refresh_tx s p (sha256 e raw) fid e (tx_start e w) = (Inr r, w4)" and w2: "db w2 = db w4"
    by (auto simp: run_simps tx_start_def)
  have logs: "adds_logs (db w2) (db w')"
    using audit r(3) by (auto simp: run_simps optionalSessionAudit_def logging.refl split: if_splits
        dest: logging.ev_Write [THEN evolvesD])
  from Refresh_tx_run [OF tx'] r(1) have "refresh_case e s (sha256 e raw) fid (tx_start e w) r w4" by blast
  then obtain family stored user now w5 w6 where
    c: "family \<in> set (refresh_families (db w))" "uuid_in e fid = Some (m_id family)"
      "stored \<in> set (auth_refresh_tokens (db w))" "t_token_hash stored = sha256 e raw" "db w5 = db w"
    and user: "\<forall>u. user = Some u \<longrightarrow> u \<in> set (users (db w)) \<and> u_deleted_at u = None
        \<and> uuid_in e (m_user_id family) = Some (u_id u)"
    and alive: "\<not> dead family stored user now"
    and rot: "rotate s family stored (the user) now e w5 = (Inr pair, w6)" and l2: "adds_logs (db w6) (db w4)"
    using r unfolding refresh_case_def tx_start_simps by (metis (no_types, lifting))
  obtain u where u: "user = Some u" using alive by (auto simp: dead_def)
  have "adds_logs (db w6) (db w')" using l2 logs w2 logging.trans by simp
  then show thesis using that [OF c(1-4) _ _ _ alive [unfolded u] c(5) rot [unfolded u, simplified]] user u by simp
qed

lemma not_dead: "\<not> dead family stored (Some u) now \<longleftrightarrow> m_revoked_at family = None \<and> now < m_expires_at family
    \<and> t_revoked_at stored = None \<and> now < t_expires_at stored"
  by (auto simp: dead_def)

text \<open>After a success the presented token is revoked, and stays so.\<close>

lemma Refresh_consumes:
  assumes ok: "sess_sound e (db w)" and run: "Refresh_finish s p raw fid e w = (Inr pair, w')"
  shows "\<exists>t \<in> set (auth_refresh_tokens (db w')). t_token_hash t = sha256 e raw \<and> t_revoked_at t \<noteq> None"
  using run
proof (rule Refresh_finish_success)
  fix family stored user now w1 w2
  assume fam: "family \<in> set (refresh_families (db w))" and st: "stored \<in> set (auth_refresh_tokens (db w))"
      "t_token_hash stored = sha256 e raw"
    and us: "uuid_in e (m_user_id family) = Some (u_id user)" and db1: "db w1 = db w"
    and alive: "\<not> dead family stored (Some user) now"
    and rot: "rotate s family stored user now e w1 = (Inr pair, w2)" and logs: "adds_logs (db w2) (db w')"
  have "m_user_id family \<in> user_ids (db w)"
    using ok fam by (auto simp: sess_sound_def wf_db_def wf_families_def user_ids_def)
  then have uid: "u_id user = m_user_id family"
    using ok us by (auto simp: sess_sound_def canonical_sessions_def)
  obtain t i at where "db w2 = (db w1)\<lparr>auth_refresh_tokens :=
      update_where (\<lambda>t. t_id t = t_id stored \<and> t_revoked_at t = None)
        (\<lambda>x. x\<lparr>t_revoked_at := case t_revoked_at x of None \<Rightarrow> Some t | Some t \<Rightarrow> Some t\<rparr>)
        (auth_refresh_tokens (db w1)) @
      [\<lparr>t_id = i, t_family_id = m_id family, t_user_id = m_user_id family,
        t_token_hash = sha256 e (tp_refresh_token pair), t_expires_at = idleExpiry s now (m_expires_at family),
        t_created_at = at, t_revoked_at = None\<rparr>]\<rparr>"
    by (rule rotate_effect [OF _ _ _ uid rot]) (use ok fam st db1 in auto)
  then have "stored\<lparr>t_revoked_at := Some t\<rparr> \<in> set (auth_refresh_tokens (db w2))"
    using st db1 alive by (auto simp: update_where_def image_iff not_dead intro!: bexI [of _ stored])
  then show ?thesis using st(2) adds_logs_simps(6) [OF logs] by (intro bexI) auto
qed

text \<open>A revoked token never refreshes.\<close>

lemma revoked_never_refreshes:
  assumes wf: "wf_db (db w)" and t: "t \<in> set (auth_refresh_tokens (db w))" "t_token_hash t = sha256 e raw"
    "t_revoked_at t \<noteq> None"
  shows "Refresh_finish s p raw fid e w \<noteq> (Inr pair, w')"
proof
  assume "Refresh_finish s p raw fid e w = (Inr pair, w')"
  then show False
  proof (rule Refresh_finish_success)
    fix family stored user now
    assume "stored \<in> set (auth_refresh_tokens (db w))" "t_token_hash stored = sha256 e raw"
      "\<not> dead family stored (Some user) now"
    then show False using hash_inj [OF wf _ t(1), of stored] t by (auto simp: not_dead)
  qed
qed

subsection \<open>A session at which the properties are instantiated\<close>

definition sample_service :: auth_service where
  "sample_service = \<lparr>s_Secret = ''secret'', s_Issuer = [], s_Audience = [], s_RefreshIdle = 7000,
     s_RefreshAbsolute = 30000\<rparr>"

definition refresh_policy :: policy where
  "refresh_policy = sample_policy ''auth.refresh'' ''auth'' Required"

lemma sample_laws: "uuid_laws sample_env" "library_errors sample_env"
  by (simp_all add: uuid_laws_def library_errors_def sample_env_def)

lemma sample_sess: "sess_sound sample_env (db sample_world)"
proof -
  have "sessions_ok sample_db" by code_simp
  then show ?thesis
    using sample_laws sample_wf
    by (simp add: sess_sound_def canonical_sessions_def sample_env_def sample_world_def)
qed

definition refreshed :: "(goerr + token_pair) \<times> world" where
  "refreshed = Refresh sample_service refresh_policy ''raw'' sample_env sample_world"

definition refreshed_pair :: token_pair where
  "refreshed_pair = \<lparr>tp_access_token = ''jwt'', tp_refresh_token = ''kyyyyyy'',
     tp_access_expires_in = 900, tp_refresh_expires_at = 8005\<rparr>"

lemma refreshed_run: "fst refreshed = Inr refreshed_pair"
  by code_simp

lemma refreshed_eq:
  "Refresh sample_service refresh_policy ''raw'' sample_env sample_world = (Inr refreshed_pair, snd refreshed)"
  using refreshed_run by (metis prod.collapse refreshed_def)

lemma refreshed_sess: "sess_sound sample_env (db (snd refreshed))"
  using evolvesD [OF Refresh_sess refreshed_eq] sample_sess by (simp add: sess_step_def)

lemma refreshed_wf: "wf_db (db (snd refreshed))"
  using refreshed_sess by (simp add: sess_sound_def)

subsection \<open>A refresh token works once\<close>





lemma raw_DB: "raw_error x \<Longrightarrow> DB x \<noteq> New Unauthorized m"
  using DB_result [of x] by (auto simp: raw_error_def DB_result_def New_def)

lemma family_found:
  assumes ok: "sess_sound e (db w)" and lib: "library_errors e" and t: "t \<in> set (auth_refresh_tokens (db w))"
  shows "optional_row (LockRefreshFamily (t_family_id t)) e w \<noteq> (Inr None, w')"
proof
  assume "optional_row (LockRefreshFamily (t_family_id t)) e w = (Inr None, w')"
  then obtain x where x: "LockRefreshFamily (t_family_id t) e w = (Inl x, w')" "Is x NoRows"
    by (auto simp: run_optional_row)
  have "t_family_id t \<in> m_id ` set (refresh_families (db w))"
    using ok t by (auto simp: sess_sound_def wf_db_def wf_tokens_def)
  then have "select_one (\<lambda>m. m_id m = t_family_id t) (refresh_families (db w)) \<noteq> None"
    by (auto simp: select_one_None)
  then show False
    using x lib token_family_canonical [OF ok t]
    by (auto simp: LockRefreshFamily_def stmt_def with_uuid_def select_row_def library_errors_def
        split: option.splits)
qed

text \<open>C5. The replay of a revoked token ends the session: when \<open>Refresh\<close> answers "Invalid or
  expired refresh token" to it, the token's family is revoked and every token of the family with
  it.\<close>

theorem Refresh_replay_revokes:
  assumes ok: "sess_sound e (db w)" and lib: "library_errors e"
    and t: "t \<in> set (auth_refresh_tokens (db w))" "t_token_hash t = sha256 e raw"
    and run: "Refresh s p raw e w = (Inl (New Unauthorized ''Invalid or expired refresh token''), w')"
  shows "family_ended (t_family_id t) (db w')"
proof -
  define K where "K = (\<lambda>r :: session_result. bindE (if sr_mutated r \<and> pol_Mode p = Optional
         then optionalSessionAudit p (sr_actor r) (sr_behavior r) (sr_change r) else returnE ()) (\<lambda>_.
     if sr_invalid r then failE (New Unauthorized ''Invalid or expired refresh token'')
     else returnE (sr_pair r)))"
  let ?T = "\<lambda>fid. Transaction (Refresh_tx s p (sha256 e raw) fid)"
  obtain l w1 where l: "Refresh_lookup raw e w = (l, w1)" by (cases "Refresh_lookup raw e w")
  have "errs (\<lambda>x. x \<noteq> New Unauthorized ''Invalid or expired refresh token'') e (Refresh_lookup raw)"
    unfolding Refresh_lookup_def
    by (intro errs_rules) (use raw_auth_statements(8) [OF lib] raw_DB in \<open>auto simp: errs_def New_def\<close>)
  then obtain fid where fid: "l = Inr fid"
    using run l by (cases l) (auto simp: Refresh_def bindE_def dest: errsD)
  have db1: "db w1 = db w" using reads_db [OF auth_service_reads(4) l] .
  obtain t0 where "t0 \<in> set (auth_refresh_tokens (db w))" "t_token_hash t0 = sha256 e raw" "t_family_id t0 = fid"
    using Refresh_lookup_run l fid by blast
  then have tf: "fid = t_family_id t" using hash_inj [of "db w" t t0] t ok by (auto simp: sess_sound_def)
  obtain rt w2 where T: "?T fid e w1 = (rt, w2)" by (cases "?T fid e w1")
  have fin: "bindE (mapE DB (?T fid)) K e w1 = (Inl (New Unauthorized ''Invalid or expired refresh token''), w')"
    using run l fid by (simp add: Refresh_def Refresh_finish_def K_def bindE_def askE_def)
  have "errs raw_error e (?T fid)"
    by (intro errs_Transaction raw_Refresh_tx lib) (use lib in \<open>auto simp: library_errors_def\<close>)
  then obtain r where r: "rt = Inr r"
    using fin T raw_DB by (cases rt) (auto simp: bindE_def mapE_def dest: errsD)
  then have K: "K r e w2 = (Inl (New Unauthorized ''Invalid or expired refresh token''), w')"
    using fin T by (simp add: bindE_def mapE_def)
  then have inv: "sr_invalid r"
    by (auto simp: K_def bindE_def optionalSessionAudit_def attempt_def returnE_def split: if_splits prod.splits)
  have "evolves adds_logs e (K r)"
    unfolding K_def optionalSessionAudit_def by (intro logging.ev_rules logging.ev_Write)
  then have logs: "adds_logs (db w2) (db w')" using K by (rule evolvesD)
  from T r obtain w3 where tx: "Refresh_tx s p (sha256 e raw) fid e (tx_start e w1) = (Inr r, w3)" and w2: "db w2 = db w3"
    by (auto simp: run_simps tx_start_def)
  have "refresh_case e s (sha256 e raw) fid (tx_start e w1) r w3"
    using Refresh_tx_run [OF tx] family_found [of e "tx_start e w1" t] ok lib t(1) db1 tf by auto
  then obtain family w4 w5 where fam: "family \<in> set (refresh_families (db w))" "uuid_in e fid = Some (m_id family)"
    "db w4 = db w" "revoke_family family e w4 = (Inr (), w5)" "adds_logs (db w5) (db w3)"
    using inv db1 unfolding refresh_case_def by auto
  have "m_id family = t_family_id t" using fam(2) tf token_family_canonical [OF ok t(1)] by simp
  moreover have "uuid_in e (m_id family) = Some (m_id family)"
    using ok fam(1) by (auto simp: sess_sound_def canonical_sessions_def)
  ultimately show ?thesis
    using revoke_family_ends [OF fam(4)] fam(1,3,5) logs w2 family_ended_logs by metis
qed

definition replayed :: "(goerr + token_pair) \<times> world" where
  "replayed = Refresh sample_service refresh_policy ''old'' sample_env sample_world"

lemma replayed_run: "fst replayed = Inl (New Unauthorized ''Invalid or expired refresh token'')"
  by code_simp

theorem Refresh_replay_revokes_witness: "family_ended ''m1'' (db (snd replayed))"
proof -
  have t: "sample_token ''t0'' ''old'' (Some 500) \<in> set (auth_refresh_tokens (db sample_world))"
    by (simp add: sample_world_def sample_db_def)
  have "Refresh sample_service refresh_policy ''old'' sample_env sample_world
      = (Inl (New Unauthorized ''Invalid or expired refresh token''), snd replayed)"
    using replayed_run by (metis prod.collapse replayed_def)
  from Refresh_replay_revokes [OF sample_sess sample_laws(2) t _ this] show ?thesis
    by (simp add: sample_token_def sample_env_def)
qed

subsection \<open>Concurrent refreshes of one token\<close>

text \<open>
  Any number of clients refresh the same token at once.  Each first looks the token up and then
  runs its transaction; between any two steps of theirs the other clients and the other services
  run.  The row lock on the family makes the transactions follow one another.
\<close>

datatype phase = Looking | Found bytes | Done "goerr + token_pair"

record race =
  rc_world :: world
  rc_phase :: "nat \<Rightarrow> phase"

inductive race_step :: "env \<Rightarrow> auth_service \<Rightarrow> policy \<Rightarrow> bytes \<Rightarrow> race \<Rightarrow> race \<Rightarrow> bool"
  for e :: env and s :: auth_service and p :: policy and raw :: bytes where
  lookup: "rc_phase c i = Looking \<Longrightarrow> Refresh_lookup raw e (rc_world c) = (r, w') \<Longrightarrow>
    race_step e s p raw c \<lparr>rc_world = w',
      rc_phase = (rc_phase c)(i := case r of Inl x \<Rightarrow> Done (Inl x) | Inr fid \<Rightarrow> Found fid)\<rparr>"
| finish: "rc_phase c i = Found fid \<Longrightarrow> Refresh_finish s p raw fid e (rc_world c) = (r, w') \<Longrightarrow>
    race_step e s p raw c \<lparr>rc_world = w', rc_phase = (rc_phase c)(i := Done r)\<rparr>"
| other: "session_step (db (rc_world c)) (db w') \<Longrightarrow> sess_sound e (db w') \<Longrightarrow>
    race_step e s p raw c (c\<lparr>rc_world := w'\<rparr>)"

inductive_cases race_stepE: "race_step e s p raw c c'"

definition presented :: "env \<Rightarrow> bytes \<Rightarrow> bytes \<Rightarrow> database \<Rightarrow> bool" where
  "presented e raw fid d \<longleftrightarrow>
     (\<exists>t \<in> set (auth_refresh_tokens d). t_token_hash t = sha256 e raw \<and> t_family_id t = fid)"

definition consumed :: "env \<Rightarrow> bytes \<Rightarrow> database \<Rightarrow> bool" where
  "consumed e raw d \<longleftrightarrow>
     (\<exists>t \<in> set (auth_refresh_tokens d). t_token_hash t = sha256 e raw \<and> t_revoked_at t \<noteq> None)"

lemma step_presented: "session_step d d' \<Longrightarrow> presented e raw fid d \<Longrightarrow> presented e raw fid d'"
  unfolding presented_def session_step_def same_token_def by metis

lemma step_consumed: "session_step d d' \<Longrightarrow> consumed e raw d \<Longrightarrow> consumed e raw d'"
  unfolding consumed_def session_step_def same_token_def by metis

definition race_ok :: "env \<Rightarrow> bytes \<Rightarrow> race \<Rightarrow> bool" where
  "race_ok e raw c \<longleftrightarrow> sess_sound e (db (rc_world c))
     \<and> (\<forall>i fid. rc_phase c i = Found fid \<longrightarrow> presented e raw fid (db (rc_world c)))
     \<and> (\<forall>i pair. rc_phase c i = Done (Inr pair) \<longrightarrow> consumed e raw (db (rc_world c)))
     \<and> (\<forall>i j a b. rc_phase c i = Done (Inr a) \<and> rc_phase c j = Done (Inr b) \<longrightarrow> i = j)"

lemma race_ok_move:
  assumes "race_ok e raw c" and "session_step (db (rc_world c)) (db w')" and "sess_sound e (db w')"
  shows "race_ok e raw (c\<lparr>rc_world := w'\<rparr>)"
  using assms step_presented step_consumed unfolding race_ok_def by simp

lemma race_ok_finish:
  assumes ok: "race_ok e raw c" and ph: "rc_phase c i = Found fid"
    and run: "Refresh_finish s p raw fid e (rc_world c) = (r, w')"
  shows "race_ok e raw \<lparr>rc_world = w', rc_phase = (rc_phase c)(i := Done r)\<rparr>"
proof -
  let ?d = "db (rc_world c)"
  have s0: "sess_sound e ?d" and pres: "presented e raw fid ?d" using ok ph by (auto simp: race_ok_def)
  have step: "session_step ?d (db w')" by (rule evolvesD [OF auth_session(1) run])
  have s1: "sess_sound e (db w')"
  proof (rule Refresh_finish_sess [OF s0 _ run])
    fix t
    assume "t \<in> set (auth_refresh_tokens ?d)" "t_token_hash t = sha256 e raw"
    moreover obtain t0 where "t0 \<in> set (auth_refresh_tokens ?d)" "t_token_hash t0 = sha256 e raw" "t_family_id t0 = fid"
      using pres unfolding presented_def by blast
    ultimately show "t_family_id t = fid"
      using hash_inj [of ?d t t0] s0 by (simp add: sess_sound_def)
  qed
  have moved: "race_ok e raw (c\<lparr>rc_world := w'\<rparr>)" by (rule race_ok_move [OF ok step s1])
  show ?thesis
  proof (cases r)
    case (Inl x)
    then show ?thesis using moved by (auto simp: race_ok_def)
  next
    case (Inr pair)
    have "consumed e raw (db w')"
      using Refresh_consumes [OF s0] run Inr unfolding consumed_def by blast
    moreover have "rc_phase c j \<noteq> Done (Inr b)" for j b
    proof
      assume "rc_phase c j = Done (Inr b)"
      then have "consumed e raw ?d" using ok by (auto simp: race_ok_def)
      then show False
        using revoked_never_refreshes [of "rc_world c"] s0 run Inr by (auto simp: consumed_def sess_sound_def)
    qed
    ultimately show ?thesis using moved Inr by (auto simp: race_ok_def)
  qed
qed

lemma race_ok_step: "race_step e s p raw c c' \<Longrightarrow> race_ok e raw c \<Longrightarrow> race_ok e raw c'"
proof (induction rule: race_step.induct)
  case (lookup c i r w')
  have db: "db w' = db (rc_world c)" using reads_db [OF auth_service_reads(4) lookup(2)] .
  show ?case
  proof (cases r)
    case (Inl x)
    then show ?thesis using lookup(3) db by (auto simp: race_ok_def)
  next
    case (Inr fid)
    then have "presented e raw fid (db w')"
      using Refresh_lookup_run [of raw e "rc_world c" fid w'] lookup(2) db by (simp add: presented_def)
    then show ?thesis using lookup(3) db Inr by (auto simp: race_ok_def)
  qed
next
  case (finish c i fid r w')
  then show ?case by (intro race_ok_finish)
next
  case (other c w')
  then show ?case by (intro race_ok_move)
qed

lemma two_steps: "R a b \<Longrightarrow> R b c \<Longrightarrow> R\<^sup>*\<^sup>* a c"
  by (erule converse_rtranclp_into_rtranclp) (erule r_into_rtranclp)



subsection \<open>Ending a session\<close>

text \<open>Logging out ends the session: after \<open>Logout\<close> of a stored token has succeeded the
  token's family is revoked, with every token of it, or it was revoked before.\<close>

theorem Logout_ends_family:
  assumes ok: "sess_sound e (db w)" and lib: "library_errors e"
    and t: "t \<in> set (auth_refresh_tokens (db w))" "t_token_hash t = sha256 e raw"
    and run: "Logout p raw e w = (Inr (), w')"
  shows "family_ended (t_family_id t) (db w')"
proof -
  obtain l w1 where l: "optional_row (Q (LookupAuthRefreshToken (sha256 e raw))) e w = (Inr l, w1)"
    and rest: "(case l of None \<Rightarrow> returnE ()
     | Some t \<Rightarrow> bindE (mapE DB (Transaction (Logout_tx p (t_family_id t)))) (\<lambda>(changed, act, c).
         if changed \<and> pol_Mode p = Optional then optionalSessionAudit p act ''LOGOUT'' c
         else returnE ())) e w1 = (Inr (), w')"
    using run by (auto simp: Logout_def run_parts run_askE)
  have db1: "db w1 = db w" using reads_db [OF auth_service_reads(3) l] .
  have sel: "select_one (\<lambda>t. t_token_hash t = sha256 e raw) (auth_refresh_tokens (db w)) = Some t"
    using select_one_key [of t_token_hash "auth_refresh_tokens (db w)" t "sha256 e raw"] t ok
    by (simp add: sess_sound_def wf_db_def wf_tokens_def)
  then have lt: "l = Some t"
    using l lib by (auto simp: run_optional_row LookupAuthRefreshToken_def Q_def stmt_def select_row_def
        library_errors_def split: option.splits)
  from rest lt obtain ch act c w2 where T: "Transaction (Logout_tx p (t_family_id t)) e w1 = (Inr (ch, act, c), w2)"
    and au: "(if ch \<and> pol_Mode p = Optional then optionalSessionAudit p act ''LOGOUT'' c
         else returnE ()) e w2 = (Inr (), w')"
    by (auto simp: run_parts split: prod.splits)
  have logs: "adds_logs (db w2) (db w')"
    using au by (auto simp: run_simps optionalSessionAudit_def logging.refl split: if_splits
        dest: logging.ev_Write [THEN evolvesD])
  from T obtain w3 where tx: "Logout_tx p (t_family_id t) e (tx_start e w1) = (Inr (ch, act, c), w3)" and w2: "db w2 = db w3"
    by (auto simp: run_simps tx_start_def)
  obtain locked w4 where lk: "optional_row (LockRefreshFamily (t_family_id t)) e (tx_start e w1) = (Inr locked, w4)"
    using tx unfolding Logout_tx_def run_parts by blast
  have db4: "db w4 = db w" using reads_db [OF auth_service_reads(1) lk] db1 by simp
  obtain family where family: "locked = Some family"
    using lk family_found [of e "tx_start e w1" t] ok lib t(1) db1 by (cases locked) auto
  have fam: "family \<in> set (refresh_families (db w))" "uuid_in e (t_family_id t) = Some (m_id family)"
    using locked_family [OF lk [unfolded family]] db1 by simp_all
  then have fid: "m_id family = t_family_id t" using token_family_canonical [OF ok t(1)] by simp
  have "family_ended (m_id family) (db w3)"
  proof (cases "m_revoked_at family")
    case None
    then obtain user w5 w6 d where us: "optional_row (FindActiveUserByID (m_user_id family)) e w4 = (Inr user, w5)"
      and rev: "revoke_family family e w5 = (Inr (), w6)"
      and wr: "(if pol_Mode p = Required then Write p (map_option actor_of user) ''LOGOUT'' d else returnE ()) e w6 = (Inr (), w3)"
      using tx lk family unfolding Logout_tx_def Let_def run_parts by (auto simp: run_parts)
    have db5: "db w5 = db w" using reads_db [OF auth_service_reads(2) us] db4 by simp
    have "adds_logs (db w6) (db w3)"
      using wr by (auto simp: run_simps logging.refl split: if_splits dest: logging.ev_Write [THEN evolvesD])
    moreover have "uuid_in e (m_id family) = Some (m_id family)"
      using ok fam(1) by (auto simp: sess_sound_def canonical_sessions_def)
    ultimately show ?thesis
      using revoke_family_ends [OF rev] fam(1) db5 family_ended_logs by metis
  next
    case (Some at)
    then have "db w3 = db w"
      using tx lk family db4 by (auto simp: Logout_tx_def run_parts)
    moreover have "m = family" if "m \<in> set (refresh_families (db w))" "m_id m = m_id family" for m
      using key_inj [of m_id "refresh_families (db w)" m family] that fam(1) ok
      by (auto simp: sess_sound_def wf_db_def wf_families_def)
    ultimately show ?thesis
      using fam(1) Some ok unfolding family_ended_def sess_sound_def sessions_ok_def by fastforce
  qed
  then show ?thesis using fid logs w2 family_ended_logs by simp
qed

definition logged_out :: "(goerr + unit) \<times> world" where
  "logged_out = Logout (sample_policy ''auth.logout'' ''auth'' Optional) ''raw'' sample_env sample_world"

lemma logged_out_run: "fst logged_out = Inr ()"
  by code_simp

theorem Logout_ends_family_witness: "family_ended ''m1'' (db (snd logged_out))"
proof -
  have t: "sample_token ''t1'' ''raw'' None \<in> set (auth_refresh_tokens (db sample_world))"
    by (simp add: sample_world_def sample_db_def)
  have "Logout (sample_policy ''auth.logout'' ''auth'' Optional) ''raw'' sample_env sample_world = (Inr (), snd logged_out)"
    using logged_out_run by (metis prod.collapse logged_out_def)
  from Logout_ends_family [OF sample_sess sample_laws(2) t _ this] show ?thesis
    by (simp add: sample_token_def sample_env_def)
qed

end
