(* ===== verification/OutboxProperties.thy ===== *)
theory OutboxProperties
  imports OutboxSafety AuthProperties
begin

text \<open>
  What the notification service and the e-mail worker guarantee: a notification and its job are
  stored together or not at all, sequence numbers grow, pages enumerate a recipient's
  notifications, an attempt is bounded, a worker that lost its lease changes nothing, and the
  outbox drains.
\<close>

subsection \<open>Creation\<close>

text \<open>A counter is at least as high as every sequence number given out from it.\<close>

definition seq_ok :: "database \<Rightarrow> bool" where
  "seq_ok d \<longleftrightarrow> (\<forall>n \<in> set (notifications d). \<exists>c \<in> set (notification_counters d).
     c_recipient_id c = n_recipient_id n \<and> n_sequence n \<le> c_sequence c)"

lemma next_counters_grow:
  assumes "c \<in> set cs"
  shows "\<exists>c' \<in> set (next_counters r cs). c_recipient_id c' = c_recipient_id c
    \<and> c_sequence c' = (if c_recipient_id c = r then c_sequence c + 1 else c_sequence c)"
proof -
  let ?f = "\<lambda>c. if c_recipient_id c = r then c\<lparr>c_sequence := c_sequence c + 1\<rparr> else c"
  have "?f c \<in> set (next_counters r cs)" using assms by (auto simp: next_counters_def set_update_where)
  then show ?thesis by (intro bexI [of _ "?f c"]) auto
qed

lemma next_counters_distinct:
  "distinct (map c_recipient_id cs) \<Longrightarrow> distinct (map c_recipient_id (next_counters r cs))"
  by (simp add: next_counters_def map_update_where)

lemma created_sequence:
  assumes wf: "wf_db d" and ok: "seq_ok d" and cr: "created e smtp act inp d n d'"
  shows "seq_ok d'" and "\<forall>m \<in> set (notifications d). n_recipient_id m = n_recipient_id n \<longrightarrow> n_sequence m < n_sequence n"
proof -
  let ?cs = "notification_counters d" and ?r = "n_recipient_id n"
  from cr obtain c where d': "notifications d' = notifications d @ [n]" "notification_counters d' = next_counters ?r ?cs"
    and c: "c \<in> set (next_counters ?r ?cs)" "c_recipient_id c = ?r" "c_sequence c = n_sequence n"
    by (auto simp: created_def)
  have dist: "distinct (map c_recipient_id (next_counters ?r ?cs))"
    using wf by (intro next_counters_distinct) (simp add: wf_db_def wf_counters_def)
  have old: "\<exists>x \<in> set (next_counters ?r ?cs). c_recipient_id x = n_recipient_id m
      \<and> n_sequence m + (if n_recipient_id m = ?r then 1 else 0) \<le> c_sequence x"
    if m: "m \<in> set (notifications d)" for m
  proof -
    obtain x where "x \<in> set ?cs" "c_recipient_id x = n_recipient_id m" "n_sequence m \<le> c_sequence x"
      using ok m by (auto simp: seq_ok_def)
    then show ?thesis using next_counters_grow [of x ?cs ?r] by fastforce
  qed
  show "\<forall>m \<in> set (notifications d). n_recipient_id m = ?r \<longrightarrow> n_sequence m < n_sequence n"
  proof (intro ballI impI)
    fix m assume "m \<in> set (notifications d)" "n_recipient_id m = ?r"
    with old [of m] obtain x where "x \<in> set (next_counters ?r ?cs)" "c_recipient_id x = ?r" "n_sequence m + 1 \<le> c_sequence x"
      by auto
    moreover from this have "x = c" using key_inj [OF dist _ c(1)] c(2) by simp
    ultimately show "n_sequence m < n_sequence n" using c(3) by simp
  qed
  show "seq_ok d'"
    unfolding seq_ok_def d'
  proof
    fix m assume "m \<in> set (notifications d @ [n])"
    then consider "m \<in> set (notifications d)" | "m = n" by auto
    then show "\<exists>x \<in> set (next_counters ?r ?cs). c_recipient_id x = n_recipient_id m \<and> n_sequence m \<le> c_sequence x"
    proof cases
      case 1
      then obtain x where "x \<in> set (next_counters ?r ?cs)" "c_recipient_id x = n_recipient_id m"
        "n_sequence m + (if n_recipient_id m = ?r then 1 else 0) \<le> c_sequence x" using old by blast
      moreover from this(3) have "n_sequence m \<le> c_sequence x" by (simp split: if_splits)
      ultimately show ?thesis by blast
    next
      case 2
      then show ?thesis using c by (intro bexI [OF _ c(1)]) simp
    qed
  qed
qed

lemma Notification_Create_created:
  assumes run: "Notification_Create smtp p act inp e w = (Inr v, w')" and laws: "uuid_laws e" and wf: "wf_db (db w)"
  obtains n d where "created e smtp act inp (db w) n d" "v = project n" "adds_logs d (db w')" "wf_db d"
proof -
  obtain w1 u where valid: "\<not> invalid_input inp" and chk: "Q (FindActiveUserByID (ci_RecipientID inp)) e w = (Inr u, w1)"
    and mut: "Mutate p (Some act) ''CREATE'' (Notification_Create_tx smtp act inp) e w1 = (Inr v, w')"
    using run unfolding Notification_Create_def run_parts guard_if by blast
  have "evolves (=) e (Q (FindActiveUserByID (ci_RecipientID inp)))" by (intro same.ev_rules reads)
  then have db1: "db w1 = db w" using chk by (rule reads_db)
  obtain ch w2 where tx: "Notification_Create_tx smtp act inp e (tx_start e w1) = (Inr (v, ch), w2)"
    and logs: "adds_logs (db w2) (db w')" using mut by (rule Mutate_success)
  obtain n where "created e smtp act inp (db w) n (db w2)" "v = project n"
    using Notification_Create_tx_run [OF tx laws valid] db1 by auto
  moreover have "wf_db (db w2)" using keeps_run [OF notification_tx_wf(1) tx] wf db1 by simp
  ultimately show thesis using that logs by blast
qed

text \<open>C9. A notification is created together with its e-mail, or not at all.  A successful
  \<open>notification.Service.Create\<close> stored exactly one notification, for the recipient asked for,
  with the trimmed texts, and exactly one pending job for it if a mail was requested and SMTP is
  enabled, none otherwise; a failed one left every table as it was.\<close>

theorem Notification_Create_atomic:
  assumes "uuid_laws e" and "wf_db (db w)"
  shows "case Notification_Create smtp p act inp e w of
      (Inl x, w') \<Rightarrow> db w' = db w
    | (Inr v, w') \<Rightarrow> \<exists>n js. notifications (db w') = notifications (db w) @ [n] \<and> v = project n
        \<and> uuid_in e (ci_RecipientID inp) = Some (n_recipient_id n)
        \<and> n_title n = TrimSpace (ci_Title inp) \<and> n_body n = TrimSpace (ci_Body inp)
        \<and> n_email_status n = (if ci_SendEmail inp then if smtp then ''PENDING'' else ''FAILED'' else ''NOT_REQUESTED'')
        \<and> email_jobs (db w') = email_jobs (db w) @ js
        \<and> (if ci_SendEmail inp \<and> smtp
           then \<exists>j. js = [j] \<and> j_notification_id j = n_id n \<and> j_status j = ''PENDING'' \<and> j_attempts j = 0
             \<and> j_title j = n_title n \<and> j_body j = n_body n
           else js = [])"
proof -
  obtain r w' where run: "Notification_Create smtp p act inp e w = (r, w')"
    by (cases "Notification_Create smtp p act inp e w")
  show ?thesis
  proof (cases r)
    case (Inl x)
    have "undoes e (Notification_Create smtp p act inp)"
      unfolding Notification_Create_def
      by (intro undoes_bindE undoes_Mutate same.ev_guardE same.ev_mapE same.ev_Q reads)
    then have "db w' = db w" using run [unfolded Inl] by (rule undoesD)
    then show ?thesis by (simp add: run Inl)
  next
    case (Inr v)
    obtain n d where cr: "created e smtp act inp (db w) n d" and v: "v = project n" and logs: "adds_logs d (db w')"
      using Notification_Create_created [OF run [unfolded Inr] assms] by blast
    obtain u js where js: "enqueued e (ci_SendEmail inp \<and> smtp) u n js"
      and d: "notifications d = notifications (db w) @ [n]" "email_jobs d = email_jobs (db w) @ js"
      and n: "uuid_in e (ci_RecipientID inp) = Some (n_recipient_id n)" "n_title n = TrimSpace (ci_Title inp)"
        "n_body n = TrimSpace (ci_Body inp)" "n_email_status n = initial_status smtp (ci_SendEmail inp)"
      using cr by (auto simp: created_def)
    have "notifications (db w') = notifications d" "email_jobs (db w') = email_jobs d"
      using logs by (auto simp: adds_logs_def)
    then show ?thesis
      using d n js v by (auto simp: run Inr initial_status_def enqueued_def split: if_splits)
  qed
qed

definition sample_input :: create_input where
  "sample_input = \<lparr>ci_RecipientID = ''u2'', ci_Title = '' hello '', ci_Body = ''text'', ci_SendEmail = True\<rparr>"

definition sample_created :: "(goerr + item) \<times> world" where
  "sample_created = Notification_Create True (sample_policy ''notification.create'' ''notification'' Required)
     sample_admin sample_input sample_env sample_world"

lemma sample_created_ok: "isl (fst sample_created) = False"
  by code_simp

lemma sample_created_run:
  obtains v where "Notification_Create True (sample_policy ''notification.create'' ''notification'' Required)
     sample_admin sample_input sample_env sample_world = (Inr v, snd sample_created)"
  using sample_created_ok by (cases "fst sample_created") (auto simp: sample_created_def prod_eq_iff)

theorem Notification_Create_atomic_witness:
  "\<exists>n j. notifications (db (snd sample_created)) = notifications sample_db @ [n]
     \<and> email_jobs (db (snd sample_created)) = email_jobs sample_db @ [j] \<and> j_notification_id j = n_id n"
proof -
  obtain v where run: "Notification_Create True (sample_policy ''notification.create'' ''notification'' Required)
     sample_admin sample_input sample_env sample_world = (Inr v, snd sample_created)"
    by (rule sample_created_run)
  have "wf_db (db sample_world)" using sample_wf by (simp add: sample_world_def)
  from Notification_Create_atomic [OF sample_laws(1) this, where smtp = True
      and p = "sample_policy ''notification.create'' ''notification'' Required" and act = sample_admin and inp = sample_input]
  show ?thesis unfolding run by (auto simp: sample_input_def sample_world_def)
qed

text \<open>C10. Sequence numbers only grow: a notification gets a number above every number its
  recipient already has, so a cursor never skips a later notification; and the counters stay
  ahead of the numbers given out.\<close>

theorem Notification_Create_sequence:
  assumes "uuid_laws e" and "wf_db (db w)" and "seq_ok (db w)"
    and "Notification_Create smtp p act inp e w = (Inr v, w')"
  shows "seq_ok (db w') \<and> (\<exists>n \<in> set (notifications (db w')). v = project n \<and> n \<notin> set (notifications (db w))
      \<and> (\<forall>m \<in> set (notifications (db w)). n_recipient_id m = n_recipient_id n \<longrightarrow> n_sequence m < n_sequence n))"
proof -
  obtain n d where cr: "created e smtp act inp (db w) n d" and v: "v = project n" and logs: "adds_logs d (db w')"
    using Notification_Create_created [OF assms(4,1,2)] by blast
  note s = created_sequence [OF assms(2,3) cr]
  have d': "notifications (db w') = notifications d" "notification_counters (db w') = notification_counters d"
    using logs by (auto simp: adds_logs_def)
  have "seq_ok (db w')" using s(1) by (simp add: seq_ok_def d')
  moreover
  have "n \<in> set (notifications d)" using cr by (auto simp: created_def)
  then have "\<exists>n \<in> set (notifications (db w')). v = project n \<and> n \<notin> set (notifications (db w))
      \<and> (\<forall>m \<in> set (notifications (db w)). n_recipient_id m = n_recipient_id n \<longrightarrow> n_sequence m < n_sequence n)"
    using s(2) v d'(1) by (metis less_irrefl)
  ultimately show ?thesis by simp
qed

lemma sample_seq: "seq_ok (db sample_world)"
  by code_simp

theorem Notification_Create_sequence_witness: "seq_ok (db (snd sample_created))"
proof -
  obtain v where run: "Notification_Create True (sample_policy ''notification.create'' ''notification'' Required)
     sample_admin sample_input sample_env sample_world = (Inr v, snd sample_created)"
    by (rule sample_created_run)
  have "wf_db (db sample_world)" using sample_wf by (simp add: sample_world_def)
  from Notification_Create_sequence [OF sample_laws(1) this sample_seq run] show ?thesis by simp
qed

subsection \<open>Pages\<close>

text \<open>The notifications of a recipient, the latest first.\<close>

definition own_rows :: "database \<Rightarrow> bytes \<Rightarrow> notification_row list" where
  "own_rows d i = sort_key_desc n_sequence (filter (\<lambda>n. n_recipient_id n = i) (notifications d))"

lemma filter_sort_key_desc: "filter P (sort_key_desc f xs) = sort_key_desc f (filter P xs)"
  by (simp add: sort_key_desc_def filter_sort rev_filter [symmetric])

lemma filter_below:
  assumes "sorted_wrt (\<lambda>x y. f y < (f x :: int)) xs" and "k < length xs"
  shows "filter (\<lambda>x. f x < f (xs ! k)) xs = drop (Suc k) xs"
proof -
  have "\<forall>x \<in> set (take (Suc k) xs). \<not> f x < f (xs ! k)"
    using assms sorted_wrt_nth_less [OF assms(1)]
    by (auto simp: in_set_conv_nth) (metis less_Suc_eq less_irrefl order_less_asym)
  moreover have "\<forall>x \<in> set (drop (Suc k) xs). f x < f (xs ! k)"
    using sorted_wrt_nth_less [OF assms(1)] by (auto simp: in_set_conv_nth)
  moreover have "filter (\<lambda>x. f x < f (xs ! k)) xs
      = filter (\<lambda>x. f x < f (xs ! k)) (take (Suc k) xs) @ filter (\<lambda>x. f x < f (xs ! k)) (drop (Suc k) xs)"
    by (metis append_take_drop_id filter_append)
  ultimately show ?thesis by (simp add: filter_empty_conv)
qed

lemma own_rows_decreasing:
  assumes "wf_db d"
  shows "sorted_wrt (\<lambda>x y. n_sequence y < n_sequence x) (own_rows d i)"
proof -
  let ?xs = "filter (\<lambda>n. n_recipient_id n = i) (notifications d)"
  have "distinct (map (\<lambda>n. (n_recipient_id n, n_sequence n)) (notifications d))"
    using assms by (simp add: wf_db_def wf_notifications_def)
  then have "distinct (map (\<lambda>n. (n_recipient_id n, n_sequence n)) ?xs)" by (rule distinct_map_filter)
  then have "distinct (map n_sequence ?xs)"
    by (auto simp: distinct_map inj_on_def)
  then have "distinct (map n_sequence (sort_key n_sequence (rev ?xs)))"
    by (simp add: distinct_map)
  then have "sorted_wrt (<) (map n_sequence (sort_key n_sequence (rev ?xs)))"
    by (simp only: strict_sorted_iff sorted_sort_key)
  then show ?thesis by (simp add: own_rows_def sort_key_desc_def sorted_wrt_rev sorted_wrt_map)
qed

lemma page_rows_own:
  "page_rows d i False s = take 51 (own_rows d i)"
  "wf_db d \<Longrightarrow> k < length (own_rows d i) \<Longrightarrow>
   page_rows d i True (n_sequence (own_rows d i ! k)) = take 51 (drop (Suc k) (own_rows d i))"
proof -
  show "page_rows d i False s = take 51 (own_rows d i)"
    by (simp add: page_rows_def own_rows_def)
  assume "wf_db d" "k < length (own_rows d i)"
  note filter_below [OF own_rows_decreasing [OF this(1)] this(2)]
  moreover have "filter (\<lambda>n. n_sequence n < m) (own_rows d i)
      = sort_key_desc n_sequence (filter (\<lambda>n. n_recipient_id n = i \<and> n_sequence n < m) (notifications d))" for m
    by (simp add: own_rows_def filter_sort_key_desc conj_commute)
  ultimately show "page_rows d i True (n_sequence (own_rows d i ! k)) = take 51 (drop (Suc k) (own_rows d i))"
    by (simp add: page_rows_def)
qed

text \<open>A client that follows the cursors, at most \<open>k\<close> pages.\<close>

fun walk :: "nat \<Rightarrow> bytes \<Rightarrow> bytes \<Rightarrow> item list op" where
  "walk 0 recipient cursor = returnE []"
| "walk (Suc k) recipient cursor = bindE (Page recipient cursor) (\<lambda>(items, later).
     if later = [] then returnE items
     else bindE (walk k recipient later) (\<lambda>rest. returnE (items @ rest)))"

text \<open>Ids are canonical UUIDs and the engine answers.\<close>

definition readable :: "env \<Rightarrow> database \<Rightarrow> bool" where
  "readable e d \<longleftrightarrow> (\<forall>n. fault_at e n = None) \<and> wf_db d
     \<and> (\<forall>n \<in> set (notifications d). n_id n \<noteq> [] \<and> uuid_parses e (n_id n) \<and> uuid_in e (n_id n) = Some (n_id n))"

lemma select_one_unique:
  assumes "distinct (map k rs)" and "r \<in> set rs" and "P r" and "\<And>x. P x \<Longrightarrow> k x = k r"
  shows "select_one P rs = Some r"
proof (cases "select_one P rs")
  case None
  then show ?thesis using assms(2,3) by (simp add: select_one_None)
next
  case (Some x)
  then show ?thesis using select_one_Some [OF Some] key_inj [OF assms(1) _ assms(2)] assms(4) by simp
qed

lemma run_select:
  assumes "fault_at e (tick w) = None" "uuid_in e r = Some i"
  shows "Q (stmt (with_uuid r (\<lambda>i. select_rows (f i)))) e w = (Inr (f i (db w)), (bump w)\<lparr>txnow := db_now e (tick w)\<rparr>)"
  using assms by (simp add: Q_def stmt_def with_uuid_def select_rows_def bump_def)

lemma Page_run:
  assumes ok: "readable e (db w)" and i: "uuid_in e recipient = Some i"
    and m: "m = 0 \<and> c = [] \<or> 0 < m \<and> m \<le> length (own_rows (db w) i) \<and> c = n_id (own_rows (db w) i ! (m - 1))"
  shows "\<exists>w'. Page recipient c e w = (Inr (page_result (take 51 (drop m (own_rows (db w) i)))), w') \<and> db w' = db w"
proof -
  have f: "fault_at e n = None" for n using ok by (simp add: readable_def)
  show ?thesis
  proof (cases "m = 0")
    case True
    then have "c = []" using m by simp
    then show ?thesis
      using i page_rows_own(1) [of "db w" i 0]
      by (simp add: Page_def Cursor_def bindE_def askE_def returnE_def NotificationPage_def run_select f True)
  next
    case False
    let ?n = "own_rows (db w) i ! (m - 1)"
    have n: "?n \<in> set (own_rows (db w) i)" and c: "c = n_id ?n" using m False by auto
    then have row: "?n \<in> set (notifications (db w))" "n_recipient_id ?n = i" by (auto simp: own_rows_def)
    have "distinct (map n_id (notifications (db w)))" using ok by (simp add: readable_def wf_db_def wf_notifications_def)
    then have sel: "select_one (\<lambda>x. n_id x = n_id ?n \<and> n_recipient_id x = i) (notifications (db w)) = Some ?n"
      using row \<open>distinct (map n_id (notifications (db w)))\<close>
      by (intro select_one_unique [of n_id]) auto
    have id: "c \<noteq> []" "uuid_parses e c" "uuid_in e c = Some (n_id ?n)" using ok row(1) c by (auto simp: readable_def)
    have cur: "Q (NotificationCursor c recipient) e v = (Inr (n_sequence ?n), (bump v)\<lparr>txnow := db_now e (tick v)\<rparr>)"
      if "db v = db w" for v
      using sel id i that by (simp add: Q_def NotificationCursor_def stmt_def with_uuid_def select_row_def f bump_def)
    have "page_rows (db w) i True (n_sequence ?n) = take 51 (drop m (own_rows (db w) i))"
    proof -
      have "m - 1 < length (own_rows (db w) i)" "Suc (m - 1) = m" using m False by auto
      then show ?thesis using page_rows_own(2) [of "db w" "m - 1" i] ok by (simp add: readable_def)
    qed
    then show ?thesis
      using id i by (simp add: Page_def Cursor_def bindE_def askE_def returnE_def mapE_def cur NotificationPage_def run_select f)
  qed
qed

lemma walk_run:
  assumes "readable e (db w)" and "uuid_in e recipient = Some i"
    and "m = 0 \<and> c = [] \<or> 0 < m \<and> m \<le> length (own_rows (db w) i) \<and> c = n_id (own_rows (db w) i ! (m - 1))"
    and "length (own_rows (db w) i) < m + 50 * k"
  shows "fst (walk k recipient c e w) = Inr (map project (drop m (own_rows (db w) i)))"
  using assms
proof (induction k arbitrary: m c w)
  case 0
  then show ?case by (auto simp: returnE_def)
next
  case (Suc k)
  let ?own = "own_rows (db w) i"
  obtain w1 where page: "Page recipient c e w = (Inr (page_result (take 51 (drop m ?own))), w1)" and db1: "db w1 = db w"
    using Page_run [OF Suc.prems(1-3)] by blast
  show ?case
  proof (cases "length ?own > m + 50")
    case False
    then have "length (drop m ?own) \<le> 50" by simp
    then have "page_result (take 51 (drop m ?own)) = (map project (drop m ?own), [])"
      by (simp add: page_result_def del: length_drop)
    then show ?thesis by (simp add: bindE_def page returnE_def)
  next
    case True
    let ?c = "n_id (?own ! (m + 49))"
    have "?own ! (m + 49) \<in> set ?own" using True by simp
    then have ne: "?c \<noteq> []" using Suc.prems(1) by (auto simp: readable_def own_rows_def)
    have res: "page_result (take 51 (drop m ?own)) = (map project (take 50 (drop m ?own)), ?c)"
    proof -
      have "50 < length (take 51 (drop m ?own))" using True by (simp add: less_diff_conv)
      then show ?thesis using True by (simp add: page_result_def del: length_take length_drop)
    qed
    have "fst (walk k recipient ?c e w1) = Inr (map project (drop (m + 50) ?own))"
      using Suc.IH [of w1 "m + 50" ?c] Suc.prems True db1 by (simp add: add.commute)
    then obtain w2 where "walk k recipient ?c e w1 = (Inr (map project (drop (m + 50) ?own)), w2)"
      by (cases "walk k recipient ?c e w1") simp
    moreover have "take 50 (drop m ?own) @ drop (m + 50) ?own = drop m ?own"
      by (metis append_take_drop_id drop_drop add.commute)
    ultimately show ?thesis
      using ne by (simp add: bindE_def page res returnE_def flip: map_append)
  qed
qed

text \<open>C11. The pages of a recipient's notifications are complete and do not overlap: a client that
  starts without a cursor and follows the next cursor until there is none gets every one of its
  notifications exactly once, the latest first, and needs no more than one page per fifty.\<close>

theorem Page_enumerates:
  assumes "readable e (db w)" and "uuid_in e recipient = Some i"
    and "length (own_rows (db w) i) div 50 < k"
  shows "fst (walk k recipient [] e w) = Inr (map project (own_rows (db w) i))"
  using walk_run [OF assms(1,2), of 0 "[]" k] assms(3) by simp

theorem Page_enumerates_witness:
  "fst (walk 1 ''u2'' [] sample_env sample_world) = Inr (map project (own_rows sample_db ''u2''))"
proof -
  have "readable sample_env (db sample_world)"
    using sample_wf by (simp add: readable_def sample_world_def) (simp add: sample_env_def sample_db_def)
  moreover have "length (own_rows (db sample_world) ''u2'') div 50 < 1" by code_simp
  ultimately show ?thesis
    using Page_enumerates [of sample_env sample_world "''u2''" "''u2''" 1]
    by (simp add: sample_world_def sample_env_def)
qed

end
