(* ===== verification/OutboxSystem.thy ===== *)
theory OutboxSystem
  imports OutboxProperties
begin

text \<open>
  The workers running side by side.  A worker claims, renews, sends and completes in separate
  transactions; between any two of them another worker, or any other service, may run, and a
  worker may crash or lose its lease.  \<open>handed\<close> records the id of every job that was given to
  a sender.
\<close>

datatype worker_phase = Polling | Delivering email_job | Returned email_job bool

record outbox_state =
  o_world :: world
  o_phase :: "nat \<Rightarrow> worker_phase"
  o_handed :: "bytes list"

inductive outbox_run :: "env \<Rightarrow> operations \<Rightarrow> outbox_state \<Rightarrow> outbox_state \<Rightarrow> bool"
  for e :: env and c :: operations where
  claims: "o_phase s i = Polling \<Longrightarrow> claim c e (o_world s) = (Inr (Some job), w') \<Longrightarrow>
     outbox_run e c s (s\<lparr>o_world := w', o_phase := (o_phase s)(i := Delivering job), o_handed := j_id job # o_handed s\<rparr>)"
| idles: "o_phase s i = Polling \<Longrightarrow> claim c e (o_world s) = (r, w') \<Longrightarrow> (\<forall>job. r \<noteq> Inr (Some job)) \<Longrightarrow>
     outbox_run e c s (s\<lparr>o_world := w'\<rparr>)"
| renews: "o_phase s i = Delivering job \<Longrightarrow> renew c job e (o_world s) = (r, w') \<Longrightarrow>
     outbox_run e c s (s\<lparr>o_world := w'\<rparr>)"
| sends: "o_phase s i = Delivering job \<Longrightarrow>
     outbox_run e c s (s\<lparr>o_phase := (o_phase s)(i := Returned job success)\<rparr>)"
| completes: "o_phase s i = Returned job success \<Longrightarrow> finish c job success e (o_world s) = (r, w') \<Longrightarrow>
     outbox_run e c s (s\<lparr>o_world := w', o_phase := (o_phase s)(i := Polling)\<rparr>)"
| crashes: "outbox_run e c s (s\<lparr>o_phase := (o_phase s)(i := Polling)\<rparr>)"
| others: "outbox_step e c (db (o_world s)) (db w') \<Longrightarrow> outbox_run e c s (s\<lparr>o_world := w'\<rparr>)"

inductive_cases outbox_runE: "outbox_run e c s s'"

definition worker_knows :: "database \<Rightarrow> worker_phase \<Rightarrow> bool" where
  "worker_knows d ph \<longleftrightarrow> (case ph of Polling \<Rightarrow> True | Delivering job \<Rightarrow> known d job | Returned job _ \<Rightarrow> known d job)"

text \<open>The attempts of a job count its deliveries.\<close>

definition handed_ok :: "bytes list \<Rightarrow> database \<Rightarrow> bool" where
  "handed_ok h d \<longleftrightarrow> set h \<subseteq> j_id ` set (email_jobs d)
     \<and> (\<forall>j \<in> set (email_jobs d). int (count_list h (j_id j)) \<le> j_attempts j)"

definition outbox_inv :: "env \<Rightarrow> operations \<Rightarrow> database \<Rightarrow> outbox_state \<Rightarrow> bool" where
  "outbox_inv e c d0 s \<longleftrightarrow> outbox_sound e c (db (o_world s)) \<and> jobs_advance d0 (db (o_world s))
     \<and> (\<forall>i. worker_knows (db (o_world s)) (o_phase s i)) \<and> handed_ok (o_handed s) (db (o_world s))"

lemma worker_knows_advance: "worker_knows d ph \<Longrightarrow> jobs_advance d d' \<Longrightarrow> worker_knows d' ph"
  by (auto simp: worker_knows_def split: worker_phase.splits intro: known_advance)

lemma handed_advance:
  assumes ok: "handed_ok h d" and adv: "jobs_advance d d'" and sound: "outbox_sound e c d'"
  shows "handed_ok h d'"
  unfolding handed_ok_def
proof (intro conjI ballI)
  have desc: "\<exists>y \<in> set (email_jobs d'). j_id y = j_id x \<and> j_attempts x \<le> j_attempts y" if "x \<in> set (email_jobs d)" for x
    using adv that by (auto simp: jobs_advance_def advances_def same_job_def)
  have "j_id x \<in> j_id ` set (email_jobs d')" if "x \<in> set (email_jobs d)" for x
    using desc [OF that] by (metis imageI)
  then have "j_id ` set (email_jobs d) \<subseteq> j_id ` set (email_jobs d')" by (simp add: image_subset_iff)
  then show "set h \<subseteq> j_id ` set (email_jobs d')" using ok by (auto simp: handed_ok_def)
  fix y assume y: "y \<in> set (email_jobs d')"
  show "int (count_list h (j_id y)) \<le> j_attempts y"
  proof (cases "j_id y \<in> set h")
    case True
    then obtain x where x: "x \<in> set (email_jobs d)" "j_id x = j_id y" using ok by (auto simp: handed_ok_def)
    obtain y' where y': "y' \<in> set (email_jobs d')" "j_id y' = j_id x" "j_attempts x \<le> j_attempts y'"
      using desc [OF x(1)] by blast
    then have "y' = y" using job_unique(1) [OF _ y'(1) y] x(2) sound by (simp add: outbox_sound_def)
    moreover have "int (count_list h (j_id x)) \<le> j_attempts x" using ok x(1) by (simp add: handed_ok_def)
    ultimately show ?thesis using y'(3) x(2) by simp
  next
    case False
    then have "count_list h (j_id y) = 0" by (simp add: count_list_0_iff)
    then show ?thesis using sound y by (simp add: outbox_sound_def)
  qed
qed

text \<open>A claim that hands out a job has counted the attempt.\<close>

lemma claim_hands_out:
  assumes ok: "outbox_sound e c (db w)" and run: "claim c e w = (Inr (Some job), w')"
  obtains old where "old \<in> set (email_jobs (db w))" "j_id old = j_id job" "job \<in> set (email_jobs (db w'))"
    "j_attempts job = j_attempts old + 1" "j_attempts job \<le> op_MaxAttempts c" "j_status job = ''PROCESSING''"
    "\<not> completed_status (j_status old)"
proof -
  obtain w1 where tx: "claim_tx c e (tx_start e w) = (Inr (Some job), w1)" "db w' = db w1"
    using run by (auto simp: claim_def run_simps tx_start_def)
  from claim_tx_case [OF _ tx(1)] ok tx(2) have "claim_case e c (db w) (Some job) (db w')" by simp
  then obtain now old tk where "old \<in> set (email_jobs (db w))" "claimable now old" "j_attempts old < op_MaxAttempts c"
    and job: "job = claim_update (gen_uuid e tk) (now + op_LeaseSeconds c * 1000) old"
    and w': "db w' = (db w)\<lparr>email_jobs := update_where (\<lambda>x. j_id x = j_id old)
              (claim_update (gen_uuid e tk) (now + op_LeaseSeconds c * 1000)) (email_jobs (db w))\<rparr>"
    by (auto simp: claim_case_def split: if_splits)
  moreover from this have "job \<in> set (email_jobs (db w'))" by (auto simp: set_update_where)
  ultimately show thesis
    using that [of old] claimable_open by (simp add: job)
qed

lemma handed_claim:
  assumes sound: "outbox_sound e c (db w)" and h: "handed_ok h (db w)" and run: "claim c e w = (Inr (Some job), w')"
  shows "handed_ok (j_id job # h) (db w')" and "known (db w') job"
proof -
  obtain old where old: "old \<in> set (email_jobs (db w))" "j_id old = j_id job" and job: "job \<in> set (email_jobs (db w'))"
    and att: "j_attempts job = j_attempts old + 1"
    using claim_hands_out [OF sound run] by metis
  have step: "outbox_sound e c (db w') \<and> jobs_advance (db w) (db w')"
    using evolvesD [OF claim_step run] sound by (simp add: outbox_step_def)
  then have h': "handed_ok h (db w')" using handed_advance [OF h] by blast
  show "known (db w') job" using job by (auto simp: known_def same_job_def)
  have "int (count_list h (j_id job)) \<le> j_attempts old" using h old by (auto simp: handed_ok_def)
  moreover have "y = job" if "y \<in> set (email_jobs (db w'))" "j_id y = j_id job" for y
    using job_unique(1) [OF _ that(1) job that(2)] step by (simp add: outbox_sound_def)
  moreover have "int (count_list h (j_id y)) \<le> j_attempts y" if "y \<in> set (email_jobs (db w'))" for y
    using h' that by (simp add: handed_ok_def)
  ultimately have "int (count_list (j_id job # h) (j_id y)) \<le> j_attempts y" if "y \<in> set (email_jobs (db w'))" for y
    using that att by (cases "j_id y = j_id job") fastforce+
  then show "handed_ok (j_id job # h) (db w')" using h' job by (auto simp: handed_ok_def)
qed

lemma outbox_inv_step:
  assumes inv: "outbox_inv e c d0 s" and run: "outbox_run e c s s'"
  shows "outbox_inv e c d0 s'"
proof -
  let ?d = "db (o_world s)"
  from inv have sound: "outbox_sound e c ?d" and knows: "\<And>i. worker_knows ?d (o_phase s i)"
    and handed: "handed_ok (o_handed s) ?d" and d0: "jobs_advance d0 ?d"
    by (auto simp: outbox_inv_def)
  have move: "outbox_inv e c d0 (s\<lparr>o_world := w', o_phase := ph\<rparr>)"
    if "outbox_sound e c (db w') \<and> jobs_advance ?d (db w')" "\<And>i. worker_knows (db w') (ph i)" for w' ph
    using that d0 handed_advance [OF handed] jobs_advance_trans by (auto simp: outbox_inv_def)
  have quiet: "outbox_inv e c d0 (s\<lparr>o_world := w'\<rparr>)" if "outbox_step e c ?d (db w')" for w'
  proof -
    have "outbox_sound e c (db w') \<and> jobs_advance ?d (db w')" using that sound by (simp add: outbox_step_def)
    then show ?thesis using move [of w' "o_phase s"] worker_knows_advance knows by auto
  qed
  show ?thesis
    using run
  proof cases
    case (claims i job w')
    have step: "outbox_sound e c (db w') \<and> jobs_advance ?d (db w')"
      using evolvesD [OF claim_step claims(3)] sound by (simp add: outbox_step_def)
    note h = handed_claim [OF sound handed claims(3)]
    show ?thesis
      using step h d0 jobs_advance_trans worker_knows_advance [OF knows]
      by (auto simp: outbox_inv_def claims(1) worker_knows_def)
  next
    case (idles i r w')
    then show ?thesis using quiet evolvesD [OF claim_step] by blast
  next
    case (renews i job r w')
    then show ?thesis using quiet evolvesD [OF renew_step] by blast
  next
    case (sends i job ok)
    then show ?thesis
      using inv knows [of i] by (auto simp: outbox_inv_def worker_knows_def)
  next
    case (completes i job ok r w')
    then have "known ?d job" using knows [of i] by (simp add: worker_knows_def)
    then have "outbox_sound e c (db w') \<and> jobs_advance ?d (db w')" using finish_run [OF sound _ completes(3)] by blast
    moreover from this have "worker_knows (db w') (((o_phase s)(i := Polling)) k)" for k
      using worker_knows_advance [OF knows [of k]] by (simp add: worker_knows_def [of _ Polling])
    ultimately show ?thesis unfolding completes(1) by (rule move)
  next
    case (crashes i)
    then show ?thesis using inv by (auto simp: outbox_inv_def worker_knows_def)
  next
    case (others w')
    then show ?thesis using quiet by blast
  qed
qed

lemma outbox_inv_reach: "(outbox_run e c)\<^sup>*\<^sup>* s s' \<Longrightarrow> outbox_inv e c d0 s \<Longrightarrow> outbox_inv e c d0 s'"
  by (induction rule: rtranclp_induct) (auto intro: outbox_inv_step)

definition fresh_workers :: "world \<Rightarrow> outbox_state" where
  "fresh_workers w = \<lparr>o_world = w, o_phase = (\<lambda>_. Polling), o_handed = []\<rparr>"

lemma outbox_inv_start: "outbox_sound e c (db w) \<Longrightarrow> outbox_inv e c (db w) (fresh_workers w)"
  by (auto simp: outbox_inv_def fresh_workers_def worker_knows_def handed_ok_def outbox_sound_def jobs_advance_refl)

subsection \<open>What the outbox guarantees\<close>

text \<open>C12. A mail is attempted a bounded number of times.  Whatever the workers do side by side,
  whichever of them crash or lose their lease, and whatever other services run in between, no job
  is handed to the sender more often than \<open>WORKER_MAX_ATTEMPTS\<close>.\<close>

theorem deliveries_bounded:
  assumes "outbox_sound e c (db w)" and "(outbox_run e c)\<^sup>*\<^sup>* (fresh_workers w) s"
  shows "int (count_list (o_handed s) ident) \<le> op_MaxAttempts c"
proof -
  have inv: "outbox_inv e c (db w) s" by (rule outbox_inv_reach [OF assms(2) outbox_inv_start [OF assms(1)]])
  show ?thesis
  proof (cases "ident \<in> set (o_handed s)")
    case True
    then obtain j where "j \<in> set (email_jobs (db (o_world s)))" "j_id j = ident"
      using inv by (auto simp: outbox_inv_def handed_ok_def)
    then show ?thesis using inv by (fastforce simp: outbox_inv_def handed_ok_def outbox_sound_def)
  next
    case False
    then have "count_list (o_handed s) ident = 0" by (simp add: count_list_0_iff)
    then show ?thesis using assms(1) by (simp add: outbox_sound_def)
  qed
qed

definition sample_operations :: operations where
  "sample_operations = \<lparr>op_Concurrency = 2, op_PollSeconds = 3, op_LeaseSeconds = 60, op_RenewSeconds = 20,
     op_MaxAttempts = 5, op_BatchSize = 500, op_SessionDays = 30, op_OutboxDays = 30, op_AuditDays = 365,
     op_AuditEnabled = False\<rparr>"

lemma sample_outbox: "outbox_sound sample_env sample_operations (db sample_world)"
proof -
  have "agree sample_db" by code_simp
  then show ?thesis
    using sample_wf sample_laws
    by (simp add: outbox_sound_def canonical_outbox_def sample_env_def sample_world_def)
      (simp add: sample_db_def sample_job_def sample_operations_def)
qed

definition sample_claim :: "(goerr + email_job option) \<times> world" where
  "sample_claim = claim sample_operations sample_env sample_world"

definition sample_leased :: email_job where
  "sample_leased = claim_update ''gxxx'' 61001 sample_job"

lemma sample_claim_run: "claim sample_operations sample_env sample_world = (Inr (Some sample_leased), snd sample_claim)"
proof -
  have "fst sample_claim = Inr (Some sample_leased)" by code_simp
  then show ?thesis by (simp add: sample_claim_def prod_eq_iff)
qed

lemma sample_claim_reached:
  "(outbox_run sample_env sample_operations)\<^sup>*\<^sup>* (fresh_workers sample_world)
     ((fresh_workers sample_world)\<lparr>o_world := snd sample_claim, o_phase := (\<lambda>_. Polling)(0 := Delivering sample_leased),
       o_handed := [''j1'']\<rparr>)"
proof -
  have "outbox_run sample_env sample_operations (fresh_workers sample_world)
     ((fresh_workers sample_world)\<lparr>o_world := snd sample_claim,
       o_phase := (o_phase (fresh_workers sample_world))(0 := Delivering sample_leased),
       o_handed := j_id sample_leased # o_handed (fresh_workers sample_world)\<rparr>)"
    by (rule outbox_run.claims) (simp_all add: fresh_workers_def sample_claim_run)
  then show ?thesis
    by (simp add: fresh_workers_def sample_leased_def sample_job_def)
qed

theorem deliveries_bounded_witness: "int (count_list [''j1''] ''j1'') \<le> op_MaxAttempts sample_operations"
  using deliveries_bounded [OF sample_outbox sample_claim_reached, of "''j1''"] by simp



text \<open>A worker that lost its lease changes nothing: if the stored job carries another lease, or
  none, or one that has run out by the worker's clock, recording the outcome is a no-op.\<close>

theorem stale_worker_is_ignored:
  assumes "outbox_sound e c (db w)" and "known (db w) job"
    and "\<And>current. current \<in> set (email_jobs (db w)) \<Longrightarrow> j_id current = j_id job \<Longrightarrow>
      j_lease_id current \<noteq> j_lease_id job \<or> (\<forall>t n. j_lease_until current = Some t \<longrightarrow> t \<le> app_now e n)"
    and "finish c job success e w = (r, w')"
  shows "db w' = db w"
proof (cases r)
  case (Inl x)
  then show ?thesis using assms(4) Transaction_rollback by (auto simp: finish_def)
next
  case (Inr a)
  then obtain w1 where tx: "finish_tx c job success e (tx_start e w) = (Inr a, w1)" "db w' = db w1"
    using assms(4) by (auto simp: finish_def run_simps tx_start_def)
  have "finish_case e c job success (db w) a (db w')"
    using finish_tx_case [OF _ tx(1)] known_ids [OF assms(1,2)] assms(1) tx(2) by simp
  moreover have "\<not> holds_lease job current now"
    if "now \<in> range (app_now e)" "current \<in> set (email_jobs (db w))" "j_id current = j_id job" for now current
    using assms(3) [OF that(2,3)] that(1) by (auto simp: holds_lease_def not_less [symmetric] split: option.splits)
  ultimately show ?thesis unfolding finish_case_def by metis
qed

theorem stale_worker_is_ignored_witness:
  "db (snd (finish sample_operations (claim_update ''other'' 9 sample_job) True sample_env sample_world)) = db sample_world"
proof (rule stale_worker_is_ignored [OF sample_outbox])
  have "sample_job \<in> set (email_jobs (db sample_world))" by (simp add: sample_world_def sample_db_def)
  then show "known (db sample_world) (claim_update ''other'' 9 sample_job)"
    by (auto simp: known_def same_job_def claim_update_def)
  show "j_lease_id current \<noteq> j_lease_id (claim_update ''other'' 9 sample_job)
      \<or> (\<forall>t n. j_lease_until current = Some t \<longrightarrow> t \<le> app_now sample_env n)"
    if "current \<in> set (email_jobs (db sample_world))" for current
    using that by (simp add: sample_world_def sample_db_def sample_job_def)
qed (simp add: prod_eq_iff)

text \<open>A leased job is not handed out twice: while the lease of a job runs, by the clock of the
  claiming worker, no claim returns that job.\<close>

theorem claim_respects_leases:
  assumes "outbox_sound e c (db w)" and "claim c e w = (Inr (Some job), w')"
    and "j \<in> set (email_jobs (db w))" and "j_status j = ''PROCESSING''" and "j_lease_until j = Some t"
    and "\<And>n. app_now e n < t"
  shows "j_id job \<noteq> j_id j"
proof
  assume same: "j_id job = j_id j"
  obtain w1 where tx: "claim_tx c e (tx_start e w) = (Inr (Some job), w1)" "db w' = db w1"
    using assms(2) by (auto simp: claim_def run_simps tx_start_def)
  from claim_tx_case [OF _ tx(1)] assms(1) tx(2) have "claim_case e c (db w) (Some job) (db w')" by simp
  then obtain now old where "now \<in> range (app_now e)" "old \<in> set (email_jobs (db w))" "claimable now old" "j_id job = j_id old"
    by (auto simp: claim_case_def split: if_splits) (metis claim_update_fields(1) rangeI)
  moreover from this have "old = j" using job_unique(1) [OF _ _ assms(3)] same assms(1) by (simp add: outbox_sound_def)
  ultimately show False using assms(4-6) by (force simp: claimable_def not_le [symmetric])
qed

text \<open>Two jobs, the first leased until long after the worker's clock.\<close>

definition still_env :: env where
  "still_env = sample_env\<lparr>app_now := \<lambda>_. 1000\<rparr>"

definition leased_world :: world where
  "leased_world = sample_world\<lparr>db := sample_db\<lparr>
     notifications := notifications sample_db @ [(hd (notifications sample_db))\<lparr>n_id := ''n2'', n_sequence := 2\<rparr>],
     email_jobs := [sample_leased, sample_job\<lparr>j_id := ''j2'', j_notification_id := ''n2''\<rparr>]\<rparr>\<rparr>"

lemma leased_sound: "outbox_sound still_env sample_operations (db leased_world)"
proof -
  have "wf_db (db leased_world)" "agree (db leased_world)" by code_simp+
  moreover have "uuid_laws still_env" by (simp add: uuid_laws_def still_env_def sample_env_def)
  ultimately show ?thesis
    by (simp add: outbox_sound_def canonical_outbox_def leased_world_def still_env_def sample_env_def sample_leased_def
        sample_job_def sample_operations_def)
qed

theorem claim_respects_leases_witness: "''j2'' \<noteq> j_id sample_leased"
proof -
  have "fst (claim sample_operations still_env leased_world)
      = Inr (Some (claim_update ''gxxx'' 61000 (sample_job\<lparr>j_id := ''j2'', j_notification_id := ''n2''\<rparr>)))"
    by code_simp
  then obtain w' where run: "claim sample_operations still_env leased_world
      = (Inr (Some (claim_update ''gxxx'' 61000 (sample_job\<lparr>j_id := ''j2'', j_notification_id := ''n2''\<rparr>))), w')"
    by (metis prod.collapse)
  have "sample_leased \<in> set (email_jobs (db leased_world))" by (simp add: leased_world_def)
  from claim_respects_leases [OF leased_sound run this] show ?thesis
    by (simp add: sample_leased_def still_env_def)
qed

text \<open>What is left to do: the attempts each open job may still take, and giving up on it.\<close>

definition pending_work :: "operations \<Rightarrow> database \<Rightarrow> int" where
  "pending_work c d = sum_list (map (\<lambda>j. if completed_status (j_status j) then 0
     else op_MaxAttempts c + 1 - j_attempts j) (email_jobs d))"

lemma pending_work_update:
  assumes "distinct (map j_id js)" and "j \<in> set js"
  shows "sum_list (map f (update_where (\<lambda>x. j_id x = j_id j) g js)) = sum_list (map f js) - f j + (f (g j) :: int)"
  using assms
proof (induction js)
  case Nil
  then show ?case by simp
next
  case (Cons x xs)
  show ?case
  proof (cases "j_id x = j_id j")
    case True
    then have "x = j" using key_inj [OF Cons.prems(1) _ Cons.prems(2), of x] by simp
    have "\<forall>y \<in> set xs. j_id y \<noteq> j_id j" using Cons.prems(1) True by (auto simp: image_iff)
    then have "update_where (\<lambda>x. j_id x = j_id j) g xs = xs" by (induction xs) auto
    then show ?thesis using \<open>x = j\<close> by simp
  next
    case False
    then show ?thesis using Cons by auto
  qed
qed

text \<open>With an engine that answers, a claim succeeds.\<close>

lemma claim_tx_forward:
  assumes ff: "\<And>n. fault_at e n = None" and ok: "outbox_sound e c (db w)" and max: "op_MaxAttempts c < 2 ^ 31"
  shows "\<exists>r w'. claim_tx c e w = (Inr r, w')"
proof -
  let ?now = "app_now e (tick w)"
  obtain found w2 where found: "ClaimableEmail ?now e (bump w) = (found, w2)" by (cases "ClaimableEmail ?now e (bump w)")
  show ?thesis
  proof (cases found)
    case (Inl x)
    then have "x = NoRows" using found ff
      by (auto simp: ClaimableEmail_def stmt_def select_row_def split: option.splits)
    then show ?thesis using found Inl
      by (simp add: claim_tx_def bindE_def time_Now_def optional_row_def attempt_def returnE_def)
  next
    case (Inr job)
    note job = claimable_job [OF found [unfolded Inr], simplified]
    have ids: "uuid_in e (j_id job) = Some (j_id job)" "uuid_in e (j_notification_id job) = Some (j_notification_id job)"
      using outbox_ids [OF ok job(1)] by simp_all
    show ?thesis
    proof (cases "j_attempts job \<ge> op_MaxAttempts c")
      case True
      then show ?thesis using found Inr ids ff
        by (simp add: claim_tx_def bindE_def time_Now_def optional_row_def attempt_def returnE_def
            CompleteEmail_def SetNotificationEmailStatus_def stmt_def with_uuid_def job_statuses_def email_statuses_def)
    next
      case False
      have laws: "uuid_in e (gen_uuid e n) = Some (gen_uuid e n)" for n using ok by (simp add: outbox_sound_def uuid_laws_def)
      have wf: "wf_db (db w2)" and in2: "job \<in> set (email_jobs (db w2))" using ok job by (simp_all add: outbox_sound_def)
      have "\<not> list_ex (\<lambda>j. j_id j = j_id job \<and> j_attempts j \<ge> 2 ^ 31 - 1) (email_jobs (db w2))"
        using job_unique(1) [OF wf _ in2] False max by (fastforce simp: list_ex_iff)
      then show ?thesis using found Inr ids ff False laws select_updated_job [OF wf in2]
        by (simp add: claim_tx_def bindE_def time_Now_def NewString_def optional_row_def attempt_def returnE_def
            ClaimEmail_def LockEmail_def select_row_def stmt_def with_uuid_def)
    qed
  qed
qed

text \<open>C14. The outbox drains.  While the database answers and some job is due, by the clock of the
  worker, a claim succeeds and makes progress: the work left, an attempt for every attempt an
  open job may still take and one step to give it up, strictly decreases; it is never negative.\<close>

theorem claim_makes_progress:
  assumes "\<And>n. fault_at e n = None" and "outbox_sound e c (db w)" and "op_MaxAttempts c < 2 ^ 31"
    and "j \<in> set (email_jobs (db w))" and "\<And>n. claimable (app_now e n) j"
  shows "\<exists>r w'. claim c e w = (Inr r, w') \<and> 0 \<le> pending_work c (db w') \<and> pending_work c (db w') < pending_work c (db w)"
proof -
  obtain r w1 where tx: "claim_tx c e (tx_start e w) = (Inr r, w1)"
    using claim_tx_forward [OF assms(1) _ assms(3), of "tx_start e w"] assms(2) by auto
  then have run: "claim c e w = (Inr r, bump w1)"
    using assms(1) by (simp add: claim_def Transaction_def tx_start_def)
  have cc: "claim_case e c (db w) r (db w1)" using claim_tx_case [OF _ tx] assms(2) by simp
  have sound: "outbox_sound e c (db w1)" using claim_case_step [OF assms(2) cc] by simp
  have dist: "distinct (map j_id (email_jobs (db w)))" using assms(2) by (simp add: outbox_sound_def wf_db_def wf_jobs_def)
  obtain now job where job: "job \<in> set (email_jobs (db w))" "claimable now job"
    and upd: "(\<exists>av ct. email_jobs (db w1) = update_where (\<lambda>x. j_id x = j_id job) (complete_update ''FAILED'' av ct) (email_jobs (db w)))
      \<or> (\<exists>l t. email_jobs (db w1) = update_where (\<lambda>x. j_id x = j_id job) (claim_update l t) (email_jobs (db w)))"
    using cc assms(1,4,5) unfolding claim_case_def by (auto split: if_splits) blast+
  have bound: "j_attempts job \<le> op_MaxAttempts c" using assms(2) job(1) by (simp add: outbox_sound_def)
  have "0 \<le> pending_work c (db w1)"
    unfolding pending_work_def using sound by (intro sum_list_nonneg) (auto simp: outbox_sound_def)
  moreover have "pending_work c (db w1) < pending_work c (db w)"
    using upd claimable_open [OF job(2)] bound
    by (auto simp: pending_work_def pending_work_update [OF dist job(1)]) (simp_all add: completed_status_def)
  ultimately show ?thesis using run by auto
qed

theorem claim_makes_progress_witness:
  "\<exists>r w'. claim sample_operations sample_env sample_world = (Inr r, w')
     \<and> pending_work sample_operations (db w') < pending_work sample_operations (db sample_world)"
proof -
  have "sample_job \<in> set (email_jobs (db sample_world))" by (simp add: sample_world_def sample_db_def)
  moreover have "claimable (app_now sample_env n) sample_job" for n
    by (simp add: claimable_def sample_env_def sample_job_def)
  moreover have "fault_at sample_env n = None" for n by (simp add: sample_env_def)
  moreover have "op_MaxAttempts sample_operations < 2 ^ 31" by (simp add: sample_operations_def)
  ultimately show ?thesis using claim_makes_progress [OF _ sample_outbox] by blast
qed

end
