(* ===== verification/CleanupProperties.thy ===== *)
theory CleanupProperties
  imports OutboxSystem
begin

text \<open>
  What the retention cleanup deletes: stale session families with their tokens, completed jobs
  and, if enabled, old audit rows, at most a batch of each, and nothing else.
\<close>

definition canonical_rows :: "env \<Rightarrow> database \<Rightarrow> bool" where
  "canonical_rows e d \<longleftrightarrow> (\<forall>i \<in> m_id ` set (refresh_families d) \<union> j_id ` set (email_jobs d)
     \<union> l_id ` set (activity_logs d). uuid_in e i = Some i)"

text \<open>What the three loops leave.\<close>

definition cleaned :: "bytes list \<Rightarrow> bytes list \<Rightarrow> bytes list \<Rightarrow> database \<Rightarrow> database" where
  "cleaned fs js ls d = d\<lparr>
     refresh_families := delete_where (\<lambda>m. m_id m \<in> set fs) (refresh_families d),
     auth_refresh_tokens := delete_where (\<lambda>t. t_family_id t \<in> set fs) (auth_refresh_tokens d),
     email_jobs := delete_where (\<lambda>j. j_id j \<in> set js) (email_jobs d),
     activity_logs := delete_where (\<lambda>l. l_id l \<in> set ls) (activity_logs d)\<rparr>"

lemma delete_where_nothing [simp]: "delete_where (\<lambda>x. False) xs = xs"
  by (simp add: delete_where_def)

lemma delete_where_twice: "delete_where P (delete_where R xs) = delete_where (\<lambda>x. R x \<or> P x) xs"
  by (simp add: delete_where_def conj_commute)

lemma cleaned_nothing [simp]: "cleaned [] [] [] d = d"
  by (simp add: cleaned_def)

lemma delete_families:
  "forE xs DeleteFamily e w = (Inr (), w') \<Longrightarrow> \<forall>i \<in> set xs. uuid_in e i = Some i \<Longrightarrow> db w' = cleaned xs [] [] (db w)"
proof (induction xs arbitrary: w)
  case (Cons i xs)
  from Cons.prems(1) obtain w1 where one: "DeleteFamily i e w = (Inr (), w1)" and rest: "forE xs DeleteFamily e w1 = (Inr (), w')"
    unfolding forE.simps run_parts by blast
  have "db w1 = cleaned [i] [] [] (db w)"
    using one Cons.prems(2) by (auto simp: DeleteFamily_def run_simps cleaned_def)
  then show ?case using Cons.IH [OF rest] Cons.prems(2) by (simp add: cleaned_def delete_where_twice)
qed (simp add: run_simps)

lemma delete_jobs:
  "forE xs DeleteEmail e w = (Inr (), w') \<Longrightarrow> \<forall>i \<in> set xs. uuid_in e i = Some i \<Longrightarrow> db w' = cleaned [] xs [] (db w)"
proof (induction xs arbitrary: w)
  case (Cons i xs)
  from Cons.prems(1) obtain w1 where one: "DeleteEmail i e w = (Inr (), w1)" and rest: "forE xs DeleteEmail e w1 = (Inr (), w')"
    unfolding forE.simps run_parts by blast
  have "db w1 = cleaned [] [i] [] (db w)"
    using one Cons.prems(2) by (auto simp: DeleteEmail_def run_simps cleaned_def)
  then show ?case using Cons.IH [OF rest] Cons.prems(2) by (simp add: cleaned_def delete_where_twice)
qed (simp add: run_simps)

lemma delete_logs:
  "forE xs DeleteAudit e w = (Inr (), w') \<Longrightarrow> \<forall>i \<in> set xs. uuid_in e i = Some i \<Longrightarrow> db w' = cleaned [] [] xs (db w)"
proof (induction xs arbitrary: w)
  case (Cons i xs)
  from Cons.prems(1) obtain w1 where one: "DeleteAudit i e w = (Inr (), w1)" and rest: "forE xs DeleteAudit e w1 = (Inr (), w')"
    unfolding forE.simps run_parts by blast
  have "db w1 = cleaned [] [] [i] (db w)"
    using one Cons.prems(2) by (auto simp: DeleteAudit_def run_simps cleaned_def)
  then show ?case using Cons.IH [OF rest] Cons.prems(2) by (simp add: cleaned_def delete_where_twice)
qed (simp add: run_simps)

lemma set_batch: "i \<in> set (take n (sort (map k (filter P xs)))) \<Longrightarrow> \<exists>x \<in> set xs. P x \<and> k x = i"
  by (drule in_set_takeD) auto

lemma batch_selects:
  assumes "distinct (map k xs)" and "x \<in> set xs" and "k x \<in> set (take n (sort (map k (filter P xs))))"
  shows "P x"
proof -
  obtain y where "y \<in> set xs" "P y" "k y = k x" using set_batch [OF assms(3)] by blast
  then show ?thesis using key_inj [OF assms(1) _ assms(2)] by blast
qed

lemma Cleanup_tx_run:
  assumes run: "Cleanup_tx c now ap e w = (Inr (nf, nj, nl), w')" and ids: "canonical_rows e (db w)"
  defines "fs \<equiv> take (nat (op_BatchSize c)) (sort (map m_id (filter (family_stale (now - op_SessionDays c * day)) (refresh_families (db w)))))"
    and "js \<equiv> take (nat (op_BatchSize c)) (sort (map j_id (filter (\<lambda>j. j_status j \<in> {''SENT'', ''FAILED''}
        \<and> (case j_completed_at j of None \<Rightarrow> False | Some t \<Rightarrow> t < now - op_OutboxDays c * day)) (email_jobs (db w)))))"
    and "ls \<equiv> (if op_AuditEnabled c then take (nat (op_BatchSize c)) (sort (map l_id (filter (\<lambda>l. l_created_at l < now - op_AuditDays c * day)
        (activity_logs (db w))))) else [])"
  shows "db w' = (if ap then cleaned fs js ls (db w) else db w)" and "nf = length fs" "nj = length js" "nl = length ls"
proof -
  obtain fs' w1 js' w2 ls' w3 where f: "CleanupFamilies (now - op_SessionDays c * day) (nat (op_BatchSize c)) e w = (Inr fs', w1)"
    and j: "CleanupEmail (now - op_OutboxDays c * day) (nat (op_BatchSize c)) e w1 = (Inr js', w2)"
    and l: "(if op_AuditEnabled c then CleanupAudit (now - op_AuditDays c * day) (nat (op_BatchSize c)) else returnE []) e w2 = (Inr ls', w3)"
    and del: "(if ap then bindE (forE fs' DeleteFamily) (\<lambda>_. bindE (forE js' DeleteEmail) (\<lambda>_. forE ls' DeleteAudit)) else returnE ()) e w3 = (Inr (), w')"
    and n: "nf = length fs'" "nj = length js'" "nl = length ls'"
    using run unfolding Cleanup_tx_def run_parts by blast
  from f have fs: "fs' = fs" and db1: "db w1 = db w" by (auto simp: CleanupFamilies_def run_simps fs_def)
  from j db1 have js: "js' = js" and db2: "db w2 = db w" by (auto simp: CleanupEmail_def run_simps js_def)
  from l db2 have ls: "ls' = ls" and db3: "db w3 = db w"
    by (auto simp: CleanupAudit_def run_simps ls_def split: if_splits)
  have can: "\<forall>i \<in> set fs. uuid_in e i = Some i" "\<forall>i \<in> set js. uuid_in e i = Some i" "\<forall>i \<in> set ls. uuid_in e i = Some i"
  proof -
    have "set fs \<subseteq> m_id ` set (refresh_families (db w))" "set js \<subseteq> j_id ` set (email_jobs (db w))"
      "set ls \<subseteq> l_id ` set (activity_logs (db w))"
      unfolding fs_def js_def ls_def by (auto dest!: set_batch split: if_splits)
    then show "\<forall>i \<in> set fs. uuid_in e i = Some i" "\<forall>i \<in> set js. uuid_in e i = Some i" "\<forall>i \<in> set ls. uuid_in e i = Some i"
      using ids unfolding canonical_rows_def by blast+
  qed
  show "nf = length fs" "nj = length js" "nl = length ls" using n fs js ls by simp_all
  show "db w' = (if ap then cleaned fs js ls (db w) else db w)"
  proof (cases ap)
    case True
    then obtain w4 w5 where "forE fs DeleteFamily e w3 = (Inr (), w4)" "forE js DeleteEmail e w4 = (Inr (), w5)"
      "forE ls DeleteAudit e w5 = (Inr (), w')"
      using del unfolding fs js ls by (auto simp: run_parts)
    note delete_families [OF this(1) can(1)] delete_jobs [OF this(2) can(2)] delete_logs [OF this(3) can(3)]
    then have "db w' = cleaned [] [] ls (cleaned [] js [] (cleaned fs [] [] (db w)))" by (simp add: db3)
    then show ?thesis using True by (simp add: cleaned_def)
  next
    case False
    then show ?thesis using del db3 by (simp add: run_simps)
  qed
qed


text \<open>A family that expired long ago goes with its tokens; the live job stays.\<close>

definition old_env :: env where
  "old_env = sample_env\<lparr>app_now := \<lambda>_. 10 ^ 11\<rparr>"

definition sample_cleanup :: "(goerr + nat \<times> nat \<times> nat) \<times> world" where
  "sample_cleanup = Cleanup sample_operations True old_env sample_world"


end
