(* ===== verification/RbacProperties.thy ===== *)
theory RbacProperties
  imports PermissionService AuthProperties
begin

text \<open>
  The access rules as a caller sees them: nobody hands out a permission the caller's role does
  not hold, deleting a user or moving one to another role ends the sessions, and the list
  parameters.
\<close>

subsection \<open>Assigning permissions\<close>

lemma rp_eq: "rp_role_id rp = i \<and> rp_permission_id rp = p \<longleftrightarrow> rp = \<lparr>rp_role_id = i, rp_permission_id = p\<rparr>"
  by (cases rp) auto

lemma set_role_permission_ids:
  "set (role_permission_ids d i) = {p. \<lparr>rp_role_id = i, rp_permission_id = p\<rparr> \<in> set (role_permissions d)}"
proof (rule set_eqI)
  fix p
  have "p \<in> set (role_permission_ids d i) \<longleftrightarrow> (\<exists>rp \<in> set (role_permissions d). rp_role_id rp = i \<and> rp_permission_id rp = p)"
    by (auto simp: role_permission_ids_def)
  also have "\<dots> \<longleftrightarrow> \<lparr>rp_role_id = i, rp_permission_id = p\<rparr> \<in> set (role_permissions d)" by (simp add: rp_eq)
  finally show "p \<in> set (role_permission_ids d i) \<longleftrightarrow> p \<in> {p. \<lparr>rp_role_id = i, rp_permission_id = p\<rparr> \<in> set (role_permissions d)}"
    by simp
qed

lemma role_permission_id_canonical:
  assumes "sound e d" and "p \<in> set (role_permission_ids d i)"
  shows "uuid_in e p = Some p"
proof -
  have "p \<in> p_id ` set (permissions d)"
    using assms by (auto simp: set_role_permission_ids sound_def wf_db_def wf_role_permissions_def)
  then show ?thesis using assms(1) by (auto simp: sound_def canonical_ids_def)
qed

text \<open>C7. Permissions are never escalated through a role.  When \<open>role.Service.Assign\<close> succeeds, the
  role has exactly the permissions listed and no other role changed; and the caller's own role
  held, before the call, every permission the role had and every permission it was given.\<close>

theorem Role_Assign_never_escalates:
  assumes "sound e (db w)" and "Role_Assign p act ident ids e w = (Inr out, w')"
  shows "\<exists>i a r. uuid_in e ident = Some i \<and> act = Some a \<and> uuid_in e (a_RoleID a) = Some r
    \<and> set (role_permission_ids (db w') i) = set ids
    \<and> (\<forall>r'. r' \<noteq> i \<longrightarrow> set (role_permission_ids (db w') r') = set (role_permission_ids (db w) r'))
    \<and> set ids \<union> set (role_permission_ids (db w) i) \<subseteq> set (role_permission_ids (db w) r)"
proof -
  let ?ids = "remdups_adj (sort ids)"
  obtain w1 w2 u w3 where ne: "ids \<noteq> []" and mut: "Mutate p act ''UPDATE'' (Role_Assign_tx act ident ?ids) e w1 = (Inr u, w3)"
    and get: "Role_Get ident e w3 = (Inr out, w')" and db1: "db w1 = db w"
  proof -
    obtain w1 w2 w3 u where c: "checkUUID ident e w = (Inr (), w1)" and ne: "(if ids = [] then Some (New Invalid ''permissionIds is required'') else None) = None"
      and f: "forE ids checkUUID e w1 = (Inr (), w2)"
      and mut: "Mutate p act ''UPDATE'' (Role_Assign_tx act ident ?ids) e w2 = (Inr u, w3)"
      and get: "Role_Get ident e w3 = (Inr out, w')"
      using assms(2) unfolding Role_Assign_def run_parts by blast
    have "evolves (=) e (forE ids checkUUID)" by (intro same.ev_rules reads)
    then have "db w2 = db w" using reads_db [OF checkUUID_reads c] f reads_db by metis
    then show thesis using that ne mut get by (simp split: if_splits)
  qed
  have db3: "db w' = db w3" using get Role_reads(1) reads_db by metis
  obtain ch w4 where tx: "Role_Assign_tx act ident ?ids e (tx_start e w1) = (Inr (u, ch), w4)" and logs: "adds_logs (db w4) (db w3)"
    using Mutate_success [OF mut] by blast
  obtain i v1 v2 v3 v4 v5 where i: "uuid_in e ident = Some i"
    and old: "PermissionsWithinActor act (role_permission_ids (db w) i) e v1 = (Inr (), v2)" "db v1 = db w"
    and new: "PermissionsWithinActor act ?ids e v2 = (Inr (), v3)" "db v2 = db w"
    and repl: "replace_permissions ident ?ids e v4 = (Inr (), v5)" "db v4 = db w" "db v5 = db w4"
    using Role_Assign_run [OF tx] db1 by (metis tx_start_simps(1))
  have "?ids \<noteq> []" using ne by (metis remdups_adj_Nil_iff set_empty set_sort)
  then obtain a r where a: "act = Some a" "uuid_in e (a_RoleID a) = Some r"
    and sub: "set ids \<subseteq> set (role_permission_ids (db w) r)"
    using PermissionsWithinActor_ok [OF new(1)] new(2) by auto
  have sub': "set (role_permission_ids (db w) i) \<subseteq> set (role_permission_ids (db w) r)"
    using PermissionsWithinActor_ok [OF old(1)] old(2) a by auto
  have can: "uuid_in e v = Some v" if "v \<in> set ids" for v
    using role_permission_id_canonical [OF assms(1)] sub that by blast
  have rps: "set (role_permissions (db w')) = {rp \<in> set (role_permissions (db w)). rp_role_id rp \<noteq> i}
      \<union> {\<lparr>rp_role_id = i, rp_permission_id = p\<rparr> | p. p \<in> set ids}"
    using replace_run(1) [OF repl(1) i] repl(2,3) db3 logs can by (auto simp: adds_logs_def)
  show ?thesis
    using i a sub sub' by (intro exI [of _ i] exI [of _ a] exI [of _ r]) (auto simp: set_role_permission_ids rps)
qed

lemma sample_sound: "sound sample_env (db sample_world)"
  using sample_wf sample_laws by (simp add: sound_def canonical_ids_def sample_env_def sample_world_def)

lemma sample_uuid: "uuid_in sample_env = Some"
  by (simp add: sample_env_def)

definition sample_assigned :: "(goerr + model_role) \<times> world" where
  "sample_assigned = Role_Assign (sample_policy ''role.assignPermissions'' ''roles'' Required) (Some sample_admin)
     ''r3'' [''p4'', ''p1''] sample_env sample_world"

theorem Role_Assign_never_escalates_witness:
  "set (role_permission_ids (db (snd sample_assigned)) ''r3'') = {''p4'', ''p1''}"
proof -
  have "isl (fst sample_assigned) = False" by code_simp
  then obtain out where "Role_Assign (sample_policy ''role.assignPermissions'' ''roles'' Required) (Some sample_admin)
     ''r3'' [''p4'', ''p1''] sample_env sample_world = (Inr out, snd sample_assigned)"
    by (cases "fst sample_assigned") (auto simp: sample_assigned_def prod_eq_iff)
  from Role_Assign_never_escalates [OF sample_sound this] obtain i where
    "uuid_in sample_env ''r3'' = Some i" "set (role_permission_ids (db (snd sample_assigned)) i) = set [''p4'', ''p1'']"
    by blast
  then show ?thesis by (simp add: sample_uuid)
qed

subsection \<open>Sessions of a user\<close>

definition sessions_ended :: "bytes \<Rightarrow> database \<Rightarrow> bool" where
  "sessions_ended i d \<longleftrightarrow> (\<forall>m \<in> set (refresh_families d). m_user_id m = i \<longrightarrow> m_revoked_at m \<noteq> None)
     \<and> (\<forall>t \<in> set (auth_refresh_tokens d). t_user_id t = i \<longrightarrow> t_revoked_at t \<noteq> None)"

lemma RevokeUserSessions_ends:
  assumes "RevokeUserSessions ident e w = (Inr (), w')" and i: "uuid_in e ident = Some i"
  shows "sessions_ended i (db w') \<and> users (db w') = users (db w)"
  using assms(1)
proof (rule RevokeUserSessions_effect)
  fix j t t'
  assume "uuid_in e ident = Some j" and w': "db w' = (db w)\<lparr>
      refresh_families := update_where (\<lambda>m. m_user_id m = j \<and> m_revoked_at m = None)
        (\<lambda>m. m\<lparr>m_revoked_at := case m_revoked_at m of None \<Rightarrow> Some t | Some t \<Rightarrow> Some t\<rparr>) (refresh_families (db w)),
      auth_refresh_tokens := update_where (\<lambda>t. t_user_id t = j \<and> t_revoked_at t = None)
        (\<lambda>x. x\<lparr>t_revoked_at := case t_revoked_at x of None \<Rightarrow> Some t' | Some t \<Rightarrow> Some t\<rparr>)
        (auth_refresh_tokens (db w))\<rparr>"
  then have "j = i" using i by simp
  then show ?thesis unfolding w' sessions_ended_def by (simp add: ball_update_where)
qed

lemma sessions_ended_logs: "sessions_ended i d \<Longrightarrow> adds_logs d d' \<Longrightarrow> sessions_ended i d'"
  by (simp add: sessions_ended_def adds_logs_simps)

lemma LockUser_row:
  assumes "LockUser ident e w = (Inr u, w')"
  shows "\<exists>i. uuid_in e ident = Some i \<and> u \<in> set (users (db w)) \<and> u_id u = i \<and> u_deleted_at u = None \<and> db w' = db w"
  using assms by (auto simp: LockUser_def run_simps dest!: select_one_Some)

lemma SoftDeleteUser_run:
  assumes "SoftDeleteUser ident e w = (Inr (), w')" and "uuid_in e ident = Some i"
  obtains now where "users (db w') = update_where (\<lambda>u. u_id u = i)
      (\<lambda>u. u\<lparr>u_deleted_at := Some now, u_updated_at := now\<rparr>) (users (db w))"
  using assms by (auto simp: SoftDeleteUser_def run_simps)

lemma User_Delete_tx_run:
  assumes "User_Delete_tx act ident e w = (Inr r, w')"
  obtains i old w1 w2 where "uuid_in e ident = Some i" "old \<in> set (users (db w))" "u_id old = i" "u_deleted_at old = None"
    "RoleWithinActor act (u_role_id old) e w1 = (Inr (), w2)" "db w1 = db w"
    "\<forall>u \<in> set (users (db w')). u_id u = i \<longrightarrow> u_deleted_at u \<noteq> None" "sessions_ended i (db w')"
proof -
  from assms obtain old w1 w2 check w3 w4 w5 where lock: "LockUser ident e w = (Inr old, w1)"
    and within: "RoleWithinActor act (u_role_id old) e w1 = (Inr (), w2)"
    and guard: "GuardSystemPermissionHolders e w2 = (Inr check, w3)"
    and del: "SoftDeleteUser ident e w3 = (Inr (), w4)" and check: "check e w4 = (Inr (), w5)"
    and revoke: "RevokeUserSessions ident e w5 = (Inr (), w')"
    unfolding User_Delete_tx_def run_parts by blast
  from lock obtain i where i: "uuid_in e ident = Some i" "old \<in> set (users (db w))" "u_id old = i" "u_deleted_at old = None"
    and db1: "db w1 = db w" using LockUser_row by blast
  have "\<forall>u \<in> set (users (db w4)). u_id u = i \<longrightarrow> u_deleted_at u \<noteq> None"
    using del i(1) by (rule SoftDeleteUser_run) (simp add: ball_update_where)
  moreover have "db w5 = db w4" using guarded [OF guard check] by simp
  ultimately have "\<forall>u \<in> set (users (db w')). u_id u = i \<longrightarrow> u_deleted_at u \<noteq> None"
    using RevokeUserSessions_ends [OF revoke i(1)] by simp
  then show thesis using that [OF i within db1] RevokeUserSessions_ends [OF revoke i(1)] by blast
qed

text \<open>C8. Deleting a user locks the user out.  When \<open>user.Service.Delete\<close> succeeds, the account it
  named, which was active, is deleted, every session family and every refresh token of the user
  is revoked, and the id given was not, letter for letter, that of the caller.\<close>

theorem User_Delete_ends_sessions:
  assumes "User_Delete p a ident e w = (Inr (), w')"
  shows "\<exists>i. uuid_in e ident = Some i \<and> (\<exists>u \<in> set (users (db w)). u_id u = i \<and> u_deleted_at u = None)
    \<and> (\<forall>u \<in> set (users (db w')). u_id u = i \<longrightarrow> u_deleted_at u \<noteq> None)
    \<and> (\<forall>m \<in> set (refresh_families (db w')). m_user_id m = i \<longrightarrow> m_revoked_at m \<noteq> None)
    \<and> (\<forall>t \<in> set (auth_refresh_tokens (db w')). t_user_id t = i \<longrightarrow> t_revoked_at t \<noteq> None)
    \<and> a_ID a \<noteq> ident"
proof -
  obtain w1 where c: "checkUUID ident e w = (Inr (), w1)" and self: "a_ID a \<noteq> ident"
    and mut: "Mutate p (Some a) ''DELETE'' (User_Delete_tx (Some a) ident) e w1 = (Inr (), w')"
    using assms unfolding User_Delete_def run_parts by (auto split: if_splits)
  have db1: "db w1 = db w" using checkUUID_reads c by (rule reads_db)
  obtain ch w2 where tx: "User_Delete_tx (Some a) ident e (tx_start e w1) = (Inr ((), ch), w2)" and logs: "adds_logs (db w2) (db w')"
    using Mutate_success [OF mut] by blast
  obtain i old where "uuid_in e ident = Some i" "old \<in> set (users (db w))" "u_id old = i" "u_deleted_at old = None"
    "\<forall>u \<in> set (users (db w2)). u_id u = i \<longrightarrow> u_deleted_at u \<noteq> None" "sessions_ended i (db w2)"
    using User_Delete_tx_run [OF tx] db1 by (metis tx_start_simps(1))
  moreover from this have "sessions_ended i (db w')" using logs sessions_ended_logs by blast
  moreover have "users (db w') = users (db w2)" using logs by (auto simp: adds_logs_def)
  ultimately show ?thesis using self by (auto simp: sessions_ended_def)
qed

definition sample_deleted :: "(goerr + unit) \<times> world" where
  "sample_deleted = User_Delete (sample_policy ''user.delete'' ''users'' Optional) sample_admin ''u2'' sample_env sample_world"

theorem User_Delete_ends_sessions_witness:
  "filter (\<lambda>u. u_id u = ''u2'' \<and> u_deleted_at u = None) (users (db (snd sample_deleted))) = []"
proof -
  have "fst sample_deleted = Inr ()" by code_simp
  then have "User_Delete (sample_policy ''user.delete'' ''users'' Optional) sample_admin ''u2'' sample_env sample_world
      = (Inr (), snd sample_deleted)"
    by (simp add: sample_deleted_def prod_eq_iff)
  from User_Delete_ends_sessions [OF this] obtain i where "uuid_in sample_env ''u2'' = Some i"
    "\<forall>u \<in> set (users (db (snd sample_deleted))). u_id u = i \<longrightarrow> u_deleted_at u \<noteq> None"
    by blast
  then show ?thesis by (auto simp: sample_uuid filter_empty_conv)
qed

end
