(* ===== verification/SystemInvariant.thy ===== *)
theory SystemInvariant
  imports CleanupProperties RbacProperties
begin

text \<open>
  The services together.  A request is an operation of a service, a step of the e-mail worker or
  a run of the cleanup, with its arguments; \<open>execute\<close> runs it, and the system runs any sequence
  of requests.  The lemmas show that each operation keeps the access rules (\<open>rbac_step\<close>) and the
  shape of the sessions (\<open>sess_step\<close>); the properties are the invariants of the whole system.
\<close>

datatype request =
    R_Register policy bytes bytes
  | R_Login policy bytes bytes
  | R_Refresh policy bytes
  | R_Logout policy bytes
  | R_Access bytes bytes
  | R_RoleCreate policy "actor option" bytes
  | R_RoleUpdate policy "actor option" bytes "bytes option"
  | R_RoleDelete policy "actor option" bytes
  | R_RoleAssign policy "actor option" bytes "bytes list"
  | R_PermissionCreate policy "actor option" bytes
  | R_PermissionUpdate policy "actor option" bytes "bytes option"
  | R_PermissionDelete policy "actor option" bytes
  | R_UserCreate policy "actor option" bytes bytes bytes
  | R_UserUpdate policy "actor option" bytes "bytes option" "bytes option"
  | R_UserDelete policy actor bytes
  | R_UserList int int bytes bytes bytes
  | R_NotificationCreate policy actor create_input
  | R_NotificationRead policy actor bytes
  | R_NotificationPage bytes bytes
  | R_AuditRead policy "actor option" bytes
  | R_WorkerRound "payload \<Rightarrow> bool" "bool list"
  | R_Cleanup bool

record config =
  cfg_auth :: auth_service
  cfg_smtp :: bool
  cfg_operations :: operations

definition discard :: "'a op \<Rightarrow> unit op" where
  "discard m = bindE m (\<lambda>_. returnE ())"

fun execute :: "config \<Rightarrow> request \<Rightarrow> unit op" where
  "execute c (R_Register p email password) = discard (Register p email password)"
| "execute c (R_Login p email password) = discard (Login (cfg_auth c) p email password)"
| "execute c (R_Refresh p raw) = discard (Refresh (cfg_auth c) p raw)"
| "execute c (R_Logout p raw) = Logout p raw"
| "execute c (R_Access raw permission) = bindE (Authenticate (cfg_auth c) raw) (\<lambda>a. Authorize a permission)"
| "execute c (R_RoleCreate p a n) = discard (Role_Create p a n)"
| "execute c (R_RoleUpdate p a i n) = discard (Role_Update p a i n)"
| "execute c (R_RoleDelete p a i) = Role_Delete p a i"
| "execute c (R_RoleAssign p a i ids) = discard (Role_Assign p a i ids)"
| "execute c (R_PermissionCreate p a n) = discard (Permission_Create p a n)"
| "execute c (R_PermissionUpdate p a i n) = discard (Permission_Update p a i n)"
| "execute c (R_PermissionDelete p a i) = Permission_Delete p a i"
| "execute c (R_UserCreate p a m pw r) = discard (User_Create p a m pw r)"
| "execute c (R_UserUpdate p a i m r) = discard (User_Update p a i m r)"
| "execute c (R_UserDelete p a i) = User_Delete p a i"
| "execute c (R_UserList pg n s b d) = discard (User_List pg n s b d)"
| "execute c (R_NotificationCreate p a i) = discard (Notification_Create (cfg_smtp c) p a i)"
| "execute c (R_NotificationRead p a i) = discard (Notification_Read p a i)"
| "execute c (R_NotificationPage r i) = discard (Page r i)"
| "execute c (R_AuditRead p a i) = Read p a i"
| "execute c (R_WorkerRound send ticks) = discard (run_once (cfg_operations c) send ticks)"
| "execute c (R_Cleanup applied) = discard (Cleanup (cfg_operations c) applied)"

inductive system_run :: "env \<Rightarrow> config \<Rightarrow> world \<Rightarrow> world \<Rightarrow> bool" for e :: env and c :: config where
  start: "system_run e c w w"
| serve: "system_run e c w v \<Longrightarrow> execute c req e v = (r, v') \<Longrightarrow> system_run e c w v'"

context evolution
begin

lemma ev_discard: "evolves R e m \<Longrightarrow> evolves R e (discard m)"
  unfolding discard_def by (intro ev_rules)

lemma ach_optional_guard_bind:
  assumes "\<And>names. achieves R e (k (holders names))" and "achieves R e (k (returnE ()))"
  shows "achieves R e (bindE (if b then GuardSystemPermissionHolders else returnE (returnE ())) k)"
proof (cases b)
  case True
  then show ?thesis using assms(1) by (simp add: ach_Guard_bind)
next
  case False
  then show ?thesis using assms(2) by (simp add: achieves_def bindE_def returnE_def)
qed

end

subsection \<open>The worker and the cleanup leave the access rules alone\<close>

lemma worker_frames [frames]:
  "evolves (fixed rbac_view) e (claim c)" "evolves (fixed session_view) e (claim c)"
  "evolves (fixed rbac_view) e (renew c j)" "evolves (fixed session_view) e (renew c j)"
  "evolves (fixed rbac_view) e (finish c j ok)" "evolves (fixed session_view) e (finish c j ok)"
  unfolding claim_def claim_tx_def renew_def finish_def finish_tx_def Let_def
  by (intro fixed.ev_rules frames reads [THEN same_fixed])+

lemma run_once_frames [frames]:
  "evolves (fixed rbac_view) e (run_once c send ticks)" "evolves (fixed session_view) e (run_once c send ticks)"
  by (rule fixed.ev_run_once; (rule frames | erule same_fixed))+

lemma run_once_wf [writes]: "evolves (keeps wf_db) e (run_once c send ticks)"
proof (rule keeps.ev_run_once)
  show "evolves (keeps wf_db) e (claim c)" "evolves (keeps wf_db) e (finish c job ok)" for job ok
    unfolding claim_def finish_def by (intro keeps.ev_Transaction writes)+
qed (rule writes | erule same_keeps)+

lemma Cleanup_wf [writes]: "evolves (keeps wf_db) e (Cleanup c ap)"
  unfolding Cleanup_def by (intro keeps.ev_rules writes)

lemma Cleanup_rbac [frames]: "evolves (fixed rbac_view) e (Cleanup c ap)"
  unfolding Cleanup_def Cleanup_tx_def by (intro fixed.ev_rules frames reads [THEN same_fixed])

subsection \<open>The sessions under the services of the access rules\<close>

lemma rbac_statements_sess:
  "evolves (sess_step e) e (AssignRolePermission a b)" "evolves (sess_step e) e (ClearRolePermissions a)"
  "evolves (sess_step e) e (CreateRole a)" "evolves (sess_step e) e (DeleteRole a)"
  "evolves (sess_step e) e (UpdateRole a b)" "evolves (sess_step e) e (CreatePermission a)"
  "evolves (sess_step e) e (DeletePermission a)" "evolves (sess_step e) e (UpdatePermission a b)"
  "evolves (sess_step e) e (SoftDeleteUser a)" "evolves (sess_step e) e (UpdateUser a p q)"
  by (intro sess_view writes frames)+

lemma RevokeUserSessions_ach: "achieves (sess_step e) e (RevokeUserSessions u)"
  by (rule achievesI) (auto simp: sess_step_def intro: RevokeUserSessions_sess)

lemmas sess_reads = reads [THEN sess_same]

text \<open>The guard's check is a read, wherever the code puts it.\<close>

lemmas sess_rules = sess.ev_Guard_bind sess.ev_rules rbac_statements_sess CreateUser_sess

lemma rbac_tx_sess:
  "achieves (sess_step e) e (Role_Create_tx n)" "achieves (sess_step e) e (Role_Update_tx act i nm)"
  "achieves (sess_step e) e (Role_Delete_tx act i)" "achieves (sess_step e) e (Role_Assign_tx act i ids)"
  "achieves (sess_step e) e (Permission_Create_tx n)" "achieves (sess_step e) e (Permission_Update_tx act i nm)"
  "achieves (sess_step e) e (Permission_Delete_tx act i)" "achieves (sess_step e) e (User_Create_tx act m pw r)"
  unfolding Role_Create_tx_def Role_Update_tx_def Role_Delete_tx_def Role_Assign_tx_def Permission_Create_tx_def
    Permission_Update_tx_def Permission_Delete_tx_def User_Create_tx_def GrantToPermissionManagers_def Let_def
  by (intro evolves_achieves sess_rules sess_reads)+

lemma User_tx_sess:
  "achieves (sess_step e) e (User_Update_tx act i m r)" "achieves (sess_step e) e (User_Delete_tx act i)"
  unfolding User_Update_tx_def User_Delete_tx_def Let_def
  by (rule sess.ach_Guard_bind sess.ach_optional_guard_bind sess.ach_rules RevokeUserSessions_ach
      rbac_statements_sess [THEN evolves_achieves] sess.ev_liftE [THEN evolves_achieves]
      sess_reads [THEN evolves_achieves])+

lemma services_sess:
  "evolves (sess_step e) e (Role_Create p act n)" "evolves (sess_step e) e (Role_Update p act i nm)"
  "evolves (sess_step e) e (Role_Delete p act i)" "evolves (sess_step e) e (Role_Assign p act i ids)"
  "evolves (sess_step e) e (Permission_Create p act n)" "evolves (sess_step e) e (Permission_Update p act i nm)"
  "evolves (sess_step e) e (Permission_Delete p act i)" "evolves (sess_step e) e (User_Create p act m pw r)"
  "evolves (sess_step e) e (User_Update p act i mo ro)" "evolves (sess_step e) e (User_Delete p a i)"
  unfolding Role_Create_def Role_Update_def Role_Delete_def Role_Assign_def Permission_Create_def
    Permission_Update_def Permission_Delete_def User_Create_def User_Update_def User_Delete_def
  by (intro sess.ev_Mutate sess.ev_rules rbac_tx_sess User_tx_sess sess_reads)+

lemma DeleteFamily_sess: "evolves (sess_step e) e (DeleteFamily i)"
proof -
  have "sess_step e (db w) (db w')" if run: "DeleteFamily i e w = (r, w')" for w r w'
  proof (cases r)
    case (Inl x)
    then have "db w' = db w" using run stmt_Inl_db by (fastforce simp: DeleteFamily_def)
    then show ?thesis by (simp add: sess.refl)
  next
    case (Inr a)
    then obtain u where u: "db w' = (db w)\<lparr>refresh_families := delete_where (\<lambda>m. m_id m = u) (refresh_families (db w)),
        auth_refresh_tokens := delete_where (\<lambda>t. t_family_id t = u) (auth_refresh_tokens (db w))\<rparr>"
      using run by (auto simp: DeleteFamily_def run_simps)
    have "evolves (keeps wf_db) e (DeleteFamily i)" by (rule writes)
    from keeps_run [OF this run] show ?thesis
      by (auto simp: sess_step_def sess_sound_def canonical_sessions_def sessions_ok_def user_ids_def u)
  qed
  then show ?thesis unfolding evolves_def by (metis prod.collapse)
qed

lemma Cleanup_sess: "evolves (sess_step e) e (Cleanup c ap)"
proof -
  have "evolves (sess_step e) e (DeleteEmail i)" "evolves (sess_step e) e (DeleteAudit i)" for i
    by (intro sess_view writes frames rbac_user_ids)+
  then show ?thesis
    unfolding Cleanup_def Cleanup_tx_def by (intro sess.ev_rules DeleteFamily_sess sess_reads)
qed

lemma outbox_sess:
  "evolves (sess_step e) e (Notification_Create s p a i)" "evolves (sess_step e) e (Notification_Read p a n)"
  "evolves (sess_step e) e (run_once c send ticks)"
  by (intro sess_view writes frames rbac_user_ids)+

subsection \<open>The access rules under the other services\<close>

lemma session_services_wf [writes]:
  "evolves (keeps wf_db) e (Login s p m pw)" "evolves (keeps wf_db) e (Refresh s p raw)"
  "evolves (keeps wf_db) e (Logout p raw)"
  unfolding Login_def Refresh_def Refresh_finish_def Logout_def optionalSessionAudit_def
  by (intro keeps.ev_rules kept.ev_Mutate evolves_achieves writes reads [THEN same_keeps])+

lemma session_services_frames [frames]:
  "evolves (fixed rbac_view) e (Login s p m pw)" "evolves (fixed rbac_view) e (Refresh s p raw)"
  "evolves (fixed rbac_view) e (Logout p raw)"
  unfolding Login_def Login_tx_def Refresh_def Refresh_finish_def Refresh_tx_def rotate_def revoke_family_def
    Logout_def Logout_tx_def optionalSessionAudit_def Let_def
  by (intro fixed.ev_rules rbac_fixed.ev_Mutate evolves_achieves frames reads [THEN same_fixed])+

lemma auth_rbac:
  "evolves (rbac_step e) e (Register p m pw)" "evolves (rbac_step e) e (Login s p m pw)"
  "evolves (rbac_step e) e (Refresh s p raw)" "evolves (rbac_step e) e (Logout p raw)"
proof -
  show "evolves (rbac_step e) e (Register p m pw)"
    unfolding Register_def Register_tx_def Let_def
    by (intro rbac.ev_rules rbac.ev_Mutate evolves_achieves CreateUser_step rbac_same reads)
qed (intro view_step writes frames)+

lemma outbox_rbac:
  "evolves (rbac_step e) e (Notification_Create s p a i)" "evolves (rbac_step e) e (Notification_Read p a n)"
  "evolves (rbac_step e) e (run_once c send ticks)" "evolves (rbac_step e) e (Cleanup c ap)"
  by (intro view_step writes frames)+

subsection \<open>The invariant\<close>

definition system_step :: "env \<Rightarrow> database \<Rightarrow> database \<Rightarrow> bool" where
  "system_step e d d' \<longleftrightarrow> rbac_step e d d' \<and> sess_step e d d'"

interpretation system: evolution "system_step e"
  by unfold_locales (auto simp: system_step_def rbac.refl sess.refl intro: rbac.trans sess.trans)

lemma system_both: "evolves (system_step e') e m \<longleftrightarrow> evolves (rbac_step e') e m \<and> evolves (sess_step e') e m"
  by (auto simp: evolves_def system_step_def)

lemma execute_step: "evolves (system_step e) e (execute c req)"
proof (cases req)
  case (R_Access raw permission)
  then show ?thesis
    by (simp add: system_both rbac.ev_bindE sess.ev_bindE rbac_same sess_same auth_service_reads)
next
  case (R_AuditRead p a i)
  then show ?thesis by (simp add: system_both rbac.ev_Read sess.ev_Read)
qed (simp_all add: system_both auth_rbac Refresh_sess Logout_sess auth_sess outbox_rbac outbox_sess Cleanup_sess
    services_sess Role_Create_step Role_Update_step Role_Delete_step Role_Assign_step Permission_Create_step
    Permission_Update_step Permission_Delete_step User_Create_step User_Update_step User_Delete_step
    rbac.ev_discard sess.ev_discard rbac_same sess_same User_reads notification_reads)

lemma system_run_step: "system_run e c w v \<Longrightarrow> system_step e (db w) (db v)"
proof (induction rule: system_run.induct)
  case (start w)
  show ?case by (rule system.refl)
next
  case (serve w v req r v')
  then show ?case using evolvesD [OF execute_step] system.trans by blast
qed

subsection \<open>What holds in every reachable state\<close>

definition holds_permission :: "database \<Rightarrow> user_row \<Rightarrow> bytes \<Rightarrow> bool" where
  "holds_permission d u name \<longleftrightarrow> (\<exists>rp \<in> set (role_permissions d). rp_role_id rp = u_role_id u
     \<and> (\<exists>p \<in> set (permissions d). p_id p = rp_permission_id rp \<and> p_name p = name))"

lemma holders_exist:
  "active_holders d name > 0 \<longleftrightarrow> (\<exists>u \<in> set (users d). u_deleted_at u = None \<and> holds_permission d u name)"
  by (simp add: active_holders_pos holds_permission_def)

text \<open>C16. The administrators cannot lock everybody out.  Whatever requests the services, the workers
  and the cleanup serve, in any order and with any failures, a system permission that some active
  user held is still held by an active user; and the system roles and system permissions keep
  their ids and names: none is created, renamed or deleted.\<close>

theorem no_lockout:
  assumes "sound e (db w)" and "system_run e c w v" and "name \<in> set SystemPermissions"
    and "u \<in> set (users (db w))" and "u_deleted_at u = None" and "holds_permission (db w) u name"
  shows "(\<exists>u' \<in> set (users (db v)). u_deleted_at u' = None \<and> holds_permission (db v) u' name)
    \<and> system_rows (db v) = system_rows (db w)"
proof -
  have "still_held (db w) (db v)" "system_rows (db v) = system_rows (db w)"
    using system_run_step [OF assms(2)] assms(1) by (simp_all add: system_step_def rbac_step_def)
  moreover have "active_holders (db w) name > 0" using assms(4-6) holders_exist by blast
  ultimately show ?thesis using assms(3) holders_exist by (auto simp: still_held_def)
qed

definition sample_config :: config where
  "sample_config = \<lparr>cfg_auth = sample_service, cfg_smtp = True, cfg_operations = sample_operations\<rparr>"

text \<open>The plain user is deleted, then the administrator asks for its own deletion.\<close>

definition after_deletes :: world where
  "after_deletes = snd (execute sample_config (R_UserDelete (sample_policy ''user.delete'' ''users'' Optional) sample_admin ''u1'') sample_env
     (snd (execute sample_config (R_UserDelete (sample_policy ''user.delete'' ''users'' Optional) sample_admin ''u2'')
       sample_env sample_world)))"

lemma sample_system_run: "system_run sample_env sample_config sample_world after_deletes"
  unfolding after_deletes_def by (rule system_run.serve [OF system_run.serve [OF system_run.start]]) (rule prod.collapse [symmetric])+

theorem no_lockout_witness:
  "\<exists>u' \<in> set (users (db after_deletes)). u_deleted_at u' = None \<and> holds_permission (db after_deletes) u' ''manage_users''"
proof -
  have u: "sample_user ''u1'' ''root@example.com'' ''r1'' \<in> set (users (db sample_world))"
    and h: "holds_permission (db sample_world) (sample_user ''u1'' ''root@example.com'' ''r1'') ''manage_users''"
    by (simp_all add: sample_world_def sample_db_def holds_permission_def sample_user_def sample_permission_def)
  show ?thesis
    using no_lockout [OF sample_sound sample_system_run _ u _ h]
    by (simp add: SystemPermissions_def sample_user_def)
qed

text \<open>C17. The sessions stay sound in every reachable state: a refresh token belongs to the user of
  its family and does not outlive it, a revoked family has no live token, and a family has at most
  one live token at any time.\<close>

theorem sessions_stay_sound:
  assumes "sess_sound e (db w)" and "system_run e c w v"
    and "t \<in> set (auth_refresh_tokens (db v))" and "m \<in> set (refresh_families (db v))" and "m_id m = t_family_id t"
  shows "t_user_id t = m_user_id m \<and> t_expires_at t \<le> m_expires_at m
    \<and> (m_revoked_at m \<noteq> None \<longrightarrow> t_revoked_at t \<noteq> None)
    \<and> (t_revoked_at t = None \<longrightarrow> filter (\<lambda>t'. t_family_id t' = m_id m \<and> t_revoked_at t' = None) (auth_refresh_tokens (db v)) = [t])"
proof -
  have sound: "sess_sound e (db v)"
    using system_run_step [OF assms(2)] assms(1) by (simp add: system_step_def sess_step_def)
  then have ok: "sessions_ok (db v)" and dist: "distinct (map t_id (auth_refresh_tokens (db v)))"
    by (simp_all add: sess_sound_def wf_db_def wf_tokens_def)
  have "filter (\<lambda>t'. t_family_id t' = m_id m \<and> t_revoked_at t' = None) (auth_refresh_tokens (db v)) = [t]"
    if "t_revoked_at t = None"
  proof -
    have "(t_family_id t' = m_id m \<and> t_revoked_at t' = None) \<longleftrightarrow> t_id t' = t_id t"
      if "t' \<in> set (auth_refresh_tokens (db v))" for t'
      using ok that assms(3,5) \<open>t_revoked_at t = None\<close> key_inj [OF dist that assms(3)]
      unfolding sessions_ok_def by metis
    then have "filter (\<lambda>t'. t_family_id t' = m_id m \<and> t_revoked_at t' = None) (auth_refresh_tokens (db v))
        = filter (\<lambda>t'. t_id t' = t_id t) (auth_refresh_tokens (db v))" by (simp cong: filter_cong)
    also have "\<dots> = [t]" using filter_key [OF dist, of "t_id t"] select_one_key [OF dist assms(3)] by simp
    finally show ?thesis .
  qed
  then show ?thesis using ok assms(3-5) by (auto simp: sessions_ok_def)
qed

text \<open>After a refresh the family has the new token only.\<close>

definition after_refresh :: world where
  "after_refresh = snd (execute sample_config (R_Refresh refresh_policy ''raw'') sample_env sample_world)"

definition live_tokens :: "database \<Rightarrow> refresh_token_row list" where
  "live_tokens d = filter (\<lambda>t. t_family_id t = ''m1'' \<and> t_revoked_at t = None) (auth_refresh_tokens d)"

theorem sessions_stay_sound_witness: "length (live_tokens (db after_refresh)) = 1"
proof -
  have run: "system_run sample_env sample_config sample_world after_refresh"
    unfolding after_refresh_def by (rule system_run.serve [OF system_run.start]) (rule prod.collapse [symmetric])
  have ex: "list_ex (\<lambda>t. t_revoked_at t = None \<and> t_family_id t = ''m1'') (auth_refresh_tokens (db after_refresh))"
    "list_ex (\<lambda>m. m_id m = ''m1'') (refresh_families (db after_refresh))"
    by code_simp+
  then obtain t m where "t \<in> set (auth_refresh_tokens (db after_refresh))" "t_revoked_at t = None" "t_family_id t = ''m1''"
    "m \<in> set (refresh_families (db after_refresh))" "m_id m = ''m1''"
    by (auto simp: list_ex_iff)
  then show ?thesis
    using sessions_stay_sound [OF sample_sess run, of t m] by (simp add: live_tokens_def)
qed

end
