(* ===== verification/AccessProperties.thy ===== *)
theory AccessProperties
  imports SystemInvariant
begin

text \<open>
  Logging in, being let in and being let through: what a client must have to get a session and
  what a session is good for; and what changing an account does to its sessions.
\<close>

subsection \<open>Access with a token\<close>

lemma user_has_permission_iff:
  "user_has_permission d i name \<longleftrightarrow>
     (\<exists>u \<in> set (users d). u_id u = i \<and> u_deleted_at u = None \<and> holds_permission d u name)"
  by (auto simp: user_has_permission_def holds_permission_def list_ex_iff)

lemma VerifyAccessToken_run:
  assumes "VerifyAccessToken s raw e w = (Inr c, w')"
  shows "HasPrefix raw ''Bearer '' \<and> db w' = db w \<and> cl_TokenUse c = ''access'' \<and> (\<exists>now \<in> range (app_now e).
    jwt_parse e (s_Secret s) (s_Issuer s) (s_Audience s) now (TrimPrefix raw ''Bearer '') = Some c)"
  using assms
  by (auto simp: VerifyAccessToken_def Let_def run_simps bindE_def askE_def time_Now_def failE_def returnE_def
      split: if_splits option.splits)

lemma LoadActor_run:
  assumes "LoadActor c e w = (Inr a, w')"
  shows "db w' = db w \<and> (\<exists>u \<in> set (users (db w)). uuid_in e (cl_ID c) = Some (u_id u) \<and> u_deleted_at u = None
    \<and> a = (actor_of u)\<lparr>a_ExpiresAt := cl_ExpiresAt c\<rparr>)"
  using assms by (auto simp: LoadActor_def FindActiveUserByID_def run_simps dest!: select_one_Some)

text \<open>The three checks, whatever happens between them to anything but the database.\<close>

lemma admitted:
  assumes "uuid_laws e" and ver: "VerifyAccessToken s raw e v0 = (Inr c, v1)"
    and load: "LoadActor c e v2 = (Inr a, v3)" and auth: "Authorize a permission e v4 = (Inr (), v5)"
    and db: "db v2 = d" "db v4 = d" and ids: "distinct (map u_id (users d))"
  shows "\<exists>token now u. raw = ''Bearer '' @ token
    \<and> jwt_parse e (s_Secret s) (s_Issuer s) (s_Audience s) now token = Some c \<and> cl_TokenUse c = ''access''
    \<and> u \<in> set (users d) \<and> uuid_in e (cl_ID c) = Some (u_id u) \<and> u_deleted_at u = None
    \<and> a_ID a = u_id u \<and> a_RoleID a = u_role_id u \<and> (permission = [] \<or> holds_permission d u permission)"
proof -
  note t = VerifyAccessToken_run [OF ver]
  from t obtain token where raw: "raw = ''Bearer '' @ token" by (auto simp: HasPrefix_iff)
  obtain u where u: "u \<in> set (users d)" "uuid_in e (cl_ID c) = Some (u_id u)" "u_deleted_at u = None"
    and a: "a = (actor_of u)\<lparr>a_ExpiresAt := cl_ExpiresAt c\<rparr>"
    using LoadActor_run [OF load] db by auto
  have "permission = [] \<or> holds_permission d u permission"
  proof (cases "permission = []")
    case False
    then obtain i where i: "uuid_in e (a_ID a) = Some i" "user_has_permission d i permission"
      using auth db by (auto simp: Authorize_def UserHasPermission_def run_simps split: if_splits)
    have "i = u_id u" using i(1) u(2) assms(1) by (auto simp: a actor_of_def uuid_laws_def)
    then obtain u' where "u' \<in> set (users d)" "u_id u' = u_id u" "holds_permission d u' permission"
      using i(2) by (auto simp: user_has_permission_iff)
    then have "holds_permission d u permission" using key_inj [OF ids] u(1) by metis
    then show ?thesis ..
  qed simp
  moreover obtain now where "jwt_parse e (s_Secret s) (s_Issuer s) (s_Audience s) now token = Some c"
    using t by (auto simp: raw simp del: append_Cons append_Nil)
  ultimately show ?thesis
    using raw t u by (intro exI [of _ token] exI [of _ now] exI [of _ u]) (auto simp: a actor_of_def)
qed

text \<open>C18. A request gets through only with the permissions the user has now.  If \<open>Authenticate\<close> and
  then \<open>Authorize\<close> let a request pass, it carried \<open>Bearer\<close> and a token the JWT library accepts with
  the service's secret, issuer and audience, meant for access; the token's subject is an active
  user; and that user's present role, not the role written in the token, has the permission.\<close>

theorem access_is_current:
  assumes "uuid_laws e" and "Authenticate s raw e w = (Inr a, w1)" and "Authorize a permission e w1 = (Inr (), w2)"
    and "permission \<noteq> []" and "distinct (map u_id (users (db w)))"
  shows "db w2 = db w \<and> (\<exists>token c now u. raw = ''Bearer '' @ token
    \<and> jwt_parse e (s_Secret s) (s_Issuer s) (s_Audience s) now token = Some c \<and> cl_TokenUse c = ''access''
    \<and> u \<in> set (users (db w)) \<and> uuid_in e (cl_ID c) = Some (u_id u) \<and> u_deleted_at u = None
    \<and> a_ID a = u_id u \<and> a_RoleID a = u_role_id u \<and> holds_permission (db w) u permission)"
proof -
  obtain c v where ver: "VerifyAccessToken s raw e w = (Inr c, v)" and load: "LoadActor c e v = (Inr a, w1)"
    using assms(2) unfolding Authenticate_def run_parts by blast
  have dbs: "db v = db w" "db w1 = db w"
    using VerifyAccessToken_run [OF ver] LoadActor_run [OF load] by auto
  moreover have "db w2 = db w1"
    using assms(3) by (auto simp: Authorize_def UserHasPermission_def run_simps split: if_splits)
  moreover note admitted [OF assms(1) ver load assms(3) dbs assms(5)]
  ultimately show ?thesis using assms(4) by auto
qed

definition sample_let_in :: "(goerr + actor) \<times> world" where
  "sample_let_in = Authenticate sample_service ''Bearer jwt'' sample_env sample_world"

theorem access_is_current_witness:
  "\<exists>u \<in> set (users sample_db). u_id u = ''u1'' \<and> holds_permission sample_db u ''manage_roles''"
proof -
  let ?a = "\<lparr>a_ID = ''u1'', a_Email = ''root@example.com'', a_RoleID = ''r1'', a_ExpiresAt = 901000\<rparr>"
  have "fst sample_let_in = Inr ?a" and let_in: "fst (Authorize ?a ''manage_roles'' sample_env (snd sample_let_in)) = Inr ()"
    by code_simp+
  then have "Authenticate sample_service ''Bearer jwt'' sample_env sample_world = (Inr ?a, snd sample_let_in)"
    by (simp add: sample_let_in_def prod_eq_iff)
  moreover have "distinct (map u_id (users (db sample_world)))"
    by (simp add: sample_world_def sample_db_def sample_user_def)
  ultimately show ?thesis
    using access_is_current [OF sample_laws(1), of sample_service "''Bearer jwt''" sample_world ?a _ "''manage_roles''"] let_in
    by (metis actor.select_convs(1) list.discI prod.collapse sample_world_def world.select_convs(1))
qed

subsection \<open>Logging in\<close>

text \<open>C19. A login tells nothing about who has an account.  Unless the address, in lower case, is that
  of an active user and the password matches the stored hash, \<open>Login\<close> answers with one and the
  same error and changes nothing, given a database that answers.\<close>

theorem Login_uniform_refusal:
  assumes "\<And>n. fault_at e n = None"
    and "\<And>u. u \<in> set (users (db w)) \<Longrightarrow> u_email u = ToLower email \<Longrightarrow> u_deleted_at u = None \<Longrightarrow>
      \<not> bcrypt_matches e (u_password u) password"
  shows "\<exists>w'. Login s p email password e w = (Inl (New Unauthorized ''Invalid credentials''), w') \<and> db w' = db w"
proof (cases "select_one (\<lambda>u. u_email u = ToLower email \<and> u_deleted_at u = None) (users (db w))")
  case None
  then show ?thesis
    using assms(1) by (simp add: Login_def bindE_def askE_def mapE_def Q_def FindActiveUserByEmail_def stmt_def select_row_def)
next
  case (Some u)
  then have "\<not> bcrypt_matches e (u_password u) password" using assms(2) [of u] select_one_Some [OF Some] by simp
  then show ?thesis
    using assms(1) Some
    by (simp add: Login_def bindE_def askE_def mapE_def Q_def FindActiveUserByEmail_def stmt_def select_row_def guardE_def failE_def)
qed

theorem Login_uniform_refusal_witness:
  "\<exists>w' w''. Login sample_service refresh_policy ''nobody@example.com'' ''password'' sample_env sample_world
      = (Inl (New Unauthorized ''Invalid credentials''), w')
    \<and> Login sample_service refresh_policy ''root@example.com'' ''guess'' sample_env sample_world
      = (Inl (New Unauthorized ''Invalid credentials''), w'')"
proof -
  have up: "fault_at sample_env n = None" for n by (simp add: sample_env_def)
  have "list_all (\<lambda>u. u_email u = ToLower ''nobody@example.com'' \<and> u_deleted_at u = None
      \<longrightarrow> \<not> bcrypt_matches sample_env (u_password u) ''password'') (users (db sample_world))"
    "list_all (\<lambda>u. u_email u = ToLower ''root@example.com'' \<and> u_deleted_at u = None
      \<longrightarrow> \<not> bcrypt_matches sample_env (u_password u) ''guess'') (users (db sample_world))"
    by code_simp+
  then show ?thesis
    using Login_uniform_refusal [where e = sample_env and w = sample_world and email = "''nobody@example.com''"
        and password = "''password''" and s = sample_service and p = refresh_policy, OF up]
      Login_uniform_refusal [where e = sample_env and w = sample_world and email = "''root@example.com''"
        and password = "''guess''" and s = sample_service and p = refresh_policy, OF up]
    unfolding list_all_iff by blast
qed

subsection \<open>Signing up\<close>


definition sample_registered :: "(goerr + auth_user) \<times> world" where
  "sample_registered = Register (sample_policy ''auth.register'' ''auth'' Required) ''New@example.com'' ''secret!'' sample_env sample_world"


subsection \<open>Moving a user to another role\<close>

text \<open>What \<open>RoleWithinActor\<close> lets through.\<close>

definition role_within :: "env \<Rightarrow> database \<Rightarrow> actor option \<Rightarrow> bytes \<Rightarrow> bool" where
  "role_within e d act role \<longleftrightarrow> (\<exists>a. act = Some a \<and> a_RoleID a = role)
    \<or> (\<exists>r. uuid_in e role = Some r \<and> (role_permission_ids d r = []
        \<or> (\<exists>a r'. act = Some a \<and> uuid_in e (a_RoleID a) = Some r'
             \<and> set (role_permission_ids d r) \<subseteq> set (role_permission_ids d r'))))"

lemma RoleWithinActor_within: "RoleWithinActor act role e w = (Inr u, w') \<Longrightarrow> role_within e (db w) act role \<and> db w' = db w"
  using RoleWithinActor_ok reads_db [OF privilege_reads(2)] unfolding role_within_def by blast

lemma User_Update_tx_run:
  assumes "User_Update_tx act ident email (Some role) e w = (Inr (out, c), w')"
  obtains i old where "uuid_in e ident = Some i" "old \<in> set (users (db w))" "u_id old = i" "u_deleted_at old = None"
    "role_within e (db w) act (u_role_id old)" "role_within e (db w) act role"
    "\<exists>u \<in> set (users (db w')). u_id u = i \<and> uuid_in e role = Some (u_role_id u)"
    "role \<noteq> u_role_id old \<Longrightarrow> sessions_ended i (db w')"
proof -
  obtain old w1 w2 w3 check w4 row w5 w6 where lock: "LockUser ident e w = (Inr old, w1)"
    and within1: "RoleWithinActor act (u_role_id old) e w1 = (Inr (), w2)"
    and within2: "RoleWithinActor act role e w2 = (Inr (), w3)"
    and guard: "(if role_changed (Some role) old then GuardSystemPermissionHolders else returnE (returnE ())) e w3 = (Inr check, w4)"
    and upd: "UpdateUser ident email (Some role) e w4 = (Inr row, w5)" and check: "check e w5 = (Inr (), w6)"
    and revoke: "(if role_changed (Some role) old then RevokeUserSessions ident else returnE ()) e w6 = (Inr (), w')"
    using assms unfolding User_Update_tx_def Let_def run_parts option.case by blast
  obtain i where i: "uuid_in e ident = Some i" "old \<in> set (users (db w))" "u_id old = i" "u_deleted_at old = None"
    and db1: "db w1 = db w" using LockUser_row [OF lock] by blast
  have r: "role_within e (db w) act (u_role_id old)" "role_within e (db w) act role" and db3: "db w3 = db w"
    using RoleWithinActor_within [OF within1] RoleWithinActor_within [OF within2] db1 by auto
  have db4: "db w4 = db w" and db6: "db w6 = db w5"
    using guard check db3 guarded by (auto simp: run_simps split: if_splits)
  obtain j t where j: "uuid_in e role = Some j"
    and w5: "users (db w5) = update_where (\<lambda>x. u_id x = i) (set_user email (Some j) t) (users (db w))"
    using upd i(1) db4 by (auto simp: UpdateUser_def run_simps Let_def split: option.splits)
  have "set_user email (Some j) t old \<in> set (users (db w5))"
    unfolding w5 set_update_where using i(2,3) by (intro bexI [of _ old]) simp_all
  moreover have "users (db w') = users (db w6)" "role \<noteq> u_role_id old \<Longrightarrow> sessions_ended i (db w')"
    using revoke RevokeUserSessions_ends [OF _ i(1)]
    by (auto simp: role_changed_def run_simps split: if_splits)
  ultimately show thesis
    using that [OF i r] j i(3) db6 by (fastforce simp: set_user_def)
qed

text \<open>C21. A change of role takes effect at once and needs the privileges.  When \<open>user.Service.Update\<close>
  with a role succeeds, the caller's role covered both the old and the new role of the user, the
  user has the new role, and if it differs from the old one every session of the user is ended.\<close>

theorem User_Update_role:
  assumes "User_Update p act ident email (Some role) e w = (Inr out, w')"
  shows "\<exists>i old. uuid_in e ident = Some i \<and> old \<in> set (users (db w)) \<and> u_id old = i \<and> u_deleted_at old = None
    \<and> role_within e (db w) act (u_role_id old) \<and> role_within e (db w) act role
    \<and> (\<exists>u \<in> set (users (db w')). u_id u = i \<and> uuid_in e role = Some (u_role_id u))
    \<and> (role \<noteq> u_role_id old \<longrightarrow> sessions_ended i (db w'))"
proof -
  obtain w1 w2 u where db1: "db w1 = db w" and get: "User_Get ident e w2 = (Inr out, w')"
    and mut: "Mutate p act ''UPDATE'' (User_Update_tx act ident email (Some role)) e w1 = (Inr u, w2)"
  proof -
    have "evolves (=) e (bindE (checkUUID ident) (\<lambda>_. bindE (guardE (if email = None \<and> Some role = None
       then Some (New Invalid ''No fields to update'') else None)) (\<lambda>_.
       bindE (case email of None \<Rightarrow> returnE () | Some m \<Rightarrow> guardE (Email m)) (\<lambda>_. checkUUID role))))"
      by (intro same.ev_rules reads)
    moreover obtain v w1 w2 where "(bindE (checkUUID ident) (\<lambda>_. bindE (guardE (if email = None \<and> Some role = None
       then Some (New Invalid ''No fields to update'') else None)) (\<lambda>_.
       bindE (case email of None \<Rightarrow> returnE () | Some m \<Rightarrow> guardE (Email m)) (\<lambda>_. checkUUID role)))) e w = (Inr (), w1)"
      "Mutate p act ''UPDATE'' (User_Update_tx act ident email (Some role)) e w1 = (Inr v, w2)" "User_Get ident e w2 = (Inr out, w')"
      using assms unfolding User_Update_def run_parts option.case by blast
    ultimately show thesis using that [of w1 w2 v] reads_db [of e _ w "Inr ()" w1] by blast
  qed
  have "evolves (=) e (User_Get ident)" by (rule reads)
  then have db2: "db w' = db w2" using get by (rule reads_db)
  obtain c w3 where tx: "User_Update_tx act ident email (Some role) e (tx_start e w1) = (Inr (u, c), w3)"
    and logs: "adds_logs (db w3) (db w2)" using Mutate_success [OF mut] by blast
  obtain i old where "uuid_in e ident = Some i" "old \<in> set (users (db w))" "u_id old = i" "u_deleted_at old = None"
    "role_within e (db w) act (u_role_id old)" "role_within e (db w) act role"
    "\<exists>u \<in> set (users (db w3)). u_id u = i \<and> uuid_in e role = Some (u_role_id u)"
    "role \<noteq> u_role_id old \<Longrightarrow> sessions_ended i (db w3)"
    using User_Update_tx_run [OF tx] unfolding tx_start_simps db1 by blast
  then show ?thesis
    using adds_logs_simps(4) [OF logs] sessions_ended_logs [OF _ logs] unfolding db2 by auto
qed

definition sample_moved :: "(goerr + model_user) \<times> world" where
  "sample_moved = User_Update (sample_policy ''user.update'' ''users'' Required) (Some sample_admin) ''u2'' None (Some ''r3'')
     sample_env sample_world"

theorem User_Update_role_witness: "sessions_ended ''u2'' (db (snd sample_moved))"
proof -
  have "isl (fst sample_moved) = False" by code_simp
  then obtain out where run: "User_Update (sample_policy ''user.update'' ''users'' Required) (Some sample_admin) ''u2'' None (Some ''r3'')
     sample_env sample_world = (Inr out, snd sample_moved)"
    by (cases "fst sample_moved") (auto simp: sample_moved_def prod_eq_iff)
  obtain i old where "uuid_in sample_env ''u2'' = Some i" "old \<in> set (users (db sample_world))" "u_id old = i"
    "''r3'' \<noteq> u_role_id old \<longrightarrow> sessions_ended i (db (snd sample_moved))"
    using User_Update_role [OF run] by blast
  then show ?thesis by (auto simp: sample_uuid sample_world_def sample_db_def sample_user_def)
qed

subsection \<open>The own account\<close>

text \<open>Both \<open>uuid.Parse\<close> and the engine read a UUID in upper case, too.\<close>

definition upper_env :: env where
  "upper_env = sample_env\<lparr>uuid_in := (\<lambda>s. Some (ToLower s))\<rparr>"

definition two_admins :: world where
  "two_admins = sample_world\<lparr>db := sample_db\<lparr>users := [sample_user ''u1'' ''root@example.com'' ''r1'',
     sample_user ''u2'' ''user@example.com'' ''r1'']\<rparr>\<rparr>"

definition delete_as_root :: "bytes \<Rightarrow> (goerr + unit) \<times> world" where
  "delete_as_root ident = User_Delete (sample_policy ''user.delete'' ''users'' Optional) sample_admin ident upper_env two_admins"


end
