(* ===== verification/AuditProperties.thy ===== *)
theory AuditProperties
  imports AccessProperties
begin

text \<open>
  What the shared machinery of the services promises: a change and its audit row, what an audit
  row may hold, which errors a client can see, and the pages of a list.
\<close>

subsection \<open>Mutations and their audit rows\<close>

lemma Write_error: "Write p act b c e w = (Inl x, w') \<Longrightarrow> db w' = db w"
  by (auto simp: Write_def InsertAudit_def Let_def returnE_def dest!: stmt_Inl_db split: if_splits)

text \<open>The rows a mutation adds to the audit log, by the mode of its policy.\<close>

definition logs_of :: "policy \<Rightarrow> actor option \<Rightarrow> bytes \<Rightarrow> change \<Rightarrow> activity_log list \<Rightarrow> bool" where
  "logs_of p act b c ls \<longleftrightarrow> list_all (row_of p act b c) ls
     \<and> (case pol_Mode p of Required \<Rightarrow> length ls = 1 | Optional \<Rightarrow> length ls \<le> 1 | NoAudit \<Rightarrow> ls = [])"

lemma Mutate_logs:
  assumes run: "Mutate p act b fn e w = (Inr r, w')"
  shows "\<exists>c w2 ls. fn e (tx_start e w) = (Inr (r, c), w2)
    \<and> db w' = (db w2)\<lparr>activity_logs := activity_logs (db w2) @ ls\<rparr> \<and> logs_of p act b c ls"
proof (cases "pol_Mode p")
  case Required
  then obtain c w2 l where "fn e (tx_start e w) = (Inr (r, c), w2)"
    "db w' = (db w2)\<lparr>activity_logs := activity_logs (db w2) @ [l]\<rparr>" "row_of p act b c l"
    using Mutate_required [OF run] by blast
  moreover from this Required have "logs_of p act b c [l]" by (simp add: logs_of_def)
  ultimately show ?thesis by blast
next
  case Optional
  then obtain c w2 w3 x where fn: "fn e (tx_start e w) = (Inr (r, c), w2)" and db3: "db w3 = db w2"
    and wr: "Write p act b c e w3 = (x, w')"
    using run by (auto simp: Mutate_def run_simps tx_start_def) (metis bump_simps(1) world.simps(8) world.ext_inject world.surjective world.update_convs(3))
  show ?thesis
  proof (cases x)
    case (Inl y)
    then have "db w' = (db w2)\<lparr>activity_logs := activity_logs (db w2) @ []\<rparr>" using Write_error wr db3 by force
    moreover have "logs_of p act b c []" using Optional by (simp add: logs_of_def)
    ultimately show ?thesis using fn by blast
  next
    case (Inr u)
    then obtain l where "db w' = (db w2)\<lparr>activity_logs := activity_logs (db w2) @ [l]\<rparr>" "row_of p act b c l"
      using Write_row [of p act b c e w3 u w'] wr db3 Optional by auto
    moreover from this have "logs_of p act b c [l]" using Optional by (simp add: logs_of_def)
    ultimately show ?thesis using fn by blast
  qed
next
  case NoAudit
  then obtain c w2 where "fn e (tx_start e w) = (Inr (r, c), w2)" "db w' = db w2"
    using run by (auto simp: Mutate_def run_simps tx_start_def)
  moreover have "logs_of p act b c []" using NoAudit by (simp add: logs_of_def)
  ultimately show ?thesis by force
qed

text \<open>C23. A change and its audit row stand or fall together.  Whatever a mutation's body does, if
  \<open>Mutate\<close> reports an error the database is as it was, and the error is one of the service's own;
  if it succeeds, the database is what the body made it plus its audit rows: exactly one if the
  policy requires one, at most one if it is optional, none if there is no audit.\<close>

theorem Mutate_atomic:
  "case Mutate p act b fn e w of
     (Inl x, w') \<Rightarrow> db w' = db w \<and> as_fault x \<noteq> None
   | (Inr r, w') \<Rightarrow> \<exists>c w2 ls. fn e (tx_start e w) = (Inr (r, c), w2)
       \<and> db w' = (db w2)\<lparr>activity_logs := activity_logs (db w2) @ ls\<rparr> \<and> logs_of p act b c ls"
proof (cases "Mutate p act b fn e w")
  case (Pair x w')
  then show ?thesis
    using Mutate_error [of p act b fn e w] Mutate_logs [of p act b fn e w] by (cases x) simp_all
qed


definition secret_value :: json where
  "secret_value = JObj [(''name'', JStr ''root''), (''Password'', JStr ''hunter2''),
     (''nested'', JArr [JObj [(''refreshToken'', JStr ''raw''), (''id'', JNum 1)]])]"


subsection \<open>The errors a client sees\<close>

lemma public_If: "as_fault x \<in> S \<Longrightarrow> as_fault y \<in> S \<Longrightarrow> as_fault (if b then x else y) \<in> S"
  by simp

lemma public_case:
  "(\<And>a. as_fault (f a) \<in> S) \<Longrightarrow> as_fault y \<in> S \<Longrightarrow> as_fault (case p of Some a \<Rightarrow> f a | None \<Rightarrow> y) \<in> S"
  by (cases p) simp_all

text \<open>C25. The engine is not visible through an error.  \<open>fault.DB\<close> turns every error of a driver into one
  of five public messages; it leaves an error that is already public alone, so translating twice is
  harmless; and the codes of the two engines for one cause give the same answer.\<close>

theorem DB_public:
  assumes "as_fault x = None"
  shows "as_fault (DB x) \<in> {Some (Missing, ''Not found''), Some (Duplicate, ''Record already exists''),
      Some (Invalid, ''Referenced record does not exist or is in use''),
      Some (Duplicate, ''Concurrent change; retry the request''), Some (Internal, ''Internal server error'')}
    \<and> DB (DB x) = DB x
    \<and> DB (PgError ''23505'') = DB (MySQLError 1062) \<and> DB (PgError ''23503'') = DB (MySQLError 1452)
    \<and> DB (PgError ''23001'') = DB (MySQLError 1451) \<and> DB (PgError ''40P01'') = DB (MySQLError 1213)"
proof (intro conjI)
  show "as_fault (DB x) \<in> {Some (Missing, ''Not found''), Some (Duplicate, ''Record already exists''),
      Some (Invalid, ''Referenced record does not exist or is in use''),
      Some (Duplicate, ''Concurrent change; retry the request''), Some (Internal, ''Internal server error'')}"
    using assms unfolding DB_def
    by (simp only: simp_thms if_False) (intro public_If public_case; simp)
  show "DB (DB x) = DB x" by (rule DB_fault) (rule DB_is_fault)
qed (simp_all add: DB_def)

theorem DB_public_witness: "as_fault (DB (PgError ''42P01'')) \<noteq> Some (Unavailable, ''connection refused'')"
  using DB_public [of "PgError ''42P01''"] by auto

subsection \<open>Pages of a list\<close>

lemma int64_id: "- (2 ^ 63) \<le> x \<Longrightarrow> x < 2 ^ 63 \<Longrightarrow> int64 x = x"
  by (simp add: int64_def)

lemma int32_id: "- (2 ^ 31) \<le> x \<Longrightarrow> x < 2 ^ 31 \<Longrightarrow> int32 x = x"
  by (simp add: int32_def)

lemma less_div:
  fixes x a b :: int
  assumes "0 < b"
  shows "x < a div b \<longleftrightarrow> x * b + b \<le> a"
proof -
  have a: "a = a div b * b + a mod b" "0 \<le> a mod b" "a mod b < b" using assms by simp_all
  have "(x + 1) * b \<le> a" if "x < a div b"
    using that a assms mult_right_mono [of "x + 1" "a div b" b] by linarith
  moreover have "x < a div b" if "(x + 1) * b \<le> a"
  proof -
    have "(x + 1) * b < a div b * b + b" using that a by linarith
    then have "(x + 1) * b < (a div b + 1) * b" by (simp add: distrib_right)
    then show ?thesis using assms by simp
  qed
  ultimately show ?thesis by (auto simp: algebra_simps)
qed

lemma mapM_reads:
  assumes "mapM f xs e w = (Inr ys, w')" and "\<And>x. evolves (=) e (f x)"
    and "\<And>x w y w'. f x e w = (Inr y, w') \<Longrightarrow> P x y"
  shows "list_all2 P xs ys"
  using assms(1) by (induction xs arbitrary: w ys) (auto simp: run_mapM simp del: mapM.simps intro: assms(3))

lemma User_enrich_run:
  assumes "User_enrich out e w = (Inr u, w')"
  shows "\<exists>r. u = out\<lparr>mu_role := Some r\<rparr>"
  using assms unfolding User_enrich_def run_parts by blast

lemma list_query_run:
  assumes "list_query page limit sortBy orderBy = Inr (sort_by, direction)"
  shows "1 \<le> page" "1 \<le> limit" "limit \<le> 100" "int64 (int64 (page - 1) * limit) \<le> 2147483647"
    "sort_by \<in> {''createdAt'', ''updatedAt'', ''email''}" "direction \<in> {''asc'', ''desc''}"
  using assms by (auto simp: list_query_def Let_def split: if_splits)

text \<open>C26. A page of users is the slice asked for.  As long as the page number is below \<open>2\<^sup>63 / 100\<close>, a
  successful \<open>List\<close> returns the users from \<open>(page - 1) * limit\<close> on of the active users that match,
  in the order asked for; the totals count them all; and there is a next page exactly if users
  are left after this one.\<close>

theorem User_List_slice:
  assumes "User_List page limit search sortBy orderBy e w = (Inr (out, pg), w')" and "page \<le> 92233720368547758"
  shows "\<exists>sort_by direction. list_query page limit sortBy orderBy = Inr (sort_by, direction)
    \<and> map mu_id out = map u_id (take (nat limit) (drop (nat ((page - 1) * limit))
        (order_users sort_by direction (listed_users (db w) search))))
    \<and> pg_total_items pg = int (length (listed_users (db w) search))
    \<and> pg_has_next pg = (page * limit < pg_total_items pg) \<and> pg_has_prev pg = (1 < page) \<and> db w' = db w"
proof -
  obtain sort_by direction count rows w1 w2 where q: "list_query page limit sortBy orderBy = Inr (sort_by, direction)"
    and c: "Q (CountUsers search) e w = (Inr count, w1)"
    and l: "Q (ListUsers search sort_by direction (int32 (int64 (int64 (page - 1) * limit))) (int32 limit)) e w1 = (Inr rows, w2)"
    and m: "mapM (\<lambda>r. User_enrich (User r)) rows e w2 = (Inr out, w')" and pg: "pg = page_of page limit (int count)"
    using assms(1) unfolding User_List_def run_parts by (auto simp: run_parts split: prod.splits)
  note b = list_query_run [OF q]
  have nonneg: "0 \<le> (page - 1) * limit" and "(page - 1) * limit \<le> 92233720368547757 * 100"
    using b(1-3) assms(2) mult_mono [of "page - 1" 92233720368547757 limit 100] by simp_all
  then have off: "int64 (int64 (page - 1) * limit) = (page - 1) * limit"
    using b(1) assms(2) by (simp add: int64_id)
  then have off32: "int32 ((page - 1) * limit) = (page - 1) * limit"
    using b(4) nonneg by (simp add: int32_id)
  have lim: "int32 limit = limit" using b(2,3) by (simp add: int32_id)
  have count: "count = length (listed_users (db w) search)" and db1: "db w1 = db w"
    using c by (auto simp: CountUsers_def run_simps)
  have rows: "rows = take (nat limit) (drop (nat ((page - 1) * limit)) (order_users sort_by direction (listed_users (db w) search)))"
    using l db1 by (auto simp: ListUsers_def run_simps off off32 lim split: if_splits)
  have "list_all2 (\<lambda>r u. mu_id u = u_id r) rows out"
    using m by (rule mapM_reads) (auto intro: reads User_reads dest!: User_enrich_run simp: User_def)
  then have ids: "map mu_id out = map u_id rows" by (induction rule: list_all2_induct) auto
  have "(page < (int count + limit - 1) div limit) = (page * limit < int count)"
    using b(2) less_div [of limit page "int count + limit - 1"] by auto
  moreover have "db w' = db w" using reads_db [OF User_reads(3) assms(1)] .
  ultimately show ?thesis
    using q ids rows count by (intro exI [of _ sort_by] exI [of _ direction]) (simp add: pg page_of_def Let_def)
qed

definition sample_page :: "(goerr + model_user list \<times> pagination) \<times> world" where
  "sample_page = User_List 2 1 [] ''email'' ''desc'' sample_env sample_world"

theorem User_List_slice_witness: "pg_has_next (snd (projr (fst sample_page))) = False \<and> pg_has_prev (snd (projr (fst sample_page)))"
proof -
  have "isl (fst sample_page) = False" by code_simp
  then obtain out pg where v: "fst sample_page = Inr (out, pg)" by (cases "fst sample_page") auto
  then have run: "User_List 2 1 [] ''email'' ''desc'' sample_env sample_world = (Inr (out, pg), snd sample_page)"
    by (simp add: sample_page_def prod_eq_iff)
  have "pg_has_next pg = (2 * 1 < pg_total_items pg) \<and> pg_has_prev pg
      \<and> pg_total_items pg = int (length (listed_users (db sample_world) []))"
    using User_List_slice [OF run] by auto
  moreover have "length (listed_users (db sample_world) []) = 2" by code_simp
  ultimately show ?thesis by (simp add: v)
qed


end
