(* ===== verification/MySqlQueries.thy ===== *)
theory MySqlQueries
  imports QueriesOutbox
begin

text \<open>
  The statements of \<open>internal/db/mysql/sqlc\<close>, on the same tables as MySQL keeps them
  (\<open>internal/db/mysql/migrations\<close>).  Against PostgreSQL: an id is a \<open>char(36)\<close> and compared as
  text, so no text is invalid; \<open>CURRENT_TIMESTAMP(3)\<close> is the time of the statement, not of the
  transaction; there is no \<open>RETURNING\<close>, so an insertion takes its id from the caller; an
  \<open>UPDATE\<close> counts the rows it really changed; the columns for names, addresses and files are
  \<open>varchar\<close> with a length.  Ids are the 36 bytes of a UUID, so that no padding matters.
\<close>

definition my_stmt :: "'a sql \<Rightarrow> 'a op" where
  "my_stmt f = (\<lambda>e w. case fault_at e (tick w) of
      Some x \<Rightarrow> (Inl x, bump w)
    | None \<Rightarrow> (case f e (db_now e (tick w)) (gen_uuid e (tick w)) (db w) of
        Inl x \<Rightarrow> (Inl x, bump w)
      | Inr (a, d) \<Rightarrow> (Inr a, (bump w)\<lparr>db := d\<rparr>)))"

text \<open>A \<open>char(36)\<close> parameter is compared as it is.\<close>

definition with_char :: "bytes \<Rightarrow> (bytes \<Rightarrow> 'a sql) \<Rightarrow> 'a sql" where
  "with_char s f = f s"

definition with_char_opt :: "bytes option \<Rightarrow> (bytes option \<Rightarrow> 'a sql) \<Rightarrow> 'a sql" where
  "with_char_opt p f = f p"

definition my_unique_violation :: goerr where "my_unique_violation = MySQLError 1062"
definition my_foreign_key_violation :: goerr where "my_foreign_key_violation = MySQLError 1452"
definition my_restrict_violation :: goerr where "my_restrict_violation = MySQLError 1451"
definition my_check_violation :: goerr where "my_check_violation = MySQLError 3819"
definition my_too_long :: goerr where "my_too_long = MySQLError 1406"
definition my_out_of_range :: goerr where "my_out_of_range = MySQLError 1264"
definition my_bigint_overflow :: goerr where "my_bigint_overflow = MySQLError 1690"
definition my_wrong_arguments :: goerr where "my_wrong_arguments = MySQLError 1210"

lemmas my_errors = my_unique_violation_def my_foreign_key_violation_def my_restrict_violation_def
  my_check_violation_def my_too_long_def my_out_of_range_def my_bigint_overflow_def my_wrong_arguments_def

text \<open>A value stored in a \<open>varchar(n)\<close> or a \<open>binary(n)\<close> column.\<close>

definition my_varchar :: "nat \<Rightarrow> bytes \<Rightarrow> goerr + bytes" where
  "my_varchar n s = (let rs = runes s in
     if length rs \<le> n then Inr s
     else if list_all (\<lambda>p. fst p = 32) (drop n rs) then Inr (concat (map snd (take n rs)))
     else Inl my_too_long)"

definition my_binary :: "nat \<Rightarrow> bytes \<Rightarrow> goerr + bytes" where
  "my_binary n s = (if n < length s then Inl my_too_long else Inr (s @ replicate (n - length s) (CHR 0x00)))"

subsection \<open>\<open>auth.sql.go\<close>\<close>

definition my_CreateAuthRefreshToken :: "bytes \<Rightarrow> bytes \<Rightarrow> bytes \<Rightarrow> instant \<Rightarrow> unit op" where
  "my_CreateAuthRefreshToken family_id user_id token_hash expires_at =
    my_stmt (with_char family_id (\<lambda>fam. with_char user_id (\<lambda>user e now new d.
      case my_binary 32 token_hash of Inl x \<Rightarrow> Inl x | Inr hash \<Rightarrow>
        if new \<in> t_id ` set (auth_refresh_tokens d)
           \<or> hash \<in> t_token_hash ` set (auth_refresh_tokens d) then Inl my_unique_violation
        else if user \<notin> u_id ` set (users d) \<or> fam \<notin> m_id ` set (refresh_families d)
          then Inl my_foreign_key_violation
        else Inr ((), d\<lparr>auth_refresh_tokens := auth_refresh_tokens d @
          [\<lparr>t_id = new, t_family_id = fam, t_user_id = user, t_token_hash = hash,
            t_expires_at = expires_at, t_created_at = now, t_revoked_at = None\<rparr>]\<rparr>))))"

definition my_CreateRefreshFamily :: "bytes \<Rightarrow> bytes \<Rightarrow> instant \<Rightarrow> unit op" where
  "my_CreateRefreshFamily ident user_id expires_at =
    my_stmt (with_char ident (\<lambda>i. with_char user_id (\<lambda>user e now new d.
      if i \<in> m_id ` set (refresh_families d) then Inl my_unique_violation
      else if user \<notin> u_id ` set (users d) then Inl my_foreign_key_violation
      else Inr ((), d\<lparr>refresh_families := refresh_families d @
        [\<lparr>m_id = i, m_user_id = user, m_created_at = now, m_expires_at = expires_at,
          m_revoked_at = None\<rparr>]\<rparr>))))"

definition my_DeleteExpiredAuthRefreshTokens :: "bytes \<Rightarrow> unit op" where
  "my_DeleteExpiredAuthRefreshTokens user_id = my_stmt (with_char user_id (\<lambda>user e now new d.
     Inr ((), d\<lparr>auth_refresh_tokens :=
       delete_where (\<lambda>t. t_user_id t = user \<and> t_expires_at t < now) (auth_refresh_tokens d)\<rparr>)))"

definition my_FindActiveUserByEmail :: "bytes \<Rightarrow> user_row op" where
  "my_FindActiveUserByEmail email =
     my_stmt (select_row (\<lambda>d. select_one (\<lambda>u. u_email u = email \<and> u_deleted_at u = None) (users d)))"

definition my_FindActiveUserByID :: "bytes \<Rightarrow> user_row op" where
  "my_FindActiveUserByID ident = my_stmt (with_char ident (\<lambda>i.
     select_row (\<lambda>d. select_one (\<lambda>u. u_id u = i \<and> u_deleted_at u = None) (users d))))"

definition my_FindAuthRefreshTokenByHash :: "bytes \<Rightarrow> refresh_token_row op" where
  "my_FindAuthRefreshTokenByHash token_hash =
     my_stmt (select_row (\<lambda>d. select_one (\<lambda>t. t_token_hash t = token_hash) (auth_refresh_tokens d)))"

definition my_LockRefreshFamily :: "bytes \<Rightarrow> refresh_family op" where
  "my_LockRefreshFamily ident = my_stmt (with_char ident (\<lambda>i.
     select_row (\<lambda>d. select_one (\<lambda>m. m_id m = i) (refresh_families d))))"

definition my_LookupAuthRefreshToken :: "bytes \<Rightarrow> refresh_token_row op" where
  "my_LookupAuthRefreshToken token_hash =
     my_stmt (select_row (\<lambda>d. select_one (\<lambda>t. t_token_hash t = token_hash) (auth_refresh_tokens d)))"

definition my_RevokeAuthRefreshFamily :: "bytes \<Rightarrow> unit op" where
  "my_RevokeAuthRefreshFamily family_id = my_stmt (with_char family_id (\<lambda>i e now new d.
     Inr ((), d\<lparr>auth_refresh_tokens :=
       update_where (\<lambda>t. t_family_id t = i \<and> t_revoked_at t = None)
         (\<lambda>t. t\<lparr>t_revoked_at := Some now\<rparr>) (auth_refresh_tokens d)\<rparr>)))"

definition my_RevokeAuthRefreshToken :: "bytes \<Rightarrow> nat op" where
  "my_RevokeAuthRefreshToken ident = my_stmt (with_char ident (\<lambda>i e now new d.
     Inr (length (filter (\<lambda>t. t_id t = i \<and> t_revoked_at t = None) (auth_refresh_tokens d)),
       d\<lparr>auth_refresh_tokens :=
         update_where (\<lambda>t. t_id t = i \<and> t_revoked_at t = None)
           (\<lambda>t. t\<lparr>t_revoked_at := Some now\<rparr>) (auth_refresh_tokens d)\<rparr>)))"

definition my_RevokeRefreshFamilyRecord :: "bytes \<Rightarrow> unit op" where
  "my_RevokeRefreshFamilyRecord ident = my_stmt (with_char ident (\<lambda>i e now new d.
     Inr ((), d\<lparr>refresh_families := update_where (\<lambda>m. m_id m = i)
       (\<lambda>m. m\<lparr>m_revoked_at := (case m_revoked_at m of None \<Rightarrow> Some now | Some t \<Rightarrow> Some t)\<rparr>)
       (refresh_families d)\<rparr>)))"

definition my_RevokeUserAuthRefreshTokens :: "bytes \<Rightarrow> unit op" where
  "my_RevokeUserAuthRefreshTokens user_id = my_stmt (with_char user_id (\<lambda>i e now new d.
     Inr ((), d\<lparr>auth_refresh_tokens :=
       update_where (\<lambda>t. t_user_id t = i \<and> t_revoked_at t = None)
         (\<lambda>t. t\<lparr>t_revoked_at := Some now\<rparr>) (auth_refresh_tokens d)\<rparr>)))"

definition my_RevokeUserRefreshFamilies :: "bytes \<Rightarrow> unit op" where
  "my_RevokeUserRefreshFamilies user_id = my_stmt (with_char user_id (\<lambda>i e now new d.
     Inr ((), d\<lparr>refresh_families :=
       update_where (\<lambda>m. m_user_id m = i \<and> m_revoked_at m = None)
         (\<lambda>m. m\<lparr>m_revoked_at := Some now\<rparr>) (refresh_families d)\<rparr>)))"

definition my_UserHasPermission :: "bytes \<Rightarrow> bytes \<Rightarrow> bool op" where
  "my_UserHasPermission ident name =
     my_stmt (with_char ident (\<lambda>i. select_rows (\<lambda>d. user_has_permission d i name)))"

subsection \<open>\<open>role.sql.go\<close>, \<open>permission.sql.go\<close>\<close>

definition my_CreateRole :: "bytes \<Rightarrow> bytes \<Rightarrow> unit op" where
  "my_CreateRole ident name = my_stmt (with_char ident (\<lambda>i e now new d.
     case my_varchar 64 name of Inl x \<Rightarrow> Inl x | Inr nm \<Rightarrow>
       if i \<in> r_id ` set (roles d) \<or> nm \<in> r_name ` set (roles d) then Inl my_unique_violation
       else Inr ((), d\<lparr>roles := roles d @
         [\<lparr>r_id = i, r_name = nm, r_created_at = now, r_updated_at = now\<rparr>]\<rparr>)))"

definition my_UpdateRole :: "bytes \<Rightarrow> bytes \<Rightarrow> unit op" where
  "my_UpdateRole ident name = my_stmt (with_char ident (\<lambda>i e now new d.
     if i \<notin> r_id ` set (roles d) then Inr ((), d)
     else case my_varchar 64 name of Inl x \<Rightarrow> Inl x | Inr nm \<Rightarrow>
       if nm \<in> r_name ` {x \<in> set (roles d). r_id x \<noteq> i} then Inl my_unique_violation
       else Inr ((), d\<lparr>roles := update_where (\<lambda>x. r_id x = i)
         (\<lambda>x. x\<lparr>r_name := nm, r_updated_at := now\<rparr>) (roles d)\<rparr>)))"

definition my_AssignRolePermission :: "bytes \<Rightarrow> bytes \<Rightarrow> unit op" where
  "my_AssignRolePermission role_id permission_id =
    my_stmt (with_char role_id (\<lambda>r. with_char permission_id (\<lambda>p e now new d.
      let row = \<lparr>rp_role_id = r, rp_permission_id = p\<rparr> in
      if row \<in> set (role_permissions d) then Inr ((), d)
      else if r \<notin> r_id ` set (roles d) \<or> p \<notin> p_id ` set (permissions d) then Inl my_foreign_key_violation
      else Inr ((), d\<lparr>role_permissions := role_permissions d @ [row]\<rparr>))))"

definition my_ClearRolePermissions :: "bytes \<Rightarrow> unit op" where
  "my_ClearRolePermissions role_id = my_stmt (with_char role_id (\<lambda>r e now new d.
     Inr ((), d\<lparr>role_permissions := delete_where (\<lambda>rp. rp_role_id rp = r) (role_permissions d)\<rparr>)))"

definition my_DeleteRole :: "bytes \<Rightarrow> unit op" where
  "my_DeleteRole ident = my_stmt (with_char ident (\<lambda>r e now new d.
     if r \<in> r_id ` set (roles d) \<and> r \<in> u_role_id ` set (users d) then Inl my_restrict_violation
     else Inr ((), d\<lparr>roles := delete_where (\<lambda>x. r_id x = r) (roles d),
       role_permissions := delete_where (\<lambda>rp. rp_role_id rp = r) (role_permissions d)\<rparr>)))"

definition my_FindRole :: "bytes \<Rightarrow> role_row op" where
  "my_FindRole ident = my_stmt (with_char ident (\<lambda>i. select_row (\<lambda>d. select_one (\<lambda>r. r_id r = i) (roles d))))"

definition my_FindRoleByName :: "bytes \<Rightarrow> role_row op" where
  "my_FindRoleByName name = my_stmt (select_row (\<lambda>d. select_one (\<lambda>r. r_name r = name) (roles d)))"

definition my_ListRolePermissionIDs :: "bytes \<Rightarrow> bytes list op" where
  "my_ListRolePermissionIDs role_id =
     my_stmt (with_char role_id (\<lambda>r. select_rows (\<lambda>d. role_permission_ids d r)))"

definition my_ListRolePermissions :: "bytes \<Rightarrow> (bytes \<times> bytes) list op" where
  "my_ListRolePermissions role_id =
     my_stmt (with_char role_id (\<lambda>r. select_rows (\<lambda>d. role_named_permissions d r)))"

definition my_ListRoles :: "role_row list op" where
  "my_ListRoles = my_stmt (select_rows (\<lambda>d. sort_key (\<lambda>r. [r_name r, r_id r]) (roles d)))"

definition my_LockRole :: "bytes \<Rightarrow> role_row op" where
  "my_LockRole ident = my_stmt (with_char ident (\<lambda>i. select_row (\<lambda>d. select_one (\<lambda>r. r_id r = i) (roles d))))"

definition my_CreatePermission :: "bytes \<Rightarrow> bytes \<Rightarrow> unit op" where
  "my_CreatePermission ident name = my_stmt (with_char ident (\<lambda>i e now new d.
     case my_varchar 128 name of Inl x \<Rightarrow> Inl x | Inr nm \<Rightarrow>
       if i \<in> p_id ` set (permissions d) \<or> nm \<in> p_name ` set (permissions d) then Inl my_unique_violation
       else Inr ((), d\<lparr>permissions := permissions d @
         [\<lparr>p_id = i, p_name = nm, p_created_at = now, p_updated_at = now\<rparr>]\<rparr>)))"

definition my_UpdatePermission :: "bytes \<Rightarrow> bytes \<Rightarrow> unit op" where
  "my_UpdatePermission ident name = my_stmt (with_char ident (\<lambda>i e now new d.
     if i \<notin> p_id ` set (permissions d) then Inr ((), d)
     else case my_varchar 128 name of Inl x \<Rightarrow> Inl x | Inr nm \<Rightarrow>
       if nm \<in> p_name ` {x \<in> set (permissions d). p_id x \<noteq> i} then Inl my_unique_violation
       else Inr ((), d\<lparr>permissions := update_where (\<lambda>x. p_id x = i)
         (\<lambda>x. x\<lparr>p_name := nm, p_updated_at := now\<rparr>) (permissions d)\<rparr>)))"

definition my_CountActivePermissionHolders :: "bytes \<Rightarrow> nat op" where
  "my_CountActivePermissionHolders name = my_stmt (select_rows (\<lambda>d. active_holders d name))"

definition my_DeletePermission :: "bytes \<Rightarrow> unit op" where
  "my_DeletePermission ident = my_stmt (with_char ident (\<lambda>p e now new d.
     Inr ((), d\<lparr>permissions := delete_where (\<lambda>x. p_id x = p) (permissions d),
       role_permissions := delete_where (\<lambda>rp. rp_permission_id rp = p) (role_permissions d)\<rparr>)))"

definition my_FindPermission :: "bytes \<Rightarrow> permission_row op" where
  "my_FindPermission ident =
     my_stmt (with_char ident (\<lambda>i. select_row (\<lambda>d. select_one (\<lambda>p. p_id p = i) (permissions d))))"

definition my_ListPermissions :: "permission_row list op" where
  "my_ListPermissions = my_stmt (select_rows (\<lambda>d. sort_key (\<lambda>p. [p_name p, p_id p]) (permissions d)))"

definition my_ListRoleIDsWithPermissionName :: "bytes \<Rightarrow> bytes list op" where
  "my_ListRoleIDsWithPermissionName name = my_stmt (select_rows (\<lambda>d. role_ids_with_permission d name))"

definition my_LockPermission :: "bytes \<Rightarrow> permission_row op" where
  "my_LockPermission ident =
     my_stmt (with_char ident (\<lambda>i. select_row (\<lambda>d. select_one (\<lambda>p. p_id p = i) (permissions d))))"

definition my_LockPermissionByName :: "bytes \<Rightarrow> bytes list op" where
  "my_LockPermissionByName name =
     my_stmt (select_rows (\<lambda>d. map p_id (filter (\<lambda>p. p_name p = name) (permissions d))))"

subsection \<open>\<open>user.sql.go\<close>, \<open>seed.sql.go\<close>\<close>

definition my_FindUser :: "bytes \<Rightarrow> user_row op" where
  "my_FindUser ident = my_stmt (with_char ident (\<lambda>i.
     select_row (\<lambda>d. select_one (\<lambda>u. u_id u = i \<and> u_deleted_at u = None) (users d))))"

definition my_LockUser :: "bytes \<Rightarrow> user_row op" where
  "my_LockUser ident = my_stmt (with_char ident (\<lambda>i.
     select_row (\<lambda>d. select_one (\<lambda>u. u_id u = i \<and> u_deleted_at u = None) (users d))))"

definition my_SoftDeleteUser :: "bytes \<Rightarrow> unit op" where
  "my_SoftDeleteUser ident = my_stmt (with_char ident (\<lambda>i e now new d.
     Inr ((), d\<lparr>users := update_where (\<lambda>u. u_id u = i)
       (\<lambda>u. u\<lparr>u_deleted_at := Some now, u_updated_at := now\<rparr>) (users d)\<rparr>)))"

definition my_CountUsers :: "bytes \<Rightarrow> nat op" where
  "my_CountUsers search = my_stmt (select_rows (\<lambda>d. length (listed_users d search)))"

definition my_CreateUser :: "bytes \<Rightarrow> bytes \<Rightarrow> bytes \<Rightarrow> bytes \<Rightarrow> unit op" where
  "my_CreateUser ident email password role_id = my_stmt (with_char ident (\<lambda>i. with_char role_id (\<lambda>r e now new d.
     case my_varchar 255 (ToLower email) of Inl x \<Rightarrow> Inl x | Inr em \<Rightarrow>
       (case my_varchar 255 password of Inl x \<Rightarrow> Inl x | Inr pw \<Rightarrow>
         if i \<in> u_id ` set (users d) \<or> em \<in> u_email ` set (users d) then Inl my_unique_violation
         else if r \<notin> r_id ` set (roles d) then Inl my_foreign_key_violation
         else Inr ((), d\<lparr>users := users d @ [\<lparr>u_id = i, u_email = em, u_password = pw, u_role_id = r,
           u_deleted_at = None, u_created_at = now, u_updated_at = now\<rparr>]\<rparr>)))))"

text \<open>Which \<open>CASE\<close> of the \<open>ORDER BY\<close> applies; \<open>id\<close> breaks ties.\<close>

definition my_order_users :: "int \<Rightarrow> int \<Rightarrow> user_row list \<Rightarrow> user_row list" where
  "my_order_users sort_key_no descending us = (let by_id = sort_key u_id us in
     if sort_key_no = 1 \<and> descending = 0 then sort_key u_email by_id
     else if sort_key_no = 1 \<and> descending = 1 then sort_key_desc u_email by_id
     else if sort_key_no = 2 \<and> descending = 0 then sort_key u_created_at by_id
     else if sort_key_no = 2 \<and> descending = 1 then sort_key_desc u_created_at by_id
     else if sort_key_no = 3 \<and> descending = 0 then sort_key u_updated_at by_id
     else if sort_key_no = 3 \<and> descending = 1 then sort_key_desc u_updated_at by_id
     else by_id)"

definition my_ListUsers :: "bytes \<Rightarrow> int \<Rightarrow> int \<Rightarrow> int \<Rightarrow> int \<Rightarrow> user_row list op" where
  "my_ListUsers search sort_key_no descending page_limit page_offset = my_stmt (\<lambda>e now new d.
     if page_limit < 0 \<or> page_offset < 0 then Inl my_wrong_arguments
     else Inr (take (nat page_limit) (drop (nat page_offset)
       (my_order_users sort_key_no descending (listed_users d search))), d))"

definition my_UpdateUser :: "bytes \<Rightarrow> bytes option \<Rightarrow> bytes option \<Rightarrow> unit op" where
  "my_UpdateUser ident email role_id = my_stmt (with_char ident (\<lambda>i. with_char_opt role_id (\<lambda>role e now new d.
     case select_one (\<lambda>u. u_id u = i) (users d) of
       None \<Rightarrow> Inr ((), d)
     | Some u \<Rightarrow> (let u' = set_user email role now u in
         case my_varchar 255 (u_email u') of Inl x \<Rightarrow> Inl x | Inr em \<Rightarrow>
           if em \<in> u_email ` {x \<in> set (users d). u_id x \<noteq> i} then Inl my_unique_violation
           else if u_role_id u' \<notin> r_id ` set (roles d) then Inl my_foreign_key_violation
           else Inr ((), d\<lparr>users := update_where (\<lambda>x. u_id x = i)
             (\<lambda>x. (set_user email role now x)\<lparr>u_email := em\<rparr>) (users d)\<rparr>)))))"

definition my_SeedRole :: "bytes \<Rightarrow> unit op" where
  "my_SeedRole name = my_stmt (\<lambda>e now new d.
     case my_varchar 64 name of Inl x \<Rightarrow> Inl x | Inr nm \<Rightarrow>
       if nm \<in> r_name ` set (roles d) \<or> new \<in> r_id ` set (roles d) then Inr ((), d)
       else Inr ((), d\<lparr>roles := roles d @
         [\<lparr>r_id = new, r_name = nm, r_created_at = now, r_updated_at = now\<rparr>]\<rparr>))"

definition my_SeedPermission :: "bytes \<Rightarrow> unit op" where
  "my_SeedPermission name = my_stmt (\<lambda>e now new d.
     case my_varchar 128 name of Inl x \<Rightarrow> Inl x | Inr nm \<Rightarrow>
       if nm \<in> p_name ` set (permissions d) \<or> new \<in> p_id ` set (permissions d) then Inr ((), d)
       else Inr ((), d\<lparr>permissions := permissions d @
         [\<lparr>p_id = new, p_name = nm, p_created_at = now, p_updated_at = now\<rparr>]\<rparr>))"

definition my_SeedUser :: "bytes \<Rightarrow> bytes \<Rightarrow> bytes \<Rightarrow> unit op" where
  "my_SeedUser email password role = my_stmt (\<lambda>e now new d.
     case select_one (\<lambda>r. r_name r = role) (roles d) of
       None \<Rightarrow> Inr ((), d)
     | Some r \<Rightarrow>
         (case my_varchar 255 (ToLower email) of Inl x \<Rightarrow> Inl x | Inr em \<Rightarrow>
         (case my_varchar 255 password of Inl x \<Rightarrow> Inl x | Inr pw \<Rightarrow>
           if em \<in> u_email ` set (users d) \<or> new \<in> u_id ` set (users d)
           then Inr ((), d\<lparr>users := update_where
                  (\<lambda>u. if new \<in> u_id ` set (users d) then u_id u = new else u_email u = em)
                  (\<lambda>u. u\<lparr>u_role_id := r_id r, u_deleted_at := None, u_updated_at := now\<rparr>) (users d)\<rparr>)
           else Inr ((), d\<lparr>users := users d @ [\<lparr>u_id = new, u_email = em, u_password = pw,
                  u_role_id = r_id r, u_deleted_at = None, u_created_at = now, u_updated_at = now\<rparr>]\<rparr>))))"

definition my_SeedAdminPermissions :: "unit op" where
  "my_SeedAdminPermissions = my_stmt (\<lambda>e now new d.
     Inr ((), d\<lparr>role_permissions := role_permissions d @ admin_grants d\<rparr>))"

subsection \<open>\<open>notification.sql.go\<close>\<close>

text \<open>A Go \<open>bool\<close> reaches the engine as the integer 0 or 1.\<close>

definition my_ListOwnNotifications :: "bytes \<Rightarrow> int \<Rightarrow> notification_row list op" where
  "my_ListOwnNotifications recipient unread = my_stmt (with_char recipient (\<lambda>i. select_rows (\<lambda>d.
     take 50 (sort_key_desc n_created_at (sort_key_desc n_id
       (filter (\<lambda>n. n_recipient_id n = i \<and> (unread = 0 \<or> n_read_at n = None)) (notifications d)))))))"

definition my_NotificationBacklog :: "bytes \<Rightarrow> int \<Rightarrow> int \<Rightarrow> int \<Rightarrow> notification_row list op" where
  "my_NotificationBacklog recipient has_cursor sequence unread_only =
     my_stmt (with_char recipient (\<lambda>i. select_rows (\<lambda>d. take 50 (sort_key n_sequence
       (filter (\<lambda>n. n_recipient_id n = i
          \<and> ((has_cursor = 1 \<and> n_sequence n > sequence) \<or> (has_cursor = 0 \<and> n_read_at n = None))
          \<and> (unread_only = 0 \<or> n_read_at n = None)) (notifications d))))))"

definition my_NotificationPage :: "bytes \<Rightarrow> int \<Rightarrow> int \<Rightarrow> notification_row list op" where
  "my_NotificationPage recipient has_cursor sequence =
     my_stmt (with_char recipient (\<lambda>i. select_rows (\<lambda>d. take 51 (sort_key_desc n_sequence
       (filter (\<lambda>n. n_recipient_id n = i \<and> (has_cursor = 0 \<or> n_sequence n < sequence)) (notifications d))))))"

definition my_CreateNotification ::
  "bytes \<Rightarrow> bytes \<Rightarrow> bytes option \<Rightarrow> bytes \<Rightarrow> bytes \<Rightarrow> bytes \<Rightarrow> int \<Rightarrow> unit op" where
  "my_CreateNotification ident recipient actor title body email_status sequence =
    my_stmt (with_char ident (\<lambda>i. with_char recipient (\<lambda>rcp. with_char_opt actor (\<lambda>act e now new d.
      case my_varchar 160 title of Inl x \<Rightarrow> Inl x | Inr ttl \<Rightarrow>
          (case my_varchar 4000 body of Inl x \<Rightarrow> Inl x | Inr bd \<Rightarrow>
            if email_status \<notin> set email_statuses then Inl my_check_violation
            else if i \<in> n_id ` set (notifications d)
                 \<or> (rcp, sequence) \<in> (\<lambda>n. (n_recipient_id n, n_sequence n)) ` set (notifications d)
              then Inl my_unique_violation
            else if rcp \<notin> u_id ` set (users d)
                 \<or> dangling act (u_id ` set (users d))
              then Inl my_foreign_key_violation
            else Inr ((), d\<lparr>notifications := notifications d @
              [\<lparr>n_id = i, n_recipient_id = rcp, n_actor_id = act, n_title = ttl, n_body = bd,
                n_email_status = email_status, n_read_at = None, n_created_at = now,
                n_sequence = sequence\<rparr>]\<rparr>))))))"

definition my_EnsureNotificationCounter :: "bytes \<Rightarrow> unit op" where
  "my_EnsureNotificationCounter recipient = my_stmt (with_char recipient (\<lambda>i e now new d.
     if i \<in> c_recipient_id ` set (notification_counters d) then Inr ((), d)
     else if i \<notin> u_id ` set (users d) then Inl my_foreign_key_violation
     else Inr ((), d\<lparr>notification_counters := notification_counters d
            @ [\<lparr>c_recipient_id = i, c_sequence = 0\<rparr>]\<rparr>)))"

definition my_FindNotification :: "bytes \<Rightarrow> notification_row op" where
  "my_FindNotification ident =
     my_stmt (with_char ident (\<lambda>i. select_row (\<lambda>d. select_one (\<lambda>n. n_id n = i) (notifications d))))"

definition my_IncrementNotificationCounter :: "bytes \<Rightarrow> unit op" where
  "my_IncrementNotificationCounter recipient = my_stmt (with_char recipient (\<lambda>i e now new d.
     if list_ex (\<lambda>c. c_recipient_id c = i \<and> c_sequence c \<ge> 2 ^ 63 - 1) (notification_counters d)
     then Inl my_bigint_overflow
     else Inr ((), d\<lparr>notification_counters := update_where (\<lambda>c. c_recipient_id c = i)
       (\<lambda>c. c\<lparr>c_sequence := c_sequence c + 1\<rparr>) (notification_counters d)\<rparr>)))"

definition my_LockOwnNotification :: "bytes \<Rightarrow> bytes \<Rightarrow> notification_row op" where
  "my_LockOwnNotification ident recipient = my_stmt (with_char ident (\<lambda>i. with_char recipient (\<lambda>r.
     select_row (\<lambda>d. select_one (\<lambda>n. n_id n = i \<and> n_recipient_id n = r) (notifications d)))))"

definition my_NotificationCursor :: "bytes \<Rightarrow> bytes \<Rightarrow> int op" where
  "my_NotificationCursor ident recipient = my_stmt (with_char ident (\<lambda>i. with_char recipient (\<lambda>r.
     select_row (\<lambda>d. map_option n_sequence
       (select_one (\<lambda>n. n_id n = i \<and> n_recipient_id n = r) (notifications d))))))"

definition my_NotificationSequence :: "bytes \<Rightarrow> int op" where
  "my_NotificationSequence recipient = my_stmt (with_char recipient (\<lambda>i. select_row (\<lambda>d.
     map_option c_sequence (select_one (\<lambda>c. c_recipient_id c = i) (notification_counters d)))))"

definition my_ReadNotification :: "bytes \<Rightarrow> unit op" where
  "my_ReadNotification ident = my_stmt (with_char ident (\<lambda>i e now new d.
     Inr ((), d\<lparr>notifications := update_where (\<lambda>n. n_id n = i)
       (\<lambda>n. n\<lparr>n_read_at := (case n_read_at n of None \<Rightarrow> Some now | Some t \<Rightarrow> Some t)\<rparr>)
       (notifications d)\<rparr>)))"

definition my_SetNotificationEmailStatus :: "bytes \<Rightarrow> bytes \<Rightarrow> unit op" where
  "my_SetNotificationEmailStatus ident email_status = my_stmt (with_char ident (\<lambda>i e now new d.
     if i \<in> n_id ` set (notifications d) \<and> email_status \<notin> set email_statuses then Inl my_check_violation
     else Inr ((), d\<lparr>notifications := update_where (\<lambda>n. n_id n = i)
       (\<lambda>n. n\<lparr>n_email_status := email_status\<rparr>) (notifications d)\<rparr>)))"

subsection \<open>\<open>jobs.sql.go\<close>\<close>

definition my_ClaimEmail :: "bytes \<Rightarrow> instant \<Rightarrow> bytes \<Rightarrow> unit op" where
  "my_ClaimEmail lease_id lease_until ident = my_stmt (with_char lease_id (\<lambda>l. with_char ident (\<lambda>i e now new d.
     if list_ex (\<lambda>j. j_id j = i \<and> j_attempts j \<ge> 2 ^ 31 - 1) (email_jobs d) then Inl my_out_of_range
     else Inr ((), d\<lparr>email_jobs :=
       update_where (\<lambda>j. j_id j = i) (claim_update l lease_until) (email_jobs d)\<rparr>))))"

definition my_ClaimableEmail :: "instant \<Rightarrow> email_job op" where
  "my_ClaimableEmail now = my_stmt (select_row (\<lambda>d.
     case sort_key j_available_at (sort_key j_id (filter (claimable now) (email_jobs d))) of
       [] \<Rightarrow> None | j # _ \<Rightarrow> Some j))"

definition my_CleanupAudit :: "instant \<Rightarrow> nat \<Rightarrow> bytes list op" where
  "my_CleanupAudit cutoff batch_size = my_stmt (select_rows (\<lambda>d. take batch_size
     (sort (map l_id (filter (\<lambda>l. l_created_at l < cutoff) (activity_logs d))))))"

definition my_CleanupEmail :: "instant \<Rightarrow> nat \<Rightarrow> bytes list op" where
  "my_CleanupEmail cutoff batch_size = my_stmt (select_rows (\<lambda>d. take batch_size
     (sort (map j_id (filter (\<lambda>j. j_status j \<in> {''SENT'', ''FAILED''}
        \<and> (case j_completed_at j of None \<Rightarrow> False | Some t \<Rightarrow> t < cutoff)) (email_jobs d))))))"

definition my_CleanupFamilies :: "instant \<Rightarrow> nat \<Rightarrow> bytes list op" where
  "my_CleanupFamilies cutoff batch_size = my_stmt (select_rows (\<lambda>d. take batch_size
     (sort (map m_id (filter (family_stale cutoff) (refresh_families d))))))"

definition my_CompleteEmail :: "bytes \<Rightarrow> bytes \<Rightarrow> instant \<Rightarrow> instant option \<Rightarrow> unit op" where
  "my_CompleteEmail ident status available_at completed_at = my_stmt (with_char ident (\<lambda>i e now new d.
     if i \<in> j_id ` set (email_jobs d) \<and> status \<notin> set job_statuses then Inl my_check_violation
     else Inr ((), d\<lparr>email_jobs := update_where (\<lambda>j. j_id j = i)
       (complete_update status available_at completed_at) (email_jobs d)\<rparr>)))"

definition my_DeleteAudit :: "bytes \<Rightarrow> unit op" where
  "my_DeleteAudit ident = my_stmt (with_char ident (\<lambda>i e now new d.
     Inr ((), d\<lparr>activity_logs := delete_where (\<lambda>l. l_id l = i) (activity_logs d)\<rparr>)))"

definition my_DeleteEmail :: "bytes \<Rightarrow> unit op" where
  "my_DeleteEmail ident = my_stmt (with_char ident (\<lambda>i e now new d.
     Inr ((), d\<lparr>email_jobs := delete_where (\<lambda>j. j_id j = i) (email_jobs d)\<rparr>)))"

definition my_DeleteFamily :: "bytes \<Rightarrow> unit op" where
  "my_DeleteFamily ident = my_stmt (with_char ident (\<lambda>i e now new d.
     Inr ((), d\<lparr>refresh_families := delete_where (\<lambda>m. m_id m = i) (refresh_families d),
       auth_refresh_tokens := delete_where (\<lambda>t. t_family_id t = i) (auth_refresh_tokens d)\<rparr>)))"

definition my_EmailBacklogCount :: "nat op" where
  "my_EmailBacklogCount = my_stmt (select_rows (\<lambda>d. length (filter in_backlog (email_jobs d))))"

definition my_EnqueueEmail :: "bytes \<Rightarrow> bytes \<Rightarrow> bytes \<Rightarrow> bytes \<Rightarrow> bytes \<Rightarrow> unit op" where
  "my_EnqueueEmail ident notification_id recipient title body =
    my_stmt (with_char ident (\<lambda>i. with_char notification_id (\<lambda>n e now new d.
      case my_varchar 255 recipient of Inl x \<Rightarrow> Inl x | Inr rc \<Rightarrow>
      (case my_varchar 160 title of Inl x \<Rightarrow> Inl x | Inr ttl \<Rightarrow>
      (case my_varchar 4000 body of Inl x \<Rightarrow> Inl x | Inr bd \<Rightarrow>
        if i \<in> j_id ` set (email_jobs d) \<or> n \<in> j_notification_id ` set (email_jobs d)
          then Inl my_unique_violation
        else if n \<notin> n_id ` set (notifications d) then Inl my_foreign_key_violation
        else Inr ((), d\<lparr>email_jobs := email_jobs d @
          [\<lparr>j_id = i, j_notification_id = n, j_recipient = rc, j_title = ttl, j_body = bd,
            j_status = ''PENDING'', j_attempts = 0, j_available_at = now, j_lease_id = None,
            j_lease_until = None, j_completed_at = None, j_created_at = now\<rparr>]\<rparr>))))))"

definition my_LockEmail :: "bytes \<Rightarrow> email_job op" where
  "my_LockEmail ident =
     my_stmt (with_char ident (\<lambda>i. select_row (\<lambda>d. select_one (\<lambda>j. j_id j = i) (email_jobs d))))"

text \<open>\<open>CAST(... AS DATETIME)\<close> rounds to seconds.\<close>

definition my_EmailBacklogOldest :: "instant op" where
  "my_EmailBacklogOldest = my_stmt (\<lambda>e now new d.
     Inr (((case sort (map j_created_at (filter in_backlog (email_jobs d))) of [] \<Rightarrow> now | t # _ \<Rightarrow> t)
       + 500) div 1000 * 1000, d))"

text \<open>A row whose lease already ends at this instant is not counted as changed.\<close>

definition my_RenewEmail :: "instant \<Rightarrow> bytes \<Rightarrow> bytes option \<Rightarrow> nat op" where
  "my_RenewEmail lease_until ident lease_id = my_stmt (with_char ident (\<lambda>i. with_char_opt lease_id (\<lambda>lease e now new d.
     Inr (length (filter (\<lambda>j. renewable i lease now j \<and> j_lease_until j \<noteq> Some lease_until) (email_jobs d)),
         d\<lparr>email_jobs := update_where (renewable i lease now)
           (\<lambda>j. j\<lparr>j_lease_until := Some lease_until\<rparr>) (email_jobs d)\<rparr>))))"

subsection \<open>\<open>audit.sql.go\<close>, \<open>upload.sql.go\<close>\<close>

definition my_InsertAudit :: "bytes \<Rightarrow> bytes \<Rightarrow> bytes option \<Rightarrow> bytes option \<Rightarrow> bytes option \<Rightarrow>
    json option \<Rightarrow> json option \<Rightarrow> bytes option \<Rightarrow> bytes option \<Rightarrow> unit op" where
  "my_InsertAudit behavior module entity_id user_id actor_id_snapshot before after request_id endpoint_id =
    my_stmt (with_char_opt user_id (\<lambda>user e now new d.
      case my_varchar 64 behavior of Inl x \<Rightarrow> Inl x | Inr bh \<Rightarrow>
        (case my_varchar 64 module of Inl x \<Rightarrow> Inl x | Inr md \<Rightarrow>
          if new \<in> l_id ` set (activity_logs d) then Inl my_unique_violation
          else if dangling user (u_id ` set (users d)) then Inl my_foreign_key_violation
          else Inr ((), d\<lparr>activity_logs := activity_logs d @
            [\<lparr>l_id = new, l_behavior = bh, l_module = md, l_entity_id = entity_id,
              l_user_id = user, l_actor_id_snapshot = actor_id_snapshot, l_before = before,
              l_after = after, l_request_id = request_id, l_endpoint_id = endpoint_id,
              l_created_at = now\<rparr>]\<rparr>))))"

definition my_CreateFile ::
  "bytes \<Rightarrow> bytes \<Rightarrow> bytes \<Rightarrow> bytes \<Rightarrow> bytes \<Rightarrow> int \<Rightarrow> bytes option \<Rightarrow> unit op" where
  "my_CreateFile ident storage object_key original_name mime_type bytesize uploader_id =
    my_stmt (with_char ident (\<lambda>i. with_char_opt uploader_id (\<lambda>up e now new d.
      case my_varchar 255 object_key of Inl x \<Rightarrow> Inl x | Inr ok \<Rightarrow>
      (case my_varchar 255 original_name of Inl x \<Rightarrow> Inl x | Inr on \<Rightarrow>
      (case my_varchar 128 mime_type of Inl x \<Rightarrow> Inl x | Inr mt \<Rightarrow>
        if storage \<notin> {''local'', ''s3''} \<or> bytesize < 0 then Inl my_check_violation
        else if i \<in> f_id ` set (stored_files d) \<or> ok \<in> f_object_key ` set (stored_files d)
          then Inl my_unique_violation
        else if dangling up (u_id ` set (users d)) then Inl my_foreign_key_violation
        else Inr ((), d\<lparr>stored_files := stored_files d @
          [\<lparr>f_id = i, f_storage = storage, f_status = ''READY'', f_object_key = ok,
            f_original_name = on, f_mime_type = mt, f_size = bytesize,
            f_uploader_id = up, f_created_at = now\<rparr>]\<rparr>))))))"

definition my_FileReferenced :: "bytes \<Rightarrow> bytes \<Rightarrow> bool op" where
  "my_FileReferenced object_key storage = my_stmt (select_rows (\<lambda>d.
     list_ex (\<lambda>f. f_object_key f = object_key \<and> f_storage f = storage) (stored_files d)))"

definition my_FindFile :: "bytes \<Rightarrow> stored_file op" where
  "my_FindFile ident = my_stmt (with_char ident (\<lambda>i.
     select_row (\<lambda>d. select_one (\<lambda>f. f_id f = i \<and> f_status f = ''READY'') (stored_files d))))"

end
