(* ===== verification/MySqlAdapter.thy ===== *)
theory MySqlAdapter
  imports MySqlQueries Fault
begin

text \<open>
  \<open>internal/db/mysql_adapter.go\<close>: the MySQL statements behind the interface \<open>sqlc.Querier\<close>,
  which the services call.  An insertion draws its id and reads the row
  back, an update reads the row back, a Go \<open>bool\<close> becomes an integer; every other method hands its
  arguments on to the statement of \<open>MySqlQueries\<close>.  When the two engines
  cannot be told apart is the subject of \<open>MySqlAgreement\<close>.
\<close>

subsection \<open>The adapter\<close>

definition ad_CreateRole :: "bytes \<Rightarrow> role_row op" where
  "ad_CreateRole name = bindE NewString (\<lambda>i. bindE (my_CreateRole i name) (\<lambda>_. my_FindRole i))"

definition ad_CreatePermission :: "bytes \<Rightarrow> permission_row op" where
  "ad_CreatePermission name =
     bindE NewString (\<lambda>i. bindE (my_CreatePermission i name) (\<lambda>_. my_FindPermission i))"

definition ad_CreateUser :: "bytes \<Rightarrow> bytes \<Rightarrow> bytes \<Rightarrow> user_row op" where
  "ad_CreateUser email password role_id =
     bindE NewString (\<lambda>i. bindE (my_CreateUser i email password role_id) (\<lambda>_. my_FindUser i))"

definition ad_CreateFile :: "bytes \<Rightarrow> bytes \<Rightarrow> bytes \<Rightarrow> bytes \<Rightarrow> int \<Rightarrow> bytes option \<Rightarrow> stored_file op" where
  "ad_CreateFile storage object_key original_name mime_type bytesize uploader_id = bindE NewString (\<lambda>i.
     bindE (my_CreateFile i storage object_key original_name mime_type bytesize uploader_id) (\<lambda>_. my_FindFile i))"

definition ad_UpdateRole :: "bytes \<Rightarrow> bytes \<Rightarrow> role_row op" where
  "ad_UpdateRole ident name = bindE (my_UpdateRole ident name) (\<lambda>_. my_FindRole ident)"

definition ad_UpdatePermission :: "bytes \<Rightarrow> bytes \<Rightarrow> permission_row op" where
  "ad_UpdatePermission ident name = bindE (my_UpdatePermission ident name) (\<lambda>_. my_FindPermission ident)"

definition ad_UpdateUser :: "bytes \<Rightarrow> bytes option \<Rightarrow> bytes option \<Rightarrow> user_row op" where
  "ad_UpdateUser ident email role_id = bindE (my_UpdateUser ident email role_id) (\<lambda>_. my_FindUser ident)"

definition sort_key_of :: "bytes \<Rightarrow> int" where
  "sort_key_of sort_by = (if sort_by = ''email'' then 1 else if sort_by = ''updatedAt'' then 3 else 2)"

definition of_flag :: "bool \<Rightarrow> int" where
  "of_flag b = (if b then 1 else 0)"

definition ad_ListUsers :: "bytes \<Rightarrow> bytes \<Rightarrow> bytes \<Rightarrow> int \<Rightarrow> int \<Rightarrow> user_row list op" where
  "ad_ListUsers search sort_by direction page_offset page_limit =
     my_ListUsers search (sort_key_of sort_by) (of_flag (direction = ''desc'')) page_limit page_offset"

definition ad_ListOwnNotifications :: "bytes \<Rightarrow> bool \<Rightarrow> notification_row list op" where
  "ad_ListOwnNotifications recipient unread = my_ListOwnNotifications recipient (of_flag unread)"

definition ad_NotificationBacklog :: "bytes \<Rightarrow> bool \<Rightarrow> int \<Rightarrow> bool \<Rightarrow> notification_row list op" where
  "ad_NotificationBacklog recipient has_cursor sequence unread_only =
     my_NotificationBacklog recipient (of_flag has_cursor) sequence (of_flag unread_only)"

definition ad_NotificationPage :: "bytes \<Rightarrow> bool \<Rightarrow> int \<Rightarrow> notification_row list op" where
  "ad_NotificationPage recipient has_cursor sequence = my_NotificationPage recipient (of_flag has_cursor) sequence"

text \<open>The methods that hand their arguments on.\<close>

definition ad_CreateAuthRefreshToken :: "bytes \<Rightarrow> bytes \<Rightarrow> bytes \<Rightarrow> instant \<Rightarrow> unit op" where
  "ad_CreateAuthRefreshToken = my_CreateAuthRefreshToken"

definition ad_CreateRefreshFamily :: "bytes \<Rightarrow> bytes \<Rightarrow> instant \<Rightarrow> unit op" where
  "ad_CreateRefreshFamily = my_CreateRefreshFamily"

definition ad_DeleteExpiredAuthRefreshTokens :: "bytes \<Rightarrow> unit op" where
  "ad_DeleteExpiredAuthRefreshTokens = my_DeleteExpiredAuthRefreshTokens"

definition ad_FindActiveUserByEmail :: "bytes \<Rightarrow> user_row op" where
  "ad_FindActiveUserByEmail = my_FindActiveUserByEmail"

definition ad_FindActiveUserByID :: "bytes \<Rightarrow> user_row op" where
  "ad_FindActiveUserByID = my_FindActiveUserByID"

definition ad_FindAuthRefreshTokenByHash :: "bytes \<Rightarrow> refresh_token_row op" where
  "ad_FindAuthRefreshTokenByHash = my_FindAuthRefreshTokenByHash"

definition ad_LockRefreshFamily :: "bytes \<Rightarrow> refresh_family op" where
  "ad_LockRefreshFamily = my_LockRefreshFamily"

definition ad_LookupAuthRefreshToken :: "bytes \<Rightarrow> refresh_token_row op" where
  "ad_LookupAuthRefreshToken = my_LookupAuthRefreshToken"

definition ad_RevokeAuthRefreshFamily :: "bytes \<Rightarrow> unit op" where
  "ad_RevokeAuthRefreshFamily = my_RevokeAuthRefreshFamily"

definition ad_RevokeAuthRefreshToken :: "bytes \<Rightarrow> nat op" where
  "ad_RevokeAuthRefreshToken = my_RevokeAuthRefreshToken"

definition ad_RevokeRefreshFamilyRecord :: "bytes \<Rightarrow> unit op" where
  "ad_RevokeRefreshFamilyRecord = my_RevokeRefreshFamilyRecord"

definition ad_RevokeUserAuthRefreshTokens :: "bytes \<Rightarrow> unit op" where
  "ad_RevokeUserAuthRefreshTokens = my_RevokeUserAuthRefreshTokens"

definition ad_RevokeUserRefreshFamilies :: "bytes \<Rightarrow> unit op" where
  "ad_RevokeUserRefreshFamilies = my_RevokeUserRefreshFamilies"

definition ad_UserHasPermission :: "bytes \<Rightarrow> bytes \<Rightarrow> bool op" where
  "ad_UserHasPermission = my_UserHasPermission"

definition ad_AssignRolePermission :: "bytes \<Rightarrow> bytes \<Rightarrow> unit op" where
  "ad_AssignRolePermission = my_AssignRolePermission"

definition ad_ClearRolePermissions :: "bytes \<Rightarrow> unit op" where
  "ad_ClearRolePermissions = my_ClearRolePermissions"

definition ad_DeleteRole :: "bytes \<Rightarrow> unit op" where
  "ad_DeleteRole = my_DeleteRole"

definition ad_FindRole :: "bytes \<Rightarrow> role_row op" where
  "ad_FindRole = my_FindRole"

definition ad_FindRoleByName :: "bytes \<Rightarrow> role_row op" where
  "ad_FindRoleByName = my_FindRoleByName"

definition ad_ListRolePermissionIDs :: "bytes \<Rightarrow> bytes list op" where
  "ad_ListRolePermissionIDs = my_ListRolePermissionIDs"

definition ad_ListRolePermissions :: "bytes \<Rightarrow> (bytes \<times> bytes) list op" where
  "ad_ListRolePermissions = my_ListRolePermissions"

definition ad_ListRoles :: "role_row list op" where
  "ad_ListRoles = my_ListRoles"

definition ad_LockRole :: "bytes \<Rightarrow> role_row op" where
  "ad_LockRole = my_LockRole"

definition ad_CountActivePermissionHolders :: "bytes \<Rightarrow> nat op" where
  "ad_CountActivePermissionHolders = my_CountActivePermissionHolders"

definition ad_DeletePermission :: "bytes \<Rightarrow> unit op" where
  "ad_DeletePermission = my_DeletePermission"

definition ad_FindPermission :: "bytes \<Rightarrow> permission_row op" where
  "ad_FindPermission = my_FindPermission"

definition ad_ListPermissions :: "permission_row list op" where
  "ad_ListPermissions = my_ListPermissions"

definition ad_ListRoleIDsWithPermissionName :: "bytes \<Rightarrow> bytes list op" where
  "ad_ListRoleIDsWithPermissionName = my_ListRoleIDsWithPermissionName"

definition ad_LockPermission :: "bytes \<Rightarrow> permission_row op" where
  "ad_LockPermission = my_LockPermission"

definition ad_LockPermissionByName :: "bytes \<Rightarrow> bytes list op" where
  "ad_LockPermissionByName = my_LockPermissionByName"

definition ad_FindUser :: "bytes \<Rightarrow> user_row op" where
  "ad_FindUser = my_FindUser"

definition ad_LockUser :: "bytes \<Rightarrow> user_row op" where
  "ad_LockUser = my_LockUser"

definition ad_SoftDeleteUser :: "bytes \<Rightarrow> unit op" where
  "ad_SoftDeleteUser = my_SoftDeleteUser"

definition ad_CountUsers :: "bytes \<Rightarrow> nat op" where
  "ad_CountUsers = my_CountUsers"

definition ad_SeedRole :: "bytes \<Rightarrow> unit op" where
  "ad_SeedRole = my_SeedRole"

definition ad_SeedPermission :: "bytes \<Rightarrow> unit op" where
  "ad_SeedPermission = my_SeedPermission"

definition ad_SeedUser :: "bytes \<Rightarrow> bytes \<Rightarrow> bytes \<Rightarrow> unit op" where
  "ad_SeedUser = my_SeedUser"

definition ad_SeedAdminPermissions :: "unit op" where
  "ad_SeedAdminPermissions = my_SeedAdminPermissions"

definition ad_CreateNotification :: "bytes \<Rightarrow> bytes \<Rightarrow> bytes option \<Rightarrow> bytes \<Rightarrow> bytes \<Rightarrow> bytes \<Rightarrow> int \<Rightarrow> unit op" where
  "ad_CreateNotification = my_CreateNotification"

definition ad_EnsureNotificationCounter :: "bytes \<Rightarrow> unit op" where
  "ad_EnsureNotificationCounter = my_EnsureNotificationCounter"

definition ad_FindNotification :: "bytes \<Rightarrow> notification_row op" where
  "ad_FindNotification = my_FindNotification"

definition ad_IncrementNotificationCounter :: "bytes \<Rightarrow> unit op" where
  "ad_IncrementNotificationCounter = my_IncrementNotificationCounter"

definition ad_LockOwnNotification :: "bytes \<Rightarrow> bytes \<Rightarrow> notification_row op" where
  "ad_LockOwnNotification = my_LockOwnNotification"

definition ad_NotificationCursor :: "bytes \<Rightarrow> bytes \<Rightarrow> int op" where
  "ad_NotificationCursor = my_NotificationCursor"

definition ad_NotificationSequence :: "bytes \<Rightarrow> int op" where
  "ad_NotificationSequence = my_NotificationSequence"

definition ad_ReadNotification :: "bytes \<Rightarrow> unit op" where
  "ad_ReadNotification = my_ReadNotification"

definition ad_SetNotificationEmailStatus :: "bytes \<Rightarrow> bytes \<Rightarrow> unit op" where
  "ad_SetNotificationEmailStatus = my_SetNotificationEmailStatus"

definition ad_ClaimEmail :: "bytes \<Rightarrow> instant \<Rightarrow> bytes \<Rightarrow> unit op" where
  "ad_ClaimEmail = my_ClaimEmail"

definition ad_ClaimableEmail :: "instant \<Rightarrow> email_job op" where
  "ad_ClaimableEmail = my_ClaimableEmail"

definition ad_CleanupAudit :: "instant \<Rightarrow> nat \<Rightarrow> bytes list op" where
  "ad_CleanupAudit = my_CleanupAudit"

definition ad_CleanupEmail :: "instant \<Rightarrow> nat \<Rightarrow> bytes list op" where
  "ad_CleanupEmail = my_CleanupEmail"

definition ad_CleanupFamilies :: "instant \<Rightarrow> nat \<Rightarrow> bytes list op" where
  "ad_CleanupFamilies = my_CleanupFamilies"

definition ad_CompleteEmail :: "bytes \<Rightarrow> bytes \<Rightarrow> instant \<Rightarrow> instant option \<Rightarrow> unit op" where
  "ad_CompleteEmail = my_CompleteEmail"

definition ad_DeleteAudit :: "bytes \<Rightarrow> unit op" where
  "ad_DeleteAudit = my_DeleteAudit"

definition ad_DeleteEmail :: "bytes \<Rightarrow> unit op" where
  "ad_DeleteEmail = my_DeleteEmail"

definition ad_DeleteFamily :: "bytes \<Rightarrow> unit op" where
  "ad_DeleteFamily = my_DeleteFamily"

definition ad_EmailBacklogCount :: "nat op" where
  "ad_EmailBacklogCount = my_EmailBacklogCount"

definition ad_EnqueueEmail :: "bytes \<Rightarrow> bytes \<Rightarrow> bytes \<Rightarrow> bytes \<Rightarrow> bytes \<Rightarrow> unit op" where
  "ad_EnqueueEmail = my_EnqueueEmail"

definition ad_LockEmail :: "bytes \<Rightarrow> email_job op" where
  "ad_LockEmail = my_LockEmail"

definition ad_EmailBacklogOldest :: "instant op" where
  "ad_EmailBacklogOldest = my_EmailBacklogOldest"

definition ad_RenewEmail :: "instant \<Rightarrow> bytes \<Rightarrow> bytes option \<Rightarrow> nat op" where
  "ad_RenewEmail = my_RenewEmail"

definition ad_InsertAudit :: "bytes \<Rightarrow> bytes \<Rightarrow> bytes option \<Rightarrow> bytes option \<Rightarrow> bytes option \<Rightarrow> json option \<Rightarrow> json option \<Rightarrow> bytes option \<Rightarrow> bytes option \<Rightarrow> unit op" where
  "ad_InsertAudit = my_InsertAudit"

definition ad_FileReferenced :: "bytes \<Rightarrow> bytes \<Rightarrow> bool op" where
  "ad_FileReferenced = my_FileReferenced"

definition ad_FindFile :: "bytes \<Rightarrow> stored_file op" where
  "ad_FindFile = my_FindFile"

lemmas adapter_passes =
  ad_CreateAuthRefreshToken_def ad_CreateRefreshFamily_def ad_DeleteExpiredAuthRefreshTokens_def ad_FindActiveUserByEmail_def
  ad_FindActiveUserByID_def ad_FindAuthRefreshTokenByHash_def ad_LockRefreshFamily_def ad_LookupAuthRefreshToken_def
  ad_RevokeAuthRefreshFamily_def ad_RevokeAuthRefreshToken_def ad_RevokeRefreshFamilyRecord_def ad_RevokeUserAuthRefreshTokens_def
  ad_RevokeUserRefreshFamilies_def ad_UserHasPermission_def ad_AssignRolePermission_def ad_ClearRolePermissions_def
  ad_DeleteRole_def ad_FindRole_def ad_FindRoleByName_def ad_ListRolePermissionIDs_def
  ad_ListRolePermissions_def ad_ListRoles_def ad_LockRole_def ad_CountActivePermissionHolders_def
  ad_DeletePermission_def ad_FindPermission_def ad_ListPermissions_def ad_ListRoleIDsWithPermissionName_def
  ad_LockPermission_def ad_LockPermissionByName_def ad_FindUser_def ad_LockUser_def
  ad_SoftDeleteUser_def ad_CountUsers_def ad_SeedRole_def ad_SeedPermission_def
  ad_SeedUser_def ad_SeedAdminPermissions_def ad_CreateNotification_def ad_EnsureNotificationCounter_def
  ad_FindNotification_def ad_IncrementNotificationCounter_def ad_LockOwnNotification_def ad_NotificationCursor_def
  ad_NotificationSequence_def ad_ReadNotification_def ad_SetNotificationEmailStatus_def ad_ClaimEmail_def
  ad_ClaimableEmail_def ad_CleanupAudit_def ad_CleanupEmail_def ad_CleanupFamilies_def
  ad_CompleteEmail_def ad_DeleteAudit_def ad_DeleteEmail_def ad_DeleteFamily_def
  ad_EmailBacklogCount_def ad_EnqueueEmail_def ad_LockEmail_def ad_EmailBacklogOldest_def
  ad_RenewEmail_def ad_InsertAudit_def ad_FileReferenced_def ad_FindFile_def

end
