(* ===== verification/MySqlAgreement.thy ===== *)
theory MySqlAgreement
  imports MySqlAdapter Sample
begin

text \<open>
  When the services cannot tell the two engines apart: for a database clock that stands still
  during the transaction, no failing connection, ids in canonical text and values that fit the
  columns, a method of the MySQL adapter answers as the PostgreSQL statement does, with the same
  rows, the same tables after it, and errors that \<open>fault.DB\<close> shows to the client alike.
\<close>

subsection \<open>The same answer from both engines\<close>

text \<open>
  The same result and the same tables, or errors that mean the same: what \<open>fault.DB\<close> makes of
  them, and whether they say that there is no row.
\<close>

definition same_error :: "goerr \<Rightarrow> goerr \<Rightarrow> bool" where
  "same_error x y \<longleftrightarrow> as_fault (DB x) = as_fault (DB y) \<and> Is x NoRows = Is y NoRows"

fun same_answer :: "(goerr + 'a) \<times> world \<Rightarrow> (goerr + 'a) \<times> world \<Rightarrow> bool" where
  "same_answer (Inr a, w) (Inr b, v) \<longleftrightarrow> a = b \<and> db w = db v"
| "same_answer (Inl x, w) (Inl y, v) \<longleftrightarrow> same_error x y \<and> db w = db v"
| "same_answer _ _ \<longleftrightarrow> False"

definition steady :: "env \<Rightarrow> instant \<Rightarrow> bool" where
  "steady e t \<longleftrightarrow> (\<forall>n. fault_at e n = None) \<and> (\<forall>n. db_now e n = t) \<and> (\<forall>s. uuid_in e s = Some s)"

definition agrees_on :: "(database \<Rightarrow> bool) \<Rightarrow> env \<Rightarrow> instant \<Rightarrow> 'a op \<Rightarrow> 'a op \<Rightarrow> bool" where
  "agrees_on P e t m m' \<longleftrightarrow> (\<forall>w. txnow w = t \<longrightarrow> P (db w) \<longrightarrow> same_answer (m e w) (m' e w))"

abbreviation agrees :: "env \<Rightarrow> instant \<Rightarrow> 'a op \<Rightarrow> 'a op \<Rightarrow> bool" where
  "agrees \<equiv> agrees_on (\<lambda>_. True)"

fun same_outcome :: "goerr + ('a \<times> database) \<Rightarrow> goerr + ('a \<times> database) \<Rightarrow> bool" where
  "same_outcome (Inr r) (Inr s) \<longleftrightarrow> r = s"
| "same_outcome (Inl x) (Inl y) \<longleftrightarrow> same_error x y"
| "same_outcome _ _ \<longleftrightarrow> False"

lemma agree_stmt:
  assumes "steady e t" and "\<And>n d. P d \<Longrightarrow> same_outcome (f e t (gen_uuid e n) d) (g e t (gen_uuid e n) d)"
  shows "agrees_on P e t (my_stmt f) (stmt g)"
  unfolding agrees_on_def
proof (intro allI impI)
  fix w :: world
  assume now: "txnow w = t" and "P (db w)"
  then have "same_outcome (f e t (gen_uuid e (tick w)) (db w)) (g e t (gen_uuid e (tick w)) (db w))"
    by (intro assms(2))
  then show "same_answer (my_stmt f e w) (stmt g e w)"
    using assms(1) now by (auto simp: my_stmt_def stmt_def steady_def split: sum.splits prod.splits)
qed

lemma same_error_refl [simp]: "same_error x x"
  by (simp add: same_error_def)

lemma same_errors [simp]:
  "same_error my_unique_violation unique_violation" "same_error my_foreign_key_violation foreign_key_violation"
  "same_error my_restrict_violation restrict_violation" "same_error my_check_violation check_violation"
  "same_error my_too_long string_too_long" "same_error my_out_of_range out_of_range"
  "same_error my_bigint_overflow out_of_range" "same_error my_wrong_arguments (PgError ''2201W'')"
  "same_error my_wrong_arguments (PgError ''2201X'')"
  by (simp_all add: same_error_def my_errors engine_errors DB_def)

lemma with_uuid_steady: "steady e t \<Longrightarrow> with_uuid s f e t new d = f s e t new d"
  by (simp add: steady_def with_uuid_def)

lemma with_uuid_opt_steady: "steady e t \<Longrightarrow> with_uuid_opt p f e t new d = f p e t new d"
  by (cases p) (simp_all add: with_uuid_opt_def with_uuid_steady)

lemma same_outcome_refl [simp]: "same_outcome x x"
  by (cases x) simp_all

lemma same_outcome_If [simp]:
  "same_outcome (if b then x else y) (if b then x' else y') \<longleftrightarrow> (if b then same_outcome x x' else same_outcome y y')"
  by simp

lemma same_outcome_varchar:
  "(\<And>v. same_outcome (f v) (g v)) \<Longrightarrow> same_outcome (case my_varchar n s of Inl x \<Rightarrow> Inl x | Inr v \<Rightarrow> f v)
     (case varchar n s of Inl x \<Rightarrow> Inl x | Inr v \<Rightarrow> g v)"
  by (simp add: my_varchar_def varchar_def Let_def)

lemmas steady_simps = with_uuid_steady with_uuid_opt_steady with_char_def with_char_opt_def

lemma sessions_agree:
  assumes "steady e t"
  shows
    "agrees e t (ad_CreateRefreshFamily i u x) (CreateRefreshFamily i u x)"
    "agrees e t (ad_DeleteExpiredAuthRefreshTokens u) (DeleteExpiredAuthRefreshTokens u)"
    "agrees e t (ad_FindActiveUserByEmail m) (FindActiveUserByEmail m)"
    "agrees e t (ad_FindActiveUserByID i) (FindActiveUserByID i)"
    "agrees e t (ad_FindAuthRefreshTokenByHash h) (FindAuthRefreshTokenByHash h)"
    "agrees e t (ad_LockRefreshFamily i) (LockRefreshFamily i)"
    "agrees e t (ad_LookupAuthRefreshToken h) (LookupAuthRefreshToken h)"
    "agrees e t (ad_RevokeAuthRefreshFamily i) (RevokeAuthRefreshFamily i)"
    "agrees e t (ad_RevokeAuthRefreshToken i) (RevokeAuthRefreshToken i)"
    "agrees e t (ad_RevokeRefreshFamilyRecord i) (RevokeRefreshFamilyRecord i)"
    "agrees e t (ad_RevokeUserAuthRefreshTokens u) (RevokeUserAuthRefreshTokens u)"
    "agrees e t (ad_RevokeUserRefreshFamilies u) (RevokeUserRefreshFamilies u)"
    "agrees e t (ad_UserHasPermission u n) (UserHasPermission u n)"
  unfolding ad_CreateRefreshFamily_def my_CreateRefreshFamily_def CreateRefreshFamily_def
    ad_DeleteExpiredAuthRefreshTokens_def my_DeleteExpiredAuthRefreshTokens_def
    DeleteExpiredAuthRefreshTokens_def ad_FindActiveUserByEmail_def my_FindActiveUserByEmail_def
    FindActiveUserByEmail_def ad_FindActiveUserByID_def my_FindActiveUserByID_def FindActiveUserByID_def
    ad_FindAuthRefreshTokenByHash_def my_FindAuthRefreshTokenByHash_def FindAuthRefreshTokenByHash_def
    ad_LockRefreshFamily_def my_LockRefreshFamily_def LockRefreshFamily_def ad_LookupAuthRefreshToken_def
    my_LookupAuthRefreshToken_def LookupAuthRefreshToken_def ad_RevokeAuthRefreshFamily_def
    my_RevokeAuthRefreshFamily_def RevokeAuthRefreshFamily_def ad_RevokeAuthRefreshToken_def
    my_RevokeAuthRefreshToken_def RevokeAuthRefreshToken_def ad_RevokeRefreshFamilyRecord_def
    my_RevokeRefreshFamilyRecord_def RevokeRefreshFamilyRecord_def ad_RevokeUserAuthRefreshTokens_def
    my_RevokeUserAuthRefreshTokens_def RevokeUserAuthRefreshTokens_def ad_RevokeUserRefreshFamilies_def
    my_RevokeUserRefreshFamilies_def RevokeUserRefreshFamilies_def ad_UserHasPermission_def
    my_UserHasPermission_def UserHasPermission_def
  by (rule agree_stmt [OF assms], simp add: steady_simps assms Let_def)+

lemma rbac_agree:
  assumes "steady e t"
  shows
    "agrees e t (ad_AssignRolePermission r p) (AssignRolePermission r p)"
    "agrees e t (ad_ClearRolePermissions r) (ClearRolePermissions r)"
    "agrees e t (ad_DeleteRole r) (DeleteRole r)"
    "agrees e t (ad_FindRole r) (FindRole r)"
    "agrees e t (ad_FindRoleByName n) (FindRoleByName n)"
    "agrees e t (ad_ListRolePermissionIDs r) (ListRolePermissionIDs r)"
    "agrees e t (ad_ListRolePermissions r) (ListRolePermissions r)"
    "agrees e t (ad_ListRoles) (ListRoles)"
    "agrees e t (ad_LockRole r) (LockRole r)"
    "agrees e t (ad_CountActivePermissionHolders n) (CountActivePermissionHolders n)"
    "agrees e t (ad_DeletePermission p) (DeletePermission p)"
    "agrees e t (ad_FindPermission p) (FindPermission p)"
    "agrees e t (ad_ListPermissions) (ListPermissions)"
    "agrees e t (ad_ListRoleIDsWithPermissionName n) (ListRoleIDsWithPermissionName n)"
    "agrees e t (ad_LockPermission p) (LockPermission p)"
    "agrees e t (ad_LockPermissionByName n) (LockPermissionByName n)"
    "agrees e t (ad_FindUser u) (FindUser u)"
    "agrees e t (ad_LockUser u) (LockUser u)"
    "agrees e t (ad_SoftDeleteUser u) (SoftDeleteUser u)"
    "agrees e t (ad_CountUsers s) (CountUsers s)"
    "agrees e t (ad_SeedAdminPermissions) (SeedAdminPermissions)"
  unfolding ad_AssignRolePermission_def my_AssignRolePermission_def AssignRolePermission_def
    ad_ClearRolePermissions_def my_ClearRolePermissions_def ClearRolePermissions_def ad_DeleteRole_def
    my_DeleteRole_def DeleteRole_def ad_FindRole_def my_FindRole_def FindRole_def ad_FindRoleByName_def
    my_FindRoleByName_def FindRoleByName_def ad_ListRolePermissionIDs_def my_ListRolePermissionIDs_def
    ListRolePermissionIDs_def ad_ListRolePermissions_def my_ListRolePermissions_def ListRolePermissions_def
    ad_ListRoles_def my_ListRoles_def ListRoles_def ad_LockRole_def my_LockRole_def LockRole_def
    ad_CountActivePermissionHolders_def my_CountActivePermissionHolders_def CountActivePermissionHolders_def
    ad_DeletePermission_def my_DeletePermission_def DeletePermission_def ad_FindPermission_def
    my_FindPermission_def FindPermission_def ad_ListPermissions_def my_ListPermissions_def ListPermissions_def
    ad_ListRoleIDsWithPermissionName_def my_ListRoleIDsWithPermissionName_def ListRoleIDsWithPermissionName_def
    ad_LockPermission_def my_LockPermission_def LockPermission_def ad_LockPermissionByName_def
    my_LockPermissionByName_def LockPermissionByName_def ad_FindUser_def my_FindUser_def FindUser_def
    ad_LockUser_def my_LockUser_def LockUser_def ad_SoftDeleteUser_def my_SoftDeleteUser_def SoftDeleteUser_def
    ad_CountUsers_def my_CountUsers_def CountUsers_def ad_SeedAdminPermissions_def my_SeedAdminPermissions_def
    SeedAdminPermissions_def
  by (rule agree_stmt [OF assms], simp add: steady_simps assms Let_def)+

lemma notifications_agree:
  assumes "steady e t"
  shows
    "agrees e t (ad_CreateNotification i r a ti b s q) (CreateNotification i r a ti b s q)"
    "agrees e t (ad_EnsureNotificationCounter r) (EnsureNotificationCounter r)"
    "agrees e t (ad_FindNotification i) (FindNotification i)"
    "agrees e t (ad_IncrementNotificationCounter r) (IncrementNotificationCounter r)"
    "agrees e t (ad_LockOwnNotification i r) (LockOwnNotification i r)"
    "agrees e t (ad_NotificationCursor i r) (NotificationCursor i r)"
    "agrees e t (ad_NotificationSequence r) (NotificationSequence r)"
    "agrees e t (ad_ReadNotification i) (ReadNotification i)"
    "agrees e t (ad_SetNotificationEmailStatus i s) (SetNotificationEmailStatus i s)"
    "agrees e t (ad_ListOwnNotifications r un) (ListOwnNotifications r un)"
    "agrees e t (ad_NotificationBacklog r hc q un) (NotificationBacklog r hc q un)"
    "agrees e t (ad_NotificationPage r hc q) (NotificationPage r hc q)"
  unfolding ad_CreateNotification_def my_CreateNotification_def CreateNotification_def
    ad_EnsureNotificationCounter_def my_EnsureNotificationCounter_def EnsureNotificationCounter_def
    ad_FindNotification_def my_FindNotification_def FindNotification_def ad_IncrementNotificationCounter_def
    my_IncrementNotificationCounter_def IncrementNotificationCounter_def ad_LockOwnNotification_def
    my_LockOwnNotification_def LockOwnNotification_def ad_NotificationCursor_def my_NotificationCursor_def
    NotificationCursor_def ad_NotificationSequence_def my_NotificationSequence_def NotificationSequence_def
    ad_ReadNotification_def my_ReadNotification_def ReadNotification_def ad_SetNotificationEmailStatus_def
    my_SetNotificationEmailStatus_def SetNotificationEmailStatus_def ad_ListOwnNotifications_def
    my_ListOwnNotifications_def ListOwnNotifications_def ad_NotificationBacklog_def my_NotificationBacklog_def
    NotificationBacklog_def ad_NotificationPage_def my_NotificationPage_def NotificationPage_def
  by (rule agree_stmt [OF assms], simp add: steady_simps assms my_varchar_def varchar_def Let_def of_flag_def page_rows_def backlog_rows_def)+

lemma jobs_agree:
  assumes "steady e t"
  shows
    "agrees e t (ad_ClaimEmail l x i) (ClaimEmail l x i)"
    "agrees e t (ad_ClaimableEmail x) (ClaimableEmail x)"
    "agrees e t (ad_CleanupAudit x k) (CleanupAudit x k)"
    "agrees e t (ad_CleanupEmail x k) (CleanupEmail x k)"
    "agrees e t (ad_CleanupFamilies x k) (CleanupFamilies x k)"
    "agrees e t (ad_CompleteEmail i s x y) (CompleteEmail i s x y)"
    "agrees e t (ad_DeleteAudit i) (DeleteAudit i)"
    "agrees e t (ad_DeleteEmail i) (DeleteEmail i)"
    "agrees e t (ad_DeleteFamily i) (DeleteFamily i)"
    "agrees e t (ad_EmailBacklogCount) (EmailBacklogCount)"
    "agrees e t (ad_EnqueueEmail i n r ti b) (EnqueueEmail i n r ti b)"
    "agrees e t (ad_LockEmail i) (LockEmail i)"
    "agrees e t (ad_FileReferenced f s) (FileReferenced f s)"
    "agrees e t (ad_FindFile i) (FindFile i)"
  unfolding ad_ClaimEmail_def my_ClaimEmail_def ClaimEmail_def ad_ClaimableEmail_def my_ClaimableEmail_def
    ClaimableEmail_def ad_CleanupAudit_def my_CleanupAudit_def CleanupAudit_def ad_CleanupEmail_def
    my_CleanupEmail_def CleanupEmail_def ad_CleanupFamilies_def my_CleanupFamilies_def CleanupFamilies_def
    ad_CompleteEmail_def my_CompleteEmail_def CompleteEmail_def ad_DeleteAudit_def my_DeleteAudit_def
    DeleteAudit_def ad_DeleteEmail_def my_DeleteEmail_def DeleteEmail_def ad_DeleteFamily_def
    my_DeleteFamily_def DeleteFamily_def ad_EmailBacklogCount_def my_EmailBacklogCount_def
    EmailBacklogCount_def ad_EnqueueEmail_def my_EnqueueEmail_def EnqueueEmail_def ad_LockEmail_def
    my_LockEmail_def LockEmail_def ad_FileReferenced_def my_FileReferenced_def FileReferenced_def
    ad_FindFile_def my_FindFile_def FindFile_def
  by (rule agree_stmt [OF assms], simp add: steady_simps assms my_varchar_def varchar_def Let_def)+

subsection \<open>Insertions and updates that read the row back\<close>

text \<open>A row is written under the id drawn for it and read back: what \<open>RETURNING\<close> gives.\<close>

lemma agree_write:
  assumes "steady e t"
    and outcome: "\<And>n m k d. P d \<Longrightarrow> same_outcome
      (case f e t (gen_uuid e n) d of Inl x \<Rightarrow> Inl x | Inr (u, d') \<Rightarrow> g e t (gen_uuid e m) d')
      (h e t (gen_uuid e k) d)"
    and unchanged: "\<And>n m d d' x u. P d \<Longrightarrow> f e t (gen_uuid e n) d = Inr (u, d') \<Longrightarrow>
      g e t (gen_uuid e m) d' = Inl x \<Longrightarrow> d' = d"
  shows "agrees_on P e t (bindE (my_stmt f) (\<lambda>_. my_stmt g)) (stmt h)"
  unfolding agrees_on_def
proof (intro allI impI)
  fix w :: world
  assume now: "txnow w = t" and P: "P (db w)"
  note o = outcome [OF P, where n = "tick w" and m = "Suc (tick w)" and k = "tick w"] 
    and c = unchanged [OF P, where n = "tick w" and m = "Suc (tick w)"]
  show "same_answer (bindE (my_stmt f) (\<lambda>_. my_stmt g) e w) (stmt h e w)"
    using o c assms(1) now
    by (auto simp: my_stmt_def stmt_def steady_def bindE_def split: sum.splits prod.splits)
qed

lemma agree_insert:
  assumes "steady e t"
    and outcome: "\<And>n m k d. P d \<Longrightarrow> same_outcome
      (case f (gen_uuid e n) e t (gen_uuid e m) d of Inl x \<Rightarrow> Inl x | Inr (u, d') \<Rightarrow>
         g (gen_uuid e n) e t (gen_uuid e k) d')
      (h e t (gen_uuid e n) d)"
    and unchanged: "\<And>n m k d d' x u. P d \<Longrightarrow> f (gen_uuid e n) e t (gen_uuid e m) d = Inr (u, d') \<Longrightarrow>
      g (gen_uuid e n) e t (gen_uuid e k) d' = Inl x \<Longrightarrow> d' = d"
  shows "agrees_on P e t (bindE NewString (\<lambda>i. bindE (my_stmt (f i)) (\<lambda>_. my_stmt (g i)))) (stmt h)"
  unfolding agrees_on_def
proof (intro allI impI)
  fix w :: world
  assume now: "txnow w = t" and P: "P (db w)"
  note o = outcome [OF P, where n = "tick w" and m = "Suc (tick w)" and k = "Suc (Suc (tick w))"]
    and c = unchanged [OF P, where n = "tick w" and m = "Suc (tick w)" and k = "Suc (Suc (tick w))"]
  show "same_answer (bindE NewString (\<lambda>i. bindE (my_stmt (f i)) (\<lambda>_. my_stmt (g i))) e w) (stmt h e w)"
    using o c assms(1) now
    by (auto simp: my_stmt_def stmt_def steady_def bindE_def NewString_def split: sum.splits prod.splits)
qed

lemma select_one_snoc:
  "select_one P (rs @ [r]) = (case select_one P rs of None \<Rightarrow> if P r then Some r else None | Some s \<Rightarrow> Some s)"
  by (induction rs) (auto simp: select_one_def)

lemma select_one_new: "x \<notin> k ` set rs \<Longrightarrow> k r = x \<Longrightarrow> R r \<Longrightarrow>
    select_one (\<lambda>r. k r = x \<and> R r) (rs @ [r]) = Some r"
  by (auto simp: select_one_snoc select_one_None image_iff split: option.split dest!: select_one_Some)

lemma my_varchar_fits: "length (runes s) \<le> n \<Longrightarrow> my_varchar n s = Inr s"
  by (simp add: my_varchar_def)

lemma CreateRole_agrees:
  assumes "steady e t" "length (runes n) \<le> 64"
  shows "agrees e t (ad_CreateRole n) (CreateRole n)"
  unfolding ad_CreateRole_def my_CreateRole_def my_FindRole_def CreateRole_def
  by (rule agree_insert [OF assms(1)])
     (auto simp: steady_simps assms my_varchar_fits Let_def select_row_def
        select_one_new [where R = "\<lambda>_. True", simplified] split: if_splits option.splits)

lemma CreatePermission_agrees:
  assumes "steady e t" "length (runes n) \<le> 128"
  shows "agrees e t (ad_CreatePermission n) (CreatePermission n)"
  unfolding ad_CreatePermission_def my_CreatePermission_def my_FindPermission_def CreatePermission_def
  by (rule agree_insert [OF assms(1)])
     (auto simp: steady_simps assms my_varchar_fits Let_def select_row_def
        select_one_new [where R = "\<lambda>_. True", simplified] split: if_splits option.splits)

lemma CreateUser_agrees:
  assumes "steady e t" "length (runes (ToLower m)) \<le> 255" "length (runes p) \<le> 255"
  shows "agrees e t (ad_CreateUser m p r) (CreateUser m p r)"
  unfolding ad_CreateUser_def my_CreateUser_def my_FindUser_def CreateUser_def
  by (rule agree_insert [OF assms(1)])
     (auto simp: steady_simps assms my_varchar_fits Let_def select_row_def select_one_new
        split: if_splits option.splits)

lemma CreateFile_agrees:
  assumes "steady e t" "length (runes k) \<le> 255" "length (runes n) \<le> 255" "length (runes m) \<le> 128"
  shows "agrees e t (ad_CreateFile s k n m z u) (CreateFile s k n m z u)"
  unfolding ad_CreateFile_def my_CreateFile_def my_FindFile_def CreateFile_def
  by (rule agree_insert [OF assms(1)])
     (auto simp: steady_simps assms my_varchar_fits Let_def select_row_def select_one_new dangling_def
        split: if_splits option.splits)

lemma select_one_update:
  "(\<And>r. k (f r) = k r) \<Longrightarrow> select_one (\<lambda>r. k r = x) (update_where (\<lambda>r. k r = x) f rs)
     = map_option f (select_one (\<lambda>r. k r = x) rs)"
  by (induction rs) (auto simp: select_one_def)

lemma select_one_absent: "select_one (\<lambda>r. k r = x) rs = None \<longleftrightarrow> x \<notin> k ` set rs"
  by (auto simp: select_one_None)

lemma UpdateRole_agrees:
  assumes "steady e t" "length (runes n) \<le> 64"
  shows "agrees e t (ad_UpdateRole i n) (UpdateRole i n)"
  unfolding ad_UpdateRole_def my_UpdateRole_def my_FindRole_def UpdateRole_def
  by (rule agree_write [OF assms(1)])
     (auto simp: steady_simps assms my_varchar_fits Let_def select_row_def select_one_update
        select_one_absent [symmetric] split: if_splits option.splits)

lemma UpdatePermission_agrees:
  assumes "steady e t" "length (runes n) \<le> 128"
  shows "agrees e t (ad_UpdatePermission i n) (UpdatePermission i n)"
  unfolding ad_UpdatePermission_def my_UpdatePermission_def my_FindPermission_def UpdatePermission_def
  by (rule agree_write [OF assms(1)])
     (auto simp: steady_simps assms my_varchar_fits Let_def select_row_def select_one_update
        select_one_absent [symmetric] split: if_splits option.splits)

lemma ListUsers_agrees:
  assumes "steady e t" "k \<in> {''email'', ''createdAt'', ''updatedAt''}" "o' \<in> {''asc'', ''desc''}"
  shows "agrees e t (ad_ListUsers s k o' n z) (ListUsers s k o' n z)"
  unfolding ad_ListUsers_def my_ListUsers_def ListUsers_def
  using assms(2,3) by (intro agree_stmt [OF assms(1)])
    (auto simp: my_order_users_def order_users_def sort_key_of_def of_flag_def)

lemma CreateAuthRefreshToken_agrees:
  assumes "steady e t" "length h = 32"
  shows "agrees e t (ad_CreateAuthRefreshToken f u h x) (CreateAuthRefreshToken f u h x)"
  unfolding ad_CreateAuthRefreshToken_def my_CreateAuthRefreshToken_def CreateAuthRefreshToken_def
  by (rule agree_stmt [OF assms(1)]) (simp add: steady_simps assms my_binary_def)

lemma InsertAudit_agrees:
  assumes "steady e t" "length (runes b) \<le> 64" "length (runes m) \<le> 64"
  shows "agrees e t (ad_InsertAudit b m i u a x y q p) (InsertAudit b m i u a x y q p)"
  unfolding ad_InsertAudit_def my_InsertAudit_def InsertAudit_def
  by (rule agree_stmt [OF assms(1)]) (simp add: steady_simps assms my_varchar_fits Let_def)

text \<open>A lease is renewed to a later time than it had: MySQL counts the row as changed.\<close>

lemma RenewEmail_agrees:
  assumes "steady e t"
  shows "agrees_on (\<lambda>d. Some x \<notin> j_lease_until ` set (email_jobs d)) e t (ad_RenewEmail x i l) (RenewEmail x i l)"
  unfolding ad_RenewEmail_def my_RenewEmail_def RenewEmail_def
proof (rule agree_stmt [OF assms], simp add: steady_simps assms)
  fix d :: database
  assume "Some x \<notin> j_lease_until ` set (email_jobs d)"
  then show "length (filter (\<lambda>j. renewable i l t j \<and> j_lease_until j \<noteq> Some x) (email_jobs d)) =
      length (filter (renewable i l t) (email_jobs d))"
    by (intro arg_cong [where f = length] filter_cong) (auto simp: image_iff)
qed

text \<open>A stored address fits its column, and only an active user is updated.\<close>

definition user_fits :: "bytes \<Rightarrow> database \<Rightarrow> bool" where
  "user_fits i d \<longleftrightarrow> wf_db d \<and> list_all (\<lambda>u. length (runes (u_email u)) \<le> 255 \<and>
     (u_id u = i \<longrightarrow> u_deleted_at u = None)) (users d)"

lemma update_where_cong: "(\<And>r. r \<in> set rs \<Longrightarrow> P r \<Longrightarrow> f r = g r) \<Longrightarrow> update_where P f rs = update_where P g rs"
  by (induction rs) auto

lemma select_one_also: "(\<And>r. r \<in> set rs \<Longrightarrow> P r \<Longrightarrow> R r) \<Longrightarrow> select_one (\<lambda>r. P r \<and> R r) rs = select_one P rs"
  by (induction rs) (auto simp: select_one_def)

lemma UpdateUser_agrees:
  assumes e: "steady e t" and m: "case m of None \<Rightarrow> True | Some s \<Rightarrow> length (runes (ToLower s)) \<le> 255"
  shows "agrees_on (user_fits i) e t (ad_UpdateUser i m r) (UpdateUser i m r)"
proof -
  have same: "my_varchar 255 (u_email (set_user m r t u)) = Inr (u_email (set_user m r t u))"
      "update_where (\<lambda>x. u_id x = i) (\<lambda>x. (set_user m r t x)\<lparr>u_email := u_email (set_user m r t u)\<rparr>) (users d)
         = update_where (\<lambda>x. u_id x = i) (set_user m r t) (users d)"
      "select_one (\<lambda>x. u_id x = i \<and> u_deleted_at x = None)
         (update_where (\<lambda>x. u_id x = i) (set_user m r t) (users d)) = Some (set_user m r t u)"
    if "user_fits i d" and u: "select_one (\<lambda>u. u_id u = i) (users d) = Some u" for d u
  proof -
    from \<open>user_fits i d\<close> have fits: "length (runes (u_email x)) \<le> 255" "u_id x = i \<Longrightarrow> u_deleted_at x = None"
      and ids: "distinct (map u_id (users d))" if "x \<in> set (users d)" for x
      using that by (auto simp: user_fits_def list_all_iff wf_db_def wf_users_def)
    from select_one_Some [OF u] have uin: "u \<in> set (users d)" "u_id u = i" by auto
    show "my_varchar 255 (u_email (set_user m r t u)) = Inr (u_email (set_user m r t u))"
      using fits(1) [OF uin(1)] m by (intro my_varchar_fits) (simp add: set_user_def split: option.splits)
    have "x = u" if "x \<in> set (users d)" "u_id x = i" for x
      using key_inj [OF ids [OF uin(1)] that(1) uin(1)] that(2) uin(2) by simp
    then show "update_where (\<lambda>x. u_id x = i) (\<lambda>x. (set_user m r t x)\<lparr>u_email := u_email (set_user m r t u)\<rparr>) (users d)
         = update_where (\<lambda>x. u_id x = i) (set_user m r t) (users d)"
      by (intro update_where_cong) simp
    have "select_one (\<lambda>x. u_id x = i \<and> u_deleted_at x = None)
        (update_where (\<lambda>x. u_id x = i) (set_user m r t) (users d))
      = select_one (\<lambda>x. u_id x = i) (update_where (\<lambda>x. u_id x = i) (set_user m r t) (users d))"
    proof (rule select_one_also)
      fix x assume "x \<in> set (update_where (\<lambda>x. u_id x = i) (set_user m r t) (users d))" and i: "u_id x = i"
      then obtain y where y: "y \<in> set (users d)" "x = (if u_id y = i then set_user m r t y else y)"
        unfolding set_update_where by blast
      with i have "u_id y = i" by (simp split: if_splits)
      with y fits(2) [of y] show "u_deleted_at x = None" by (simp add: set_user_def)
    qed
    also have "\<dots> = Some (set_user m r t u)"
      by (subst select_one_update) (simp_all add: set_user_def u)
    finally show "select_one (\<lambda>x. u_id x = i \<and> u_deleted_at x = None)
         (update_where (\<lambda>x. u_id x = i) (set_user m r t) (users d)) = Some (set_user m r t u)" .
  qed
  have uuid: "uuid_in e s = Some s" for s using e by (simp add: steady_def)
  show ?thesis
    unfolding ad_UpdateUser_def my_UpdateUser_def my_FindUser_def UpdateUser_def
  proof (rule agree_write [OF e], goal_cases)
    case (1 n n' n'' d)
    show ?case
    proof (cases "select_one (\<lambda>u. u_id u = i) (users d)")
      case None
      then have "select_one (\<lambda>u. u_id u = i \<and> u_deleted_at u = None) (users d) = None"
        by (simp add: select_one_None)
      with None show ?thesis by (cases r) (simp_all add: steady_simps e uuid select_row_def)
    next
      case (Some u)
      show ?thesis using same [OF 1 Some]
        by (cases r) (simp_all add: steady_simps e uuid Let_def select_row_def Some)
    qed
  next
    case (2 n n' d d' x v)
    show ?case
    proof (cases "select_one (\<lambda>u. u_id u = i) (users d)")
      case None
      with 2(2) show ?thesis by (cases r) (simp_all add: steady_simps)
    next
      case (Some u)
      with 2(2,3) same [OF 2(1) Some] show ?thesis
        by (cases r) (auto simp: steady_simps Let_def select_row_def split: if_splits)
    qed
  qed
qed

subsection \<open>Properties\<close>


definition still_env :: env where
  "still_env = sample_env\<lparr>db_now := \<lambda>_. 1000\<rparr>"




end
