(* ===== verification/Strconv.thy ===== *)
theory Strconv
  imports Fault
begin

text \<open>
  The functions of \<open>strconv\<close> that the configuration and the Redis keys need: \<open>Itoa\<close> of any
  integer, \<open>Atoi\<close> with its range check, \<open>ParseBool\<close> and \<open>FormatBool\<close>.  What is parsed is what
  was formatted, and a formatted number is made of digits and a sign.
\<close>

definition digit :: "char \<Rightarrow> bool" where
  "digit c \<longleftrightarrow> 48 \<le> byte c \<and> byte c \<le> 57"

definition digits_value :: "bytes \<Rightarrow> nat" where
  "digits_value = foldl (\<lambda>a c. 10 * a + (byte c - 48)) 0"

text \<open>\<open>strconv.Itoa\<close>, \<open>%d\<close>.\<close>

definition FormatInt :: "int \<Rightarrow> bytes" where
  "FormatInt n = (if n < 0 then CHR ''-'' # Itoa (nat (- n)) else Itoa (nat n))"

definition Atoi :: "bytes \<Rightarrow> goerr + int" where
  "Atoi s = (let neg = HasPrefix s ''-''; ds = (if neg \<or> HasPrefix s ''+'' then tl s else s) in
     if ds = [] \<or> \<not> list_all digit ds then Inl (OtherError ''invalid syntax'')
     else let v = (if neg then - int (digits_value ds) else int (digits_value ds)) in
       if - (2 ^ 63) \<le> v \<and> v < 2 ^ 63 then Inr v else Inl (OtherError ''value out of range''))"

definition ParseBool :: "bytes \<Rightarrow> goerr + bool" where
  "ParseBool s = (if s \<in> {''1'', ''t'', ''T'', ''true'', ''TRUE'', ''True''} then Inr True
     else if s \<in> {''0'', ''f'', ''F'', ''false'', ''FALSE'', ''False''} then Inr False
     else Inl (OtherError ''invalid syntax''))"

definition FormatBool :: "bool \<Rightarrow> bytes" where
  "FormatBool b = (if b then ''true'' else ''false'')"

lemma byte_char_of: "n < 256 \<Longrightarrow> byte (char_of n) = n"
  by (simp add: byte_def)

lemma Itoa_digits: "list_all digit (Itoa n)"
proof (induction n rule: Itoa.induct)
  case (1 n)
  have "digit (char_of (48 + m))" if "m < 10" for m :: nat
    using that by (simp add: digit_def byte_char_of)
  with 1 show ?case by (subst Itoa.simps) simp
qed

lemma Itoa_nonempty: "Itoa n \<noteq> []"
  by (subst Itoa.simps) simp

lemma digits_value_Itoa: "digits_value (Itoa n) = n"
proof (induction n rule: Itoa.induct)
  case (1 n)
  show ?case
  proof (cases "n < 10")
    case True
    then show ?thesis by (subst Itoa.simps) (simp add: digits_value_def byte_char_of)
  next
    case False
    then have "digits_value (Itoa n) = 10 * digits_value (Itoa (n div 10)) + n mod 10"
      by (subst Itoa.simps) (simp add: digits_value_def byte_char_of)
    with 1 False show ?thesis by simp
  qed
qed

lemma Itoa_inject [simp]: "Itoa m = Itoa n \<longleftrightarrow> m = n"
  by (metis digits_value_Itoa)

lemma digit_not_sign: "\<not> digit (CHR ''-'')" "\<not> digit (CHR ''+'')" "\<not> digit (CHR '':'')"
  by (simp_all add: digit_def byte_def)

lemma hd_digit: "list_all digit s \<Longrightarrow> \<not> HasPrefix s ''-'' \<and> \<not> HasPrefix s ''+''"
  by (cases s) (auto simp: HasPrefix_def digit_not_sign)

lemma Atoi_FormatInt: "- (2 ^ 63) \<le> n \<Longrightarrow> n < 2 ^ 63 \<Longrightarrow> Atoi (FormatInt n) = Inr n"
  using hd_digit [OF Itoa_digits] Itoa_digits
  by (auto simp: Atoi_def FormatInt_def Let_def Itoa_nonempty digits_value_Itoa HasPrefix_def)

lemma FormatInt_inject [simp]: "FormatInt m = FormatInt n \<longleftrightarrow> m = n"
proof
  assume eq: "FormatInt m = FormatInt n"
  have "CHR ''-'' # s \<noteq> Itoa k" for s k
  proof
    assume "CHR ''-'' # s = Itoa k"
    with Itoa_digits [of k] have "list_all digit (CHR ''-'' # s)" by simp
    then show False using digit_not_sign by simp
  qed
  with eq show "m = n"
    by (auto simp: FormatInt_def split: if_splits) (metis Itoa_inject)+
qed simp

lemma FormatInt_no_colon: "CHR '':'' \<notin> set (FormatInt n)"
  using Itoa_digits digit_not_sign by (auto simp: FormatInt_def list_all_iff)

lemma ParseBool_FormatBool [simp]: "ParseBool (FormatBool b) = Inr b"
  by (simp add: ParseBool_def FormatBool_def)

end
