(* ===== verification/Web.thy ===== *)
theory Web
  imports AuthService Strconv
begin

text \<open>
  What the HTTP layer keeps beside the database: the rate limiter's memory and the Redis server.
  A Go map is the list of its entries, one for each key; the order in which \<open>range\<close> meets them is
  unspecified, so it is a parameter.  Of Redis the program uses \<open>GET\<close>, \<open>SET\<close> with an expiry and
  \<open>INCR\<close>, and the commands of its script: here they are functions on a key space, and a call
  fails when the environment says so.
\<close>

subsection \<open>Redis\<close>

datatype redis_value = RInt int | RText bytes

record redis_entry =
  re_value :: redis_value
  re_expires :: "instant option"

type_synonym keyspace = "bytes \<Rightarrow> redis_entry option"

definition live :: "instant \<Rightarrow> keyspace \<Rightarrow> bytes \<Rightarrow> redis_value option" where
  "live t ks k = (case ks k of None \<Rightarrow> None
     | Some x \<Rightarrow> (case re_expires x of None \<Rightarrow> Some (re_value x)
                  | Some u \<Rightarrow> if t < u then Some (re_value x) else None))"

definition as_integer :: "redis_value \<Rightarrow> int option" where
  "as_integer v = (case v of RInt n \<Rightarrow> Some n | RText s \<Rightarrow> (case Atoi s of Inl _ \<Rightarrow> None | Inr n \<Rightarrow> Some n))"

definition redis_GET :: "instant \<Rightarrow> bytes \<Rightarrow> keyspace \<Rightarrow> bytes option" where
  "redis_GET t k ks = map_option (\<lambda>v. case v of RInt n \<Rightarrow> FormatInt n | RText s \<Rightarrow> s) (live t ks k)"

definition redis_SET :: "instant \<Rightarrow> bytes \<Rightarrow> bytes \<Rightarrow> int \<Rightarrow> keyspace \<Rightarrow> keyspace" where
  "redis_SET t k v ttl ks = ks(k \<mapsto> \<lparr>re_value = RText v, re_expires = Some (t + ttl)\<rparr>)"

definition redis_INCR :: "instant \<Rightarrow> bytes \<Rightarrow> keyspace \<Rightarrow> goerr + int \<times> keyspace" where
  "redis_INCR t k ks = (case live t ks k of
     None \<Rightarrow> Inr (1, ks(k \<mapsto> \<lparr>re_value = RInt 1, re_expires = None\<rparr>))
   | Some v \<Rightarrow> (case as_integer v of
       None \<Rightarrow> Inl (OtherError ''ERR value is not an integer or out of range'')
     | Some n \<Rightarrow> if n \<ge> 2 ^ 63 - 1 then Inl (OtherError ''ERR increment or decrement would overflow'')
         else Inr (n + 1, ks(k := map_option (\<lambda>x. x\<lparr>re_value := RInt (n + 1)\<rparr>) (ks k)))))"

definition redis_PEXPIRE :: "instant \<Rightarrow> bytes \<Rightarrow> int \<Rightarrow> keyspace \<Rightarrow> keyspace" where
  "redis_PEXPIRE t k ms ks = (if live t ks k = None then ks
     else if ms \<le> 0 then ks(k := None)
     else ks(k := map_option (\<lambda>x. x\<lparr>re_expires := Some (t + ms)\<rparr>) (ks k)))"

subsection \<open>The state of a server process\<close>

text \<open>Assignment to a map at a key.\<close>

fun put :: "bytes \<Rightarrow> 'v \<Rightarrow> (bytes \<times> 'v) list \<Rightarrow> (bytes \<times> 'v) list" where
  "put k v [] = [(k, v)]"
| "put k v ((k', v') # m) = (if k' = k then (k, v) # m else (k', v') # put k v m)"

lemma map_of_put: "map_of (put k v m) = (map_of m)(k \<mapsto> v)"
  by (induction k v m rule: put.induct) auto

lemma put_absent: "map_of m k = None \<Longrightarrow> put k v m = m @ [(k, v)]"
  by (induction k v m rule: put.induct) (auto split: if_splits)

lemma length_put: "length (put k v m) \<le> Suc (length m)"
  by (induction k v m rule: put.induct) auto

record bucket =
  b_Count :: int
  b_Expires :: instant

record web_env =
  on_env :: env
  redis_now :: "nat \<Rightarrow> instant"                   \<comment> \<open>the clock of the Redis server\<close>
  range_order :: "nat \<Rightarrow> bytes list \<Rightarrow> bytes list"  \<comment> \<open>in which order \<open>range\<close> meets the keys of a map\<close>
  left_behind :: "nat \<Rightarrow> bytes option"           \<comment> \<open>what a failed write to the object store has left\<close>
  parse_ip :: "bytes \<Rightarrow> bytes option"             \<comment> \<open>\<open>net.ParseIP\<close> and the text of its result\<close>
  detect_type :: "bytes \<Rightarrow> bytes"             \<comment> \<open>\<open>http.DetectContentType\<close>\<close>

record web =
  wb_world :: world
  wb_memory :: "(bytes \<times> bucket) list"
  wb_redis :: keyspace
  wb_objects :: "(bytes \<times> (bytes \<times> instant)) list"  \<comment> \<open>stored objects: content and time of the last change\<close>

type_synonym ('x, 'a) wop = "web_env \<Rightarrow> web \<Rightarrow> ('x + 'a) \<times> web"

definition at_tick :: "web \<Rightarrow> nat" where
  "at_tick w = tick (wb_world w)"

definition pass :: "web \<Rightarrow> web" where
  "pass w = w\<lparr>wb_world := bump (wb_world w)\<rparr>"

definition returnW :: "'a \<Rightarrow> ('x, 'a) wop" where
  "returnW a = (\<lambda>e w. (Inr a, w))"

definition failW :: "'x \<Rightarrow> ('x, 'a) wop" where
  "failW x = (\<lambda>e w. (Inl x, w))"

definition bindW :: "('x, 'a) wop \<Rightarrow> ('a \<Rightarrow> ('x, 'b) wop) \<Rightarrow> ('x, 'b) wop" where
  "bindW m k = (\<lambda>e w. case m e w of (Inl x, w') \<Rightarrow> (Inl x, w') | (Inr a, w') \<Rightarrow> k a e w')"

definition mapW :: "('x \<Rightarrow> 'y) \<Rightarrow> ('x, 'a) wop \<Rightarrow> ('y, 'a) wop" where
  "mapW h m = (\<lambda>e w. case m e w of (Inl x, w') \<Rightarrow> (Inl (h x), w') | (Inr a, w') \<Rightarrow> (Inr a, w'))"

definition attemptW :: "('x, 'a) wop \<Rightarrow> ('y, 'x + 'a) wop" where
  "attemptW m = (\<lambda>e w. case m e w of (r, w') \<Rightarrow> (Inr r, w'))"

text \<open>A service called by the HTTP layer, and one call to Redis.\<close>

definition service :: "'a op \<Rightarrow> (goerr, 'a) wop" where
  "service m = (\<lambda>e w. case m (on_env e) (wb_world w) of (r, v) \<Rightarrow> (r, w\<lparr>wb_world := v\<rparr>))"

definition redis :: "(instant \<Rightarrow> keyspace \<Rightarrow> goerr + 'a \<times> keyspace) \<Rightarrow> (goerr, 'a) wop" where
  "redis f = (\<lambda>e w. case fault_at (on_env e) (at_tick w) of
      Some x \<Rightarrow> (Inl x, pass w)
    | None \<Rightarrow> (case f (redis_now e (at_tick w)) (wb_redis w) of
        Inl x \<Rightarrow> (Inl x, pass w)
      | Inr (a, ks) \<Rightarrow> (Inr a, (pass w)\<lparr>wb_redis := ks\<rparr>)))"

named_theorems web_simps \<open>how the constructs of the HTTP layer run\<close>

lemma pass_simps [simp]:
  "at_tick (pass w) = Suc (at_tick w)" "wb_memory (pass w) = wb_memory w" "wb_redis (pass w) = wb_redis w"
  "wb_objects (pass w) = wb_objects w"
  "db (wb_world (pass w)) = db (wb_world w)"
  by (simp_all add: pass_def at_tick_def)

lemma run_web [web_simps]:
  "returnW a e w = (Inr a, w)" "failW x e w = (Inl x, w)"
  by (simp_all add: returnW_def failW_def)

lemma run_bindW [web_simps]:
  "bindW m k e w = (Inr b, w') \<longleftrightarrow> (\<exists>a w1. m e w = (Inr a, w1) \<and> k a e w1 = (Inr b, w'))"
  by (auto simp: bindW_def split: prod.splits sum.splits)

lemma run_attemptW [web_simps]: "attemptW m e w = (r, w') \<longleftrightarrow> (\<exists>x. r = Inr x \<and> m e w = (x, w'))"
  by (auto simp: attemptW_def split: prod.splits)

end
