(* ===== verification/RateLimit.thy ===== *)
theory RateLimit
  imports Web Sample "HOL-Library.Signed_Division"
begin

text \<open>
  \<open>internal/ratelimit/limiter.go\<close>: a fixed window for each group and client.  A store counts the
  requests of a window under one key; the two stores, the process's memory and Redis, are
  interpretations of the locale \<open>counter_store\<close>, in which the counts of a window are proved to
  be 1, 2, 3 and so on.
\<close>

record rate =
  rt_WindowMS :: int
  rt_Max :: int

record limiter =
  lm_redis :: bool            \<comment> \<open>\<open>l.redis != nil\<close>\<close>
  lm_namespace :: bytes

definition maxMemoryBuckets :: nat where
  "maxMemoryBuckets = 10000"

definition fixedWindow :: "bytes \<Rightarrow> int \<Rightarrow> instant \<Rightarrow> keyspace \<Rightarrow> goerr + int \<times> keyspace" where
  "fixedWindow k ms t ks = (case redis_INCR t k ks of
     Inl x \<Rightarrow> Inl x
   | Inr (count, ks1) \<Rightarrow> Inr (count, if count = 1 then redis_PEXPIRE t k ms ks1 else ks1))"

text \<open>The two loops of \<open>prune\<close>: the second leaves as soon as the target is reached.\<close>

fun evict :: "nat \<Rightarrow> bytes list \<Rightarrow> (bytes \<times> bucket) list \<Rightarrow> (bytes \<times> bucket) list" where
  "evict target [] m = m"
| "evict target (k # ks) m = (if length m \<le> target then m else evict target ks (filter (\<lambda>(k', b). k' \<noteq> k) m))"

definition prune :: "instant \<Rightarrow> (bytes list \<Rightarrow> bytes list) \<Rightarrow> (bytes \<times> bucket) list \<Rightarrow> (bytes \<times> bucket) list" where
  "prune now order m = (if length m < maxMemoryBuckets then m
     else let m1 = filter (\<lambda>(k, b). \<not> b_Expires b < now) m in
       evict (maxMemoryBuckets * 9 div 10) (order (map fst m1)) m1)"

definition zero_bucket :: bucket where
  "zero_bucket = \<lparr>b_Count = 0, b_Expires = -62135596800000\<rparr>"

definition bucket_of :: "(bytes \<times> bucket) list \<Rightarrow> bytes \<Rightarrow> bucket" where
  "bucket_of m k = (case map_of m k of None \<Rightarrow> zero_bucket | Some b \<Rightarrow> b)"

definition memory_hit :: "instant \<Rightarrow> bytes \<Rightarrow> int \<Rightarrow> (bytes \<times> bucket) list \<Rightarrow> int \<times> (bytes \<times> bucket) list" where
  "memory_hit now k window m =
     (let b = bucket_of m k;
          b1 = (if b_Count b = 0 then b\<lparr>b_Expires := now + window\<rparr> else b);
          b2 = b1\<lparr>b_Count := b_Count b1 + 1\<rparr>
      in (b_Count b2, put k b2 m))"

definition fullKey :: "limiter \<Rightarrow> bytes \<Rightarrow> bytes \<Rightarrow> int \<Rightarrow> bytes" where
  "fullKey l grp key windowID =
     lm_namespace l @ '':ratelimit:'' @ grp @ '':'' @ key @ '':'' @ FormatInt windowID"

definition Allow :: "limiter \<Rightarrow> bytes \<Rightarrow> bytes \<Rightarrow> rate \<Rightarrow> (goerr, bool) wop" where
  "Allow l grp key r = (\<lambda>e w.
     let windowID = app_now (on_env e) (at_tick w) sdiv rt_WindowMS r;
         full = fullKey l grp key windowID; w1 = pass w
     in if lm_redis l
        then bindW (redis (fixedWindow full (rt_WindowMS r))) (\<lambda>count. returnW (count \<le> rt_Max r)) e w1
        else let m = prune (app_now (on_env e) (at_tick w1)) (range_order e (at_tick w1)) (wb_memory w1);
                 w2 = pass w1;
                 (count, m') = memory_hit (app_now (on_env e) (at_tick w2)) full (rt_WindowMS r) m
             in (Inr (count \<le> rt_Max r), (pass w2)\<lparr>wb_memory := m'\<rparr>))"

subsection \<open>What a store of counters promises\<close>

locale counter_store =
  fixes hit :: "instant \<Rightarrow> bytes \<Rightarrow> int \<Rightarrow> 's \<Rightarrow> (int \<times> 's) option"
    and tally :: "instant \<Rightarrow> 's \<Rightarrow> bytes \<Rightarrow> int"
    and keeps :: "'s \<Rightarrow> bytes \<Rightarrow> instant \<Rightarrow> bool"
    and within :: "instant \<Rightarrow> instant \<Rightarrow> int \<Rightarrow> bool"
  assumes counted: "hit t k window s = Some (n, s') \<Longrightarrow> n = tally t s k + 1"
    and recorded: "hit t k window s = Some (n, s') \<Longrightarrow> 0 < window \<Longrightarrow>
      (if tally t s k = 0 then within t' t window else keeps s k t') \<Longrightarrow> tally t' s' k = n \<and> keeps s' k t'"
    and apart: "hit t k window s = Some (n, s') \<Longrightarrow> k' \<noteq> k \<Longrightarrow>
      tally t' s' k' = tally t' s k' \<and> keeps s' k' t' = keeps s k' t'"
begin

text \<open>Successive calls: the keys with the counts they got.  A call that fails leaves the store.\<close>

fun calls :: "(instant \<times> bytes \<times> int) list \<Rightarrow> 's \<Rightarrow> (bytes \<times> int) list" where
  "calls [] s = []"
| "calls ((t, k, window) # cs) s = (case hit t k window s of
     None \<Rightarrow> calls cs s | Some (n, s') \<Rightarrow> (k, n) # calls cs s')"

definition counts :: "bytes \<Rightarrow> (bytes \<times> int) list \<Rightarrow> int list" where
  "counts k rs = map snd (filter (\<lambda>(k', n). k' = k) rs)"

lemma counts_simps [simp]:
  "counts k [] = []" "counts k ((k', n) # rs) = (if k' = k then n # counts k rs else counts k rs)"
  by (simp_all add: counts_def)

text \<open>
  The calls under one key, at times \<open>T\<close> that all fall within the window the first of them opens,
  count on from what the store holds.
\<close>

lemma counts_on:
  assumes "0 < window"
    and "\<forall>(t, k', window') \<in> set cs. k' = k \<longrightarrow> window' = window \<and> t \<in> T"
    and "\<forall>t \<in> T. \<forall>t' \<in> T. within t' t window"
    and "\<forall>t \<in> T. tally t s k = c \<and> (c = 0 \<or> keeps s k t)" and "0 \<le> c"
  shows "counts k (calls cs s) = [c + 1 .. c + int (length (counts k (calls cs s)))]"
  using assms
proof (induction cs arbitrary: s c)
  case Nil
  then show ?case by simp
next
  case (Cons call cs)
  obtain t k' window' where call: "call = (t, k', window')" by (cases call)
  have rest: "\<forall>(t, k', window') \<in> set cs. k' = k \<longrightarrow> window' = window \<and> t \<in> T"
    using Cons.prems(2) by simp
  show ?case
  proof (cases "hit t k' window' s")
    case None
    with Cons.IH [OF Cons.prems(1) rest Cons.prems(3-5)] show ?thesis by (simp add: call)
  next
    case (Some r)
    obtain n s' where r: "r = (n, s')" by (cases r)
    note hit = Some [unfolded r]
    show ?thesis
    proof (cases "k' = k")
      case False
      then have "\<forall>t \<in> T. tally t s' k = c \<and> (c = 0 \<or> keeps s' k t)"
        using Cons.prems(4) apart [OF hit] by simp
      from Cons.IH [OF Cons.prems(1) rest Cons.prems(3) this Cons.prems(5)] False hit show ?thesis by (simp add: call)
    next
      case True
      with Cons.prems(2) call have now: "window' = window" "t \<in> T" by auto
      with Cons.prems(4) True have tally: "tally t s k = c" by simp
      with counted [OF hit] True have n: "n = c + 1" by simp
      have "tally t' s' k = n \<and> keeps s' k t'" if "t' \<in> T" for t'
        using recorded [OF hit, of t'] Cons.prems(1,3,4) True now tally that by (auto split: if_splits)
      then have "\<forall>t \<in> T. tally t s' k = c + 1 \<and> (c + 1 = 0 \<or> keeps s' k t)"
        by (simp add: n)
      from Cons.IH [OF Cons.prems(1) rest Cons.prems(3) this] Cons.prems(5) obtain m
        where m: "length (counts k (calls cs s')) = m" "counts k (calls cs s') = [c + 1 + 1 .. c + 1 + int m]"
        by simp
      have "counts k (calls (call # cs) s) = (c + 1) # counts k (calls cs s')"
        using True hit n by (simp add: call)
      moreover have "[c + 1 .. c + int (Suc m)] = (c + 1) # [c + 1 + 1 .. c + 1 + int m]"
        using upto_rec1 [of "c + 1" "c + int (Suc m)"] by (simp add: algebra_simps)
      ultimately show ?thesis using m by simp
    qed
  qed
qed

end

subsection \<open>The memory of a process\<close>

lemma bucket_of_put: "bucket_of (put k b m) k' = (if k' = k then b else bucket_of m k')"
  by (simp add: bucket_of_def map_of_put)

lemma prune_small: "length m < maxMemoryBuckets \<Longrightarrow> prune now order m = m"
  by (simp add: prune_def)

interpretation memory: counter_store "\<lambda>t k window m. Some (memory_hit t k window m)"
  "\<lambda>t m k. b_Count (bucket_of m k)" "\<lambda>m k t. True" "\<lambda>t' t window. True"
  by unfold_locales (auto simp: memory_hit_def Let_def bucket_of_put)

subsection \<open>Redis\<close>

definition redis_hit :: "instant \<Rightarrow> bytes \<Rightarrow> int \<Rightarrow> keyspace \<Rightarrow> (int \<times> keyspace) option" where
  "redis_hit t k window ks = (case fixedWindow k window t ks of Inl x \<Rightarrow> None | Inr r \<Rightarrow> Some r)"

definition redis_tally :: "instant \<Rightarrow> keyspace \<Rightarrow> bytes \<Rightarrow> int" where
  "redis_tally t ks k = (case live t ks k of None \<Rightarrow> 0
     | Some v \<Rightarrow> (case as_integer v of None \<Rightarrow> 0 | Some n \<Rightarrow> n))"

interpretation redis: counter_store redis_hit redis_tally "\<lambda>ks k t. live t ks k \<noteq> None"
  "\<lambda>t' t window. t' < t + window"
proof
  fix t k window n and ks ks' :: keyspace
  assume hit: "redis_hit t k window ks = Some (n, ks')"
  then show "n = redis_tally t ks k + 1"
    by (auto simp: redis_hit_def fixedWindow_def redis_INCR_def redis_tally_def
      split: option.splits sum.splits if_splits prod.splits)
  show "redis_tally t' ks' k' = redis_tally t' ks k' \<and> (live t' ks' k' \<noteq> None) = (live t' ks k' \<noteq> None)"
    if "k' \<noteq> k" for k' t'
    using hit that by (auto simp: redis_hit_def fixedWindow_def redis_INCR_def redis_PEXPIRE_def redis_tally_def live_def
      split: option.splits sum.splits if_splits prod.splits)
  show "redis_tally t' ks' k = n \<and> live t' ks' k \<noteq> None"
    if "0 < window" "if redis_tally t ks k = 0 then t' < t + window else live t' ks k \<noteq> None" for t'
    using hit that by (auto simp: redis_hit_def fixedWindow_def redis_INCR_def redis_PEXPIRE_def redis_tally_def
      live_def as_integer_def split: option.splits sum.splits if_splits prod.splits redis_value.splits)
qed

subsection \<open>The limiter over a run\<close>

text \<open>A run of requests, each a group and a client key: the counter it was counted under, the answer.\<close>

fun allow_all :: "limiter \<Rightarrow> (bytes \<Rightarrow> rate) \<Rightarrow> (bytes \<times> bytes) list \<Rightarrow> web_env \<Rightarrow> web \<Rightarrow>
    (bytes \<times> (goerr + bool)) list \<times> web" where
  "allow_all l rates [] e w = ([], w)"
| "allow_all l rates ((grp, key) # rs) e w =
     (let r = rates grp; full = fullKey l grp key (app_now (on_env e) (at_tick w) sdiv rt_WindowMS r);
          (answer, w1) = Allow l grp key r e w; (answers, w2) = allow_all l rates rs e w1
      in ((full, answer) # answers, w2))"

definition verdicts :: "bytes \<Rightarrow> (bytes \<times> (goerr + bool)) list \<Rightarrow> bool list" where
  "verdicts full rs =
     concat (map (\<lambda>(f, r). case r of Inl _ \<Rightarrow> [] | Inr b \<Rightarrow> if f = full then [b] else []) rs)"

lemma verdicts_simps [simp]:
  "verdicts full [] = []"
  "verdicts full ((f, Inl x) # rs) = verdicts full rs"
  "verdicts full ((f, Inr b) # rs) = (if f = full then b # verdicts full rs else verdicts full rs)"
  by (simp_all add: verdicts_def)

lemma fst_allow_all:
  "fst (allow_all l rates ((grp, key) # rs) e w) =
     (fullKey l grp key (app_now (on_env e) (at_tick w) sdiv rt_WindowMS (rates grp)),
      fst (Allow l grp key (rates grp) e w)) # fst (allow_all l rates rs e (snd (Allow l grp key (rates grp) e w)))"
  by (simp add: Let_def split: prod.split)

lemma split_first: "c \<notin> set a \<Longrightarrow> c \<notin> set b \<Longrightarrow> a @ c # x = b @ c # y \<longleftrightarrow> a = b \<and> x = y"
  by (induction a arbitrary: b) (case_tac b; auto)+

lemma split_last: "c \<notin> set x \<Longrightarrow> c \<notin> set y \<Longrightarrow> a @ c # x = b @ c # y \<longleftrightarrow> a = b \<and> x = y"
proof -
  have "a @ c # x = b @ c # y \<longleftrightarrow> rev x @ c # rev a = rev y @ c # rev b" if "c \<notin> set x" "c \<notin> set y" for a b x y
    by (subst rev_is_rev_conv [symmetric]) simp
  then show "c \<notin> set x \<Longrightarrow> c \<notin> set y \<Longrightarrow> a @ c # x = b @ c # y \<longleftrightarrow> a = b \<and> x = y"
    by (simp add: split_first conj_commute)
qed

lemma fullKey_inject:
  assumes "CHR '':'' \<notin> set grp" "CHR '':'' \<notin> set grp'"
  shows "fullKey l grp key i = fullKey l grp' key' i' \<longleftrightarrow> grp = grp' \<and> key = key' \<and> i = i'"
proof
  assume eq: "fullKey l grp key i = fullKey l grp' key' i'"
  then have "grp @ CHR '':'' # (key @ CHR '':'' # FormatInt i) = grp' @ CHR '':'' # (key' @ CHR '':'' # FormatInt i')"
    by (simp add: fullKey_def)
  then show "grp = grp' \<and> key = key' \<and> i = i'"
    using assms by (simp add: split_first split_last FormatInt_no_colon)
qed simp

lemma sdiv_div: "0 \<le> t \<Longrightarrow> 0 < (k :: int) \<Longrightarrow> t sdiv k = t div k"
  by (simp add: signed_divide_int_def sgn_if)

lemma memory_verdicts:
  assumes "\<not> lm_redis l" "CHR '':'' \<notin> set grp"
    and "list_all (\<lambda>(grp', key'). CHR '':'' \<notin> set grp') reqs"
    and "length (wb_memory w) + length reqs \<le> maxMemoryBuckets"
  shows "\<exists>cs. verdicts (fullKey l grp key i) (fst (allow_all l rates reqs e w))
        = map (\<lambda>n. n \<le> rt_Max (rates grp)) (memory.counts (fullKey l grp key i) (memory.calls cs (wb_memory w)))
      \<and> (\<forall>(t, k, window) \<in> set cs. k = fullKey l grp key i \<longrightarrow> window = rt_WindowMS (rates grp))"
  using assms(3,4)
proof (induction reqs arbitrary: w)
  case Nil
  show ?case by (rule exI [of _ "[]"]) simp
next
  case (Cons req reqs)
  obtain grp' key' where req: "req = (grp', key')" by (cases req)
  let ?r = "rates grp'" and ?t = "app_now (on_env e) (Suc (Suc (at_tick w)))"
  let ?full = "fullKey l grp' key' (app_now (on_env e) (at_tick w) sdiv rt_WindowMS ?r)"
  obtain n m where hit: "memory_hit ?t ?full (rt_WindowMS ?r) (wb_memory w) = (n, m)"
    by (cases "memory_hit ?t ?full (rt_WindowMS ?r) (wb_memory w)")
  define w1 where "w1 = (pass (pass (pass w)))\<lparr>wb_memory := m\<rparr>"
  have run: "Allow l grp' key' ?r e w = (Inr (n \<le> rt_Max ?r), w1)"
    using assms(1) Cons.prems(2) hit by (simp add: Allow_def Let_def prune_small w1_def)
  have "length m \<le> Suc (length (wb_memory w))"
    using hit length_put by (auto simp: memory_hit_def Let_def)
  then have "length (wb_memory w1) + length reqs \<le> maxMemoryBuckets"
    using Cons.prems(2) by (simp add: w1_def)
  from Cons.IH [OF _ this] Cons.prems(1) obtain cs where cs:
    "verdicts (fullKey l grp key i) (fst (allow_all l rates reqs e w1))
      = map (\<lambda>n. n \<le> rt_Max (rates grp)) (memory.counts (fullKey l grp key i) (memory.calls cs m))"
    "\<forall>(t, k, window) \<in> set cs. k = fullKey l grp key i \<longrightarrow> window = rt_WindowMS (rates grp)"
    by (auto simp: w1_def)
  have same: "?full = fullKey l grp key i \<Longrightarrow> grp' = grp"
    using fullKey_inject [of grp' grp] assms(2) Cons.prems(1) by (simp add: req)
  show ?case
    by (rule exI [of _ "(?t, ?full, rt_WindowMS ?r) # cs"])
      (use cs same in \<open>auto simp: req run hit fst_allow_all simp del: allow_all.simps\<close>)
qed

lemma redis_verdicts:
  assumes "lm_redis l" "CHR '':'' \<notin> set grp"
    and "list_all (\<lambda>(grp', key'). CHR '':'' \<notin> set grp') reqs"
    and clocks: "\<forall>n. redis_now e (Suc n) = app_now (on_env e) n" "\<forall>n. 0 \<le> app_now (on_env e) n"
    and window: "\<forall>grp. 0 < rt_WindowMS (rates grp)"
  shows "\<exists>cs. verdicts (fullKey l grp key i) (fst (allow_all l rates reqs e w))
        = map (\<lambda>n. n \<le> rt_Max (rates grp)) (redis.counts (fullKey l grp key i) (redis.calls cs (wb_redis w)))
      \<and> (\<forall>(t, k, window) \<in> set cs. k = fullKey l grp key i \<longrightarrow> window = rt_WindowMS (rates grp)
           \<and> 0 \<le> t \<and> t div rt_WindowMS (rates grp) = i)"
  using assms(3)
proof (induction reqs arbitrary: w)
  case Nil
  show ?case by (rule exI [of _ "[]"]) simp
next
  case (Cons req reqs)
  obtain grp' key' where req: "req = (grp', key')" by (cases req)
  let ?r = "rates grp'" and ?t = "app_now (on_env e) (at_tick w)"
  let ?full = "fullKey l grp' key' (?t sdiv rt_WindowMS ?r)"
  have same: "?full = fullKey l grp key i \<Longrightarrow> grp' = grp \<and> ?t div rt_WindowMS ?r = i"
    using fullKey_inject [of grp' grp] assms(2) Cons.prems clocks window by (auto simp: req sdiv_div)
  have IH: "\<exists>cs. verdicts (fullKey l grp key i) (fst (allow_all l rates reqs e w1))
        = map (\<lambda>n. n \<le> rt_Max (rates grp)) (redis.counts (fullKey l grp key i) (redis.calls cs (wb_redis w1)))
      \<and> (\<forall>(t, k, window) \<in> set cs. k = fullKey l grp key i \<longrightarrow> window = rt_WindowMS (rates grp)
           \<and> 0 \<le> t \<and> t div rt_WindowMS (rates grp) = i)" for w1
    using Cons by simp
  show ?case
  proof (cases "fault_at (on_env e) (Suc (at_tick w)) = None")
    case False
    then obtain x where "Allow l grp' key' ?r e w = (Inl x, pass (pass w))"
      using assms(1) by (auto simp: Allow_def Let_def bindW_def redis_def)
    with IH [of "pass (pass w)"] show ?thesis by (simp add: req fst_allow_all del: allow_all.simps)
  next
    case ok: True
    show ?thesis
    proof (cases "fixedWindow ?full (rt_WindowMS ?r) ?t (wb_redis w)")
      case (Inl x)
      with ok have "Allow l grp' key' ?r e w = (Inl x, pass (pass w))"
        using assms(1) clocks by (auto simp: Allow_def Let_def bindW_def redis_def)
      with IH [of "pass (pass w)"] show ?thesis by (simp add: req fst_allow_all del: allow_all.simps)
    next
      case (Inr a)
      obtain n ks where a: "a = (n, ks)" by (cases a)
      have run: "Allow l grp' key' ?r e w = (Inr (n \<le> rt_Max ?r), (pass (pass w))\<lparr>wb_redis := ks\<rparr>)"
        using assms(1) clocks ok Inr by (simp add: Allow_def Let_def bindW_def redis_def returnW_def a)
      have hit: "redis_hit ?t ?full (rt_WindowMS ?r) (wb_redis w) = Some (n, ks)"
        by (simp add: redis_hit_def Inr a)
      from IH [of "(pass (pass w))\<lparr>wb_redis := ks\<rparr>"] obtain cs where cs:
        "verdicts (fullKey l grp key i) (fst (allow_all l rates reqs e ((pass (pass w))\<lparr>wb_redis := ks\<rparr>)))
          = map (\<lambda>n. n \<le> rt_Max (rates grp)) (redis.counts (fullKey l grp key i) (redis.calls cs ks))"
        "\<forall>(t, k, window) \<in> set cs. k = fullKey l grp key i \<longrightarrow> window = rt_WindowMS (rates grp)
           \<and> 0 \<le> t \<and> t div rt_WindowMS (rates grp) = i"
        by auto
      show ?thesis
        by (rule exI [of _ "(?t, ?full, rt_WindowMS ?r) # cs"])
          (use cs same clocks in \<open>auto simp: req run hit fst_allow_all simp del: allow_all.simps\<close>)
    qed
  qed
qed

subsection \<open>Properties\<close>

lemma same_window: "0 < (k :: int) \<Longrightarrow> t div k = t' div k \<Longrightarrow> t' < t + k"
  using pos_mod_bound [of k t'] pos_mod_sign [of k t] div_mult_mod_eq [of t k] div_mult_mod_eq [of t' k]
  by (smt (verit))


definition sample_web_env :: web_env where
  "sample_web_env = \<lparr>on_env = sample_env, redis_now = \<lambda>n. 999 + int n, range_order = \<lambda>_ ks. ks,
     left_behind = \<lambda>_. None, parse_ip = Some, detect_type = \<lambda>_. ''text/plain''\<rparr>"

definition sample_web :: web where
  "sample_web = \<lparr>wb_world = sample_world, wb_memory = [], wb_redis = \<lambda>_. None, wb_objects = []\<rparr>"

definition sample_rates :: "bytes \<Rightarrow> rate" where
  "sample_rates grp = \<lparr>rt_WindowMS = 60000, rt_Max = 2\<rparr>"

definition sample_limiter :: "bool \<Rightarrow> limiter" where
  "sample_limiter r = \<lparr>lm_redis = r, lm_namespace = ''app''\<rparr>"


lemma length_evict: "fst ` set m \<subseteq> set ks \<Longrightarrow> length (evict target ks m) \<le> target"
proof (induction ks arbitrary: m)
  case Nil
  then show ?case by simp
next
  case (Cons k ks)
  from Cons.prems have "fst ` set (filter (\<lambda>(k', b). k' \<noteq> k) m) \<subseteq> set ks" by auto
  from Cons.IH [OF this] show ?case by simp
qed

lemma evict_nothing: "length m \<le> target \<Longrightarrow> evict target ks m = m"
  by (cases ks) simp_all

lemma length_prune:
  assumes "\<And>ks. set (order ks) = set ks"
  shows "length (prune now order m) < maxMemoryBuckets"
proof (cases "length m < maxMemoryBuckets")
  case True
  then show ?thesis by (simp add: prune_small)
next
  case False
  let ?m = "filter (\<lambda>(k, b). \<not> b_Expires b < now) m"
  have "length (evict (maxMemoryBuckets * 9 div 10) (order (map fst ?m)) ?m) \<le> maxMemoryBuckets * 9 div 10"
    by (rule length_evict) (simp add: assms)
  then show ?thesis
    using False by (simp add: prune_def Let_def maxMemoryBuckets_def)
qed

text \<open>The memory store is bounded: whatever it held, after a request it holds at most 10000
  counters; and the sweep drops no counter of a window that still runs as long as at most nine
  tenths of the cap are in use.\<close>

lemma memory_bounded:
  assumes "\<And>n ks. set (range_order e n ks) = set ks" and "\<not> lm_redis l"
  shows "length (wb_memory (snd (Allow l grp key r e w))) \<le> maxMemoryBuckets
    \<and> (length (filter (\<lambda>(k, b). \<not> b_Expires b < now) m) \<le> maxMemoryBuckets * 9 div 10 \<longrightarrow>
        set (filter (\<lambda>(k, b). \<not> b_Expires b < now) m) \<subseteq> set (prune now order m))"
proof
  obtain count m' where hit: "memory_hit (app_now (on_env e) (Suc (Suc (at_tick w))))
      (fullKey l grp key (app_now (on_env e) (at_tick w) sdiv rt_WindowMS r)) (rt_WindowMS r)
      (prune (app_now (on_env e) (Suc (at_tick w))) (range_order e (Suc (at_tick w))) (wb_memory w)) = (count, m')"
    by fastforce
  have "length m' \<le> Suc (length (prune (app_now (on_env e) (Suc (at_tick w))) (range_order e (Suc (at_tick w))) (wb_memory w)))"
    using hit length_put by (auto simp: memory_hit_def Let_def)
  with length_prune [of "range_order e (Suc (at_tick w))", OF assms(1)]
  have "length m' \<le> maxMemoryBuckets" by (meson Suc_leI le_trans)
  then show "length (wb_memory (snd (Allow l grp key r e w))) \<le> maxMemoryBuckets"
    using assms(2) hit by (simp add: Allow_def Let_def)
  show "length (filter (\<lambda>(k, b). \<not> b_Expires b < now) m) \<le> maxMemoryBuckets * 9 div 10 \<longrightarrow>
      set (filter (\<lambda>(k, b). \<not> b_Expires b < now) m) \<subseteq> set (prune now order m)"
    by (auto simp: prune_def evict_nothing Let_def)
qed

theorem memory_bounded_witness:
  "length (wb_memory (snd (Allow (sample_limiter False) ''auth'' ''10.0.0.1'' (sample_rates ''auth'')
     sample_web_env sample_web))) \<le> maxMemoryBuckets"
  using memory_bounded [of sample_web_env "sample_limiter False" "''auth''" "''10.0.0.1''" "sample_rates ''auth''" sample_web]
  by (simp add: sample_web_env_def sample_limiter_def)

end
