(* ===== verification/Cache.thy ===== *)
theory Cache
  imports RateLimit
begin

text \<open>
  \<open>internal/cache/cache.go\<close>: responses to \<open>GET\<close> requests, kept in Redis for thirty seconds under
  a key that names the version of the cache, the endpoint, the caller and the URL.  A change of the
  data increments the version, so that what was stored before is not found again.  The theory shows
  that the keys keep callers apart, and that under any interleaving of requests a response from
  the cache is no older than the last invalidation before the request asked for its key.
\<close>

record cache =
  ca_client :: bool       \<comment> \<open>\<open>c.client != nil\<close>\<close>
  ca_enabled :: bool
  ca_namespace :: bytes

definition version_key :: "cache \<Rightarrow> bytes" where
  "version_key c = ca_namespace c @ '':cache:version''"

definition cache_key :: "cache \<Rightarrow> bytes \<Rightarrow> bytes \<Rightarrow> bytes \<Rightarrow> bytes \<Rightarrow> bytes" where
  "cache_key c version endpoint actor url =
     ca_namespace c @ '':cache:v'' @ version @ '':'' @ endpoint @ '':'' @ actor @ '':'' @ url"

definition Cache_Key :: "cache \<Rightarrow> bytes \<Rightarrow> bytes \<Rightarrow> bytes \<Rightarrow> (goerr, bytes) wop" where
  "Cache_Key c endpoint actor url =
     (if \<not> ca_enabled c \<or> \<not> ca_client c then returnW []
      else bindW (redis (\<lambda>t ks. Inr (redis_GET t (version_key c) ks, ks))) (\<lambda>version.
        returnW (cache_key c (case version of None \<Rightarrow> ''0'' | Some v \<Rightarrow> v) endpoint actor url)))"

definition Cache_Get :: "cache \<Rightarrow> bytes \<Rightarrow> (goerr, bytes option) wop" where
  "Cache_Get c key = (if key = [] then returnW None else redis (\<lambda>t ks. Inr (redis_GET t key ks, ks)))"

definition Cache_Put :: "cache \<Rightarrow> bytes \<Rightarrow> bytes \<Rightarrow> (goerr, unit) wop" where
  "Cache_Put c key value = (if key = [] then returnW ()
     else redis (\<lambda>t ks. Inr ((), redis_SET t key value (30 * 1000) ks)))"

definition Cache_Invalidate :: "cache \<Rightarrow> (goerr, unit) wop" where
  "Cache_Invalidate c = (if \<not> ca_enabled c \<or> \<not> ca_client c then returnW ()
     else bindW (redis (\<lambda>t. redis_INCR t (version_key c))) (\<lambda>_. returnW ()))"

subsection \<open>Keys\<close>

definition colon_free :: "bytes \<Rightarrow> bool" where
  "colon_free s \<longleftrightarrow> CHR '':'' \<notin> set s"

lemma cache_key_inject:
  assumes "colon_free v" "colon_free v'" "colon_free ep" "colon_free ep'" "colon_free a" "colon_free a'"
  shows "cache_key c v ep a url = cache_key c v' ep' a' url' \<longleftrightarrow> v = v' \<and> ep = ep' \<and> a = a' \<and> url = url'"
  using assms by (auto simp: cache_key_def colon_free_def split_first)

lemma cache_key_version: "colon_free (ca_namespace c) \<Longrightarrow> cache_key c v ep a url \<noteq> version_key c"
proof
  assume "cache_key c v ep a url = version_key c"
  then have "length (filter (\<lambda>x. x = CHR '':'') (cache_key c v ep a url)) = length (filter (\<lambda>x. x = CHR '':'') (version_key c))"
    by simp
  then show False by (simp add: cache_key_def version_key_def)
qed

lemma cache_key_limit: "cache_key c v ep a url \<noteq> fullKey l grp key i" "version_key c \<noteq> fullKey l grp key i"
  if "lm_namespace l = ca_namespace c"
  using that by (simp_all add: cache_key_def version_key_def fullKey_def)

subsection \<open>Requests, changes and invalidations at the same time\<close>

text \<open>
  A request for a cached response asks for its key, looks it up, and on a miss reads the database
  and stores what it answers.  \<open>cs_commits\<close> counts the changes of the data, \<open>resp f n\<close> is the response
  to \<open>f\<close> after \<open>n\<close> of them, and \<open>cs_covered\<close> is the number of changes made when the cache was last
  invalidated.  A request remembers that number from the moment it has its key.
\<close>

record fetch =
  ft_endpoint :: bytes
  ft_actor :: bytes
  ft_url :: bytes

datatype fetch_phase = Idle | Keyed fetch bytes nat | Missed fetch bytes nat | Got fetch bytes bytes nat
  | Served fetch bytes nat

record cached_system =
  cs_web :: web
  cs_commits :: nat
  cs_covered :: nat
  cs_phase :: "nat \<Rightarrow> fetch_phase"

definition enter :: "nat \<Rightarrow> fetch_phase \<Rightarrow> web \<Rightarrow> cached_system \<Rightarrow> cached_system" where
  "enter p ph w s = s\<lparr>cs_web := w, cs_phase := (cs_phase s)(p := ph)\<rparr>"

definition fetch_ok :: "fetch \<Rightarrow> bool" where
  "fetch_ok f \<longleftrightarrow> colon_free (ft_endpoint f) \<and> colon_free (ft_actor f)"

inductive cache_step :: "web_env \<Rightarrow> cache \<Rightarrow> (fetch \<Rightarrow> nat \<Rightarrow> bytes) \<Rightarrow> cached_system \<Rightarrow> cached_system \<Rightarrow> bool"
  for e c resp where
  ask: "cs_phase s p = Idle \<Longrightarrow> fetch_ok f \<Longrightarrow>
    Cache_Key c (ft_endpoint f) (ft_actor f) (ft_url f) e (cs_web s) = (Inr k, w) \<Longrightarrow>
    cache_step e c resp s (enter p (Keyed f k (cs_covered s)) w s)"
| hit: "cs_phase s p = Keyed f k since \<Longrightarrow> Cache_Get c k e (cs_web s) = (Inr (Some v), w) \<Longrightarrow>
    cache_step e c resp s (enter p (Served f v since) w s)"
| miss: "cs_phase s p = Keyed f k since \<Longrightarrow> Cache_Get c k e (cs_web s) = (r, w) \<Longrightarrow>
    cache_step e c resp s (enter p (Missed f k since) w s)"
| answer: "cs_phase s p = Missed f k since \<Longrightarrow>
    cache_step e c resp s (enter p (Got f k (resp f (cs_commits s)) since) (cs_web s) s)"
| store: "cs_phase s p = Got f k v since \<Longrightarrow> Cache_Put c k v e (cs_web s) = (r, w) \<Longrightarrow>
    cache_step e c resp s (enter p (Served f v since) w s)"
| change: "cache_step e c resp s (s\<lparr>cs_commits := Suc (cs_commits s)\<rparr>)"
| invalidate: "Cache_Invalidate c e (cs_web s) = (Inr (), w) \<Longrightarrow>
    cache_step e c resp s (s\<lparr>cs_web := w, cs_covered := cs_commits s\<rparr>)"
| limit: "lm_namespace l = ca_namespace c \<Longrightarrow> Allow l grp key r e (cs_web s) = (b, w) \<Longrightarrow>
    cache_step e c resp s (s\<lparr>cs_web := w\<rparr>)"
| leave: "cache_step e c resp s (enter p Idle (cs_web s) s)"

definition version :: "cache \<Rightarrow> keyspace \<Rightarrow> int" where
  "version c ks = (case ks (version_key c) of None \<Rightarrow> 0 | Some x \<Rightarrow>
     (case re_value x of RInt n \<Rightarrow> n | RText _ \<Rightarrow> 0))"

definition version_ok :: "cache \<Rightarrow> keyspace \<Rightarrow> bool" where
  "version_ok c ks \<longleftrightarrow> ks (version_key c) = None
     \<or> (\<exists>n > 0. ks (version_key c) = Some \<lparr>re_value = RInt n, re_expires = None\<rparr>)"

definition key_at :: "cache \<Rightarrow> int \<Rightarrow> fetch \<Rightarrow> bytes" where
  "key_at c v f = cache_key c (FormatInt v) (ft_endpoint f) (ft_actor f) (ft_url f)"

text \<open>A value that answers \<open>f\<close> as of some change from \<open>lo\<close> to \<open>hi\<close>.\<close>

definition answers :: "(fetch \<Rightarrow> nat \<Rightarrow> bytes) \<Rightarrow> fetch \<Rightarrow> bytes \<Rightarrow> nat \<Rightarrow> nat \<Rightarrow> bool" where
  "answers resp f v lo hi \<longleftrightarrow> (\<exists>n. lo \<le> n \<and> n \<le> hi \<and> v = resp f n)"

fun phase_ok :: "cache \<Rightarrow> (fetch \<Rightarrow> nat \<Rightarrow> bytes) \<Rightarrow> (int \<Rightarrow> nat) \<Rightarrow> int \<Rightarrow> nat \<Rightarrow> fetch_phase \<Rightarrow> bool" where
  "phase_ok c resp cover cur hi Idle \<longleftrightarrow> True"
| "phase_ok c resp cover cur hi (Keyed f k since) \<longleftrightarrow>
     fetch_ok f \<and> (\<exists>v \<le> cur. k = key_at c v f \<and> since \<le> cover v)"
| "phase_ok c resp cover cur hi (Missed f k since) \<longleftrightarrow>
     fetch_ok f \<and> (\<exists>v \<le> cur. k = key_at c v f \<and> since \<le> cover v)"
| "phase_ok c resp cover cur hi (Got f k x since) \<longleftrightarrow>
     fetch_ok f \<and> (\<exists>v \<le> cur. k = key_at c v f \<and> since \<le> cover v \<and> answers resp f x (cover v) hi)"
| "phase_ok c resp cover cur hi (Served f x since) \<longleftrightarrow> answers resp f x since hi"

definition cover_ok :: "cache \<Rightarrow> (fetch \<Rightarrow> nat \<Rightarrow> bytes) \<Rightarrow> (int \<Rightarrow> nat) \<Rightarrow> cached_system \<Rightarrow> bool" where
  "cover_ok c resp cover s \<longleftrightarrow> (let ks = wb_redis (cs_web s); cur = version c ks in
     version_ok c ks \<and> cover cur = cs_covered s \<and> (\<forall>v. cover v \<le> cs_commits s)
     \<and> (\<forall>v f x. fetch_ok f \<longrightarrow> ks (key_at c v f) = Some x \<longrightarrow>
          v \<le> cur \<and> (\<exists>a. re_value x = RText a \<and> answers resp f a (cover v) (cs_commits s)))
     \<and> (\<forall>p. phase_ok c resp cover cur (cs_commits s) (cs_phase s p)))"

lemma answers_mono:
  assumes "answers resp f v lo hi" "lo' \<le> lo" "hi \<le> hi'"
  shows "answers resp f v lo' hi'"
proof -
  from assms(1) obtain n where "lo \<le> n" "n \<le> hi" "v = resp f n" by (auto simp: answers_def)
  with assms(2,3) show ?thesis by (auto simp: answers_def intro!: exI [of _ n])
qed

lemma phase_ok_mono:
  assumes "phase_ok c resp cover cur hi ph" "cur \<le> cur'" "hi \<le> hi'" "\<And>v. v \<le> cur \<Longrightarrow> cover' v = cover v"
  shows "phase_ok c resp cover' cur' hi' ph"
proof (cases ph)
  case Idle
  then show ?thesis by simp
next
  case (Keyed f k since)
  with assms(1) obtain v where "v \<le> cur" "k = key_at c v f" "since \<le> cover v" "fetch_ok f" by auto
  with assms(2,4) Keyed show ?thesis by (auto intro!: exI [of _ v])
next
  case (Missed f k since)
  with assms(1) obtain v where "v \<le> cur" "k = key_at c v f" "since \<le> cover v" "fetch_ok f" by auto
  with assms(2,4) Missed show ?thesis by (auto intro!: exI [of _ v])
next
  case (Got f k x since)
  with assms(1) obtain v where "v \<le> cur" "k = key_at c v f" "since \<le> cover v" "fetch_ok f"
    "answers resp f x (cover v) hi" by auto
  with assms(2-4) Got show ?thesis by (auto intro!: exI [of _ v] elim: answers_mono)
next
  case (Served f x since)
  with assms(1,3) show ?thesis by (auto elim: answers_mono)
qed

lemma run_redis_Inr: "redis f e w = (Inr a, w') \<longleftrightarrow> fault_at (on_env e) (at_tick w) = None
    \<and> (\<exists>ks. f (redis_now e (at_tick w)) (wb_redis w) = Inr (a, ks) \<and> w' = (pass w)\<lparr>wb_redis := ks\<rparr>)"
  by (auto simp: redis_def split: option.splits sum.splits prod.splits)

lemma redis_read: "redis (\<lambda>t ks. Inr (g t ks, ks)) e w = (r, w') \<Longrightarrow> wb_redis w' = wb_redis w"
  by (auto simp: redis_def split: option.splits)

lemma Cache_Key_run:
  assumes "ca_enabled c" "ca_client c" "version_ok c (wb_redis w)"
    and "Cache_Key c ep a url e w = (Inr k, w')"
  shows "wb_redis w' = wb_redis w \<and> k = cache_key c (FormatInt (version c (wb_redis w))) ep a url"
proof -
  have "(case redis_GET t (version_key c) (wb_redis w) of None \<Rightarrow> ''0'' | Some v \<Rightarrow> v)
      = FormatInt (version c (wb_redis w))" for t
  proof -
    have "FormatInt 0 = ''0''" by code_simp
    with assms(3) show ?thesis by (auto simp: version_ok_def version_def redis_GET_def live_def)
  qed
  with assms(1,2,4) show ?thesis
    by (auto simp: Cache_Key_def run_bindW run_web run_redis_Inr)
qed

lemma Cache_Get_run: "k \<noteq> [] \<Longrightarrow> Cache_Get c k e w = (r, w') \<Longrightarrow> wb_redis w' = wb_redis w
    \<and> (\<forall>v. r = Inr (Some v) \<longrightarrow> (\<exists>x. wb_redis w k = Some x \<and>
         v = (case re_value x of RInt n \<Rightarrow> FormatInt n | RText s \<Rightarrow> s)))"
  by (auto simp: Cache_Get_def redis_def redis_GET_def live_def split: option.splits if_splits)

lemma Cache_Put_run: "k \<noteq> [] \<Longrightarrow> Cache_Put c k v e w = (r, w') \<Longrightarrow> wb_redis w' = wb_redis w
    \<or> (\<exists>t. wb_redis w' = redis_SET t k v 30000 (wb_redis w))"
  by (auto simp: Cache_Put_def redis_def split: option.splits)

lemma Cache_Invalidate_run:
  assumes "ca_enabled c" "ca_client c" "version_ok c (wb_redis w)" "Cache_Invalidate c e w = (Inr (), w')"
  shows "wb_redis w' = (wb_redis w)(version_key c \<mapsto> \<lparr>re_value = RInt (version c (wb_redis w) + 1), re_expires = None\<rparr>)"
  using assms by (auto simp: Cache_Invalidate_def run_bindW run_web run_redis_Inr redis_INCR_def live_def as_integer_def
      version_ok_def version_def split: if_splits)

lemma Allow_apart: "Allow l grp key r e w = (b, w') \<Longrightarrow>
    (\<And>i. k \<noteq> fullKey l grp key i) \<Longrightarrow> wb_redis w' k = wb_redis w k"
  by (auto simp: Allow_def Let_def bindW_def redis_def returnW_def fixedWindow_def redis_INCR_def redis_PEXPIRE_def
      split: if_splits option.splits sum.splits prod.splits)

lemma key_at_nonempty: "key_at c v f \<noteq> []"
  by (simp add: key_at_def cache_key_def)

lemma colon_free_FormatInt [simp]: "colon_free (FormatInt n)"
  by (simp add: colon_free_def FormatInt_no_colon)

lemma key_at_inject: "fetch_ok f \<Longrightarrow> fetch_ok g \<Longrightarrow> key_at c v f = key_at c v' g \<longleftrightarrow> v = v' \<and> f = g"
  by (cases f; cases g) (simp add: key_at_def fetch_ok_def cache_key_inject)

lemma cover_ok_enter:
  assumes "cover_ok c resp cover s" "wb_redis w = wb_redis (cs_web s)"
    and "phase_ok c resp cover (version c (wb_redis (cs_web s))) (cs_commits s) ph"
  shows "cover_ok c resp cover (enter p ph w s)"
  using assms by (auto simp: cover_ok_def enter_def Let_def)

lemma cover_ok_phase:
  "cover_ok c resp cover s \<Longrightarrow> cs_phase s p = ph \<Longrightarrow>
   phase_ok c resp cover (version c (wb_redis (cs_web s))) (cs_commits s) ph"
  by (auto simp: cover_ok_def Let_def)

lemma cover_ok_entry:
  "cover_ok c resp cover s \<Longrightarrow> fetch_ok f \<Longrightarrow> wb_redis (cs_web s) (key_at c v f) = Some x \<Longrightarrow>
   v \<le> version c (wb_redis (cs_web s)) \<and> (\<exists>a. re_value x = RText a \<and> answers resp f a (cover v) (cs_commits s))"
  by (auto simp: cover_ok_def Let_def)

lemma store_ok:
  assumes ok: "cover_ok c resp cover s" and "colon_free (ca_namespace c)"
    and got: "cs_phase s p = Got f k v since" and put: "Cache_Put c k v e (cs_web s) = (r, w)"
  shows "cover_ok c resp cover (enter p (Served f v since) w s)"
proof -
  let ?ks = "wb_redis (cs_web s)"
  from cover_ok_phase [OF ok got] obtain n where n: "fetch_ok f" "n \<le> version c ?ks" "k = key_at c n f"
    "since \<le> cover n" "answers resp f v (cover n) (cs_commits s)" by auto
  have served: "phase_ok c resp cover (version c ?ks) (cs_commits s) (Served f v since)"
    using n(4,5) by (auto elim: answers_mono)
  from Cache_Put_run [OF _ put] consider "wb_redis w = ?ks" | t where "wb_redis w = redis_SET t k v 30000 ?ks"
    by (auto simp: n(3) key_at_nonempty)
  then show ?thesis
  proof cases
    case 1
    then show ?thesis by (rule cover_ok_enter [OF ok _ served])
  next
    case (2 t)
    let ?ks' = "redis_SET t k v 30000 ?ks"
    have "version_key c \<noteq> k"
      using cache_key_version [OF assms(2)] by (metis key_at_def n(3))
    then have v: "?ks' (version_key c) = ?ks (version_key c)" by (simp add: redis_SET_def)
    have "u \<le> version c ?ks \<and> (\<exists>a. re_value x = RText a \<and> answers resp g a (cover u) (cs_commits s))"
      if "fetch_ok g" "?ks' (key_at c u g) = Some x" for u g x
    proof (cases "key_at c u g = k")
      case True
      with n(1,3) that(1) have "u = n" "g = f" by (simp_all add: key_at_inject)
      with True that(2) n show ?thesis by (auto simp: redis_SET_def)
    next
      case False
      with that show ?thesis using cover_ok_entry [OF ok] by (simp add: redis_SET_def)
    qed
    then show ?thesis
      using ok 2 v served by (auto simp: cover_ok_def enter_def Let_def version_def version_ok_def)
  qed
qed

lemma invalidate_ok:
  assumes ok: "cover_ok c resp cover s" and "ca_enabled c" "ca_client c" "colon_free (ca_namespace c)"
    and inv: "Cache_Invalidate c e (cs_web s) = (Inr (), w)"
  shows "cover_ok c resp (cover(version c (wb_redis (cs_web s)) + 1 := cs_commits s))
    (s\<lparr>cs_web := w, cs_covered := cs_commits s\<rparr>)"
proof -
  let ?ks = "wb_redis (cs_web s)" and ?cur = "version c (wb_redis (cs_web s))"
  have vok: "version_ok c ?ks" and le: "cover v \<le> cs_commits s" for v
    using ok by (simp_all add: cover_ok_def Let_def)
  have w: "wb_redis w = ?ks(version_key c \<mapsto> \<lparr>re_value = RInt (?cur + 1), re_expires = None\<rparr>)"
    by (rule Cache_Invalidate_run [OF assms(2,3) vok inv])
  have pos: "0 \<le> ?cur" using vok by (auto simp: version_ok_def version_def)
  have "version c (wb_redis w) = ?cur + 1" by (simp add: version_def w)
  moreover have "version_ok c (wb_redis w)" using pos by (simp add: version_ok_def w)
  moreover have "v \<le> ?cur + 1 \<and> (\<exists>a. re_value x = RText a
      \<and> answers resp f a ((cover(?cur + 1 := cs_commits s)) v) (cs_commits s))"
    if "fetch_ok f" "wb_redis w (key_at c v f) = Some x" for v f x
  proof -
    have "key_at c v f \<noteq> version_key c" using cache_key_version [OF assms(4)] by (simp add: key_at_def)
    with that(2) w have "?ks (key_at c v f) = Some x" by simp
    from cover_ok_entry [OF ok that(1) this] show ?thesis by auto
  qed
  moreover have "phase_ok c resp (cover(?cur + 1 := cs_commits s)) (?cur + 1) (cs_commits s) (cs_phase s p)" for p
    by (rule phase_ok_mono [OF cover_ok_phase [OF ok refl]]) auto
  ultimately show ?thesis by (simp add: cover_ok_def Let_def le)
qed

lemma cover_step:
  assumes step: "cache_step e c resp s s'" and ok: "cover_ok c resp cover s"
    and c: "ca_enabled c" "ca_client c" "colon_free (ca_namespace c)"
  shows "\<exists>cover'. cover_ok c resp cover' s'"
  using step
proof cases
  case (ask p f k w)
  from Cache_Key_run [OF c(1,2) _ ask(4)] ok have
    "wb_redis w = wb_redis (cs_web s)" "k = key_at c (version c (wb_redis (cs_web s))) f"
    by (simp_all add: cover_ok_def Let_def key_at_def)
  moreover have "cover (version c (wb_redis (cs_web s))) = cs_covered s"
    using ok by (simp add: cover_ok_def Let_def)
  ultimately have "cover_ok c resp cover (enter p (Keyed f k (cs_covered s)) w s)"
    using ask(3) by (intro cover_ok_enter [OF ok]) auto
  with ask(1) show ?thesis by blast
next
  case (hit p f k since v w)
  from cover_ok_phase [OF ok hit(2)] obtain n where n: "fetch_ok f" "n \<le> version c (wb_redis (cs_web s))"
    "k = key_at c n f" "since \<le> cover n" by auto
  with Cache_Get_run [OF _ hit(3)] obtain x where x: "wb_redis w = wb_redis (cs_web s)"
    "wb_redis (cs_web s) k = Some x" "v = (case re_value x of RInt n \<Rightarrow> FormatInt n | RText s \<Rightarrow> s)"
    by (auto simp: key_at_nonempty)
  with cover_ok_entry [OF ok n(1)] n(3) have "answers resp f v (cover n) (cs_commits s)" by fastforce
  with n(4) have "answers resp f v since (cs_commits s)" by (auto elim: answers_mono)
  then have "cover_ok c resp cover s'"
    unfolding hit(1) by (intro cover_ok_enter [OF ok x(1)]) simp
  then show ?thesis by blast
next
  case (miss p f k since r w)
  from cover_ok_phase [OF ok miss(2)] have "k \<noteq> []" by (auto simp: key_at_nonempty)
  with Cache_Get_run [OF _ miss(3)] have "wb_redis w = wb_redis (cs_web s)" by simp
  with cover_ok_phase [OF ok miss(2)] have "cover_ok c resp cover s'"
    unfolding miss(1) by (intro cover_ok_enter [OF ok]) simp_all
  then show ?thesis by blast
next
  case (answer p f k since)
  have "cover v \<le> cs_commits s" for v using ok by (simp add: cover_ok_def Let_def)
  then have "answers resp f (resp f (cs_commits s)) (cover v) (cs_commits s)" for v
    by (auto simp: answers_def)
  with cover_ok_phase [OF ok answer(2)] have "cover_ok c resp cover s'"
    unfolding answer(1) by (intro cover_ok_enter [OF ok refl]) auto
  then show ?thesis by blast
next
  case (store p f k v since r w)
  with store_ok [OF ok c(3)] show ?thesis by blast
next
  case change
  have "phase_ok c resp cover (version c (wb_redis (cs_web s))) (Suc (cs_commits s)) (cs_phase s p)" for p
    by (rule phase_ok_mono [OF cover_ok_phase [OF ok refl]]) simp_all
  moreover have "v \<le> version c (wb_redis (cs_web s))
      \<and> (\<exists>a. re_value x = RText a \<and> answers resp f a (cover v) (Suc (cs_commits s)))"
    if "fetch_ok f" "wb_redis (cs_web s) (key_at c v f) = Some x" for v f x
    using cover_ok_entry [OF ok that]
      answers_mono [of resp f _ "cover v" "cs_commits s" "cover v" "Suc (cs_commits s)"] by auto
  moreover have "cover v \<le> Suc (cs_commits s)" for v
    using ok by (simp add: cover_ok_def Let_def le_SucI)
  ultimately have "cover_ok c resp cover s'"
    using ok unfolding change by (simp add: cover_ok_def Let_def)
  then show ?thesis by blast
next
  case (invalidate w)
  with invalidate_ok [OF ok c] show ?thesis by blast
next
  case (limit l grp key r b w)
  have "wb_redis w (version_key c) = wb_redis (cs_web s) (version_key c)"
    "wb_redis w (key_at c v f) = wb_redis (cs_web s) (key_at c v f)" for v f
    using Allow_apart [OF limit(3)] cache_key_limit [OF limit(2)] by (simp_all add: key_at_def)
  with ok show ?thesis
    by (intro exI [of _ cover]) (simp add: limit(1) cover_ok_def Let_def version_ok_def version_def)
next
  case (leave p)
  have "cover_ok c resp cover s'"
    unfolding leave by (rule cover_ok_enter [OF ok]) simp_all
  then show ?thesis by blast
qed

definition cache_start :: "cache \<Rightarrow> cached_system \<Rightarrow> bool" where
  "cache_start c s \<longleftrightarrow> wb_redis (cs_web s) (version_key c) = None
     \<and> (\<forall>v f. wb_redis (cs_web s) (key_at c v f) = None)
     \<and> cs_commits s = 0 \<and> cs_covered s = 0 \<and> (\<forall>p. cs_phase s p = Idle)"

lemma cover_reach:
  assumes "(cache_step e c resp)\<^sup>*\<^sup>* s0 s" "cache_start c s0"
    and "ca_enabled c" "ca_client c" "colon_free (ca_namespace c)"
  shows "\<exists>cover. cover_ok c resp cover s"
  using assms(1)
proof induction
  case base
  have "cover_ok c resp (\<lambda>_. 0) s0"
    using assms(2) by (simp add: cache_start_def cover_ok_def Let_def version_ok_def)
  then show ?case by blast
next
  case (step s s')
  then show ?case using cover_step [OF step(2) _ assms(3-5)] by blast
qed

text \<open>C31. However requests, changes of the data, invalidations and other uses of Redis interleave, a
  response is one to the request's own endpoint, caller and URL, and it is current as of some moment
  after the last invalidation that was complete when the request got its key: who has seen a change
  succeed never gets an older response afterwards.\<close>

theorem cache_serves_fresh:
  assumes "(cache_step e c resp)\<^sup>*\<^sup>* s0 s" "cache_start c s0"
    and "ca_enabled c" "ca_client c" "colon_free (ca_namespace c)"
    and "cs_phase s p = Served f v since"
  shows "\<exists>n. since \<le> n \<and> n \<le> cs_commits s \<and> v = resp f n"
proof -
  from cover_reach [OF assms(1-5)] obtain cover where "cover_ok c resp cover s" by blast
  from cover_ok_phase [OF this assms(6)] show ?thesis by (simp add: answers_def)
qed

definition sample_cache :: cache where
  "sample_cache = \<lparr>ca_client = True, ca_enabled = True, ca_namespace = ''app''\<rparr>"

definition sample_fetch :: fetch where
  "sample_fetch = \<lparr>ft_endpoint = ''role.list'', ft_actor = ''u1'', ft_url = ''/api/roles''\<rparr>"

definition sample_cached :: cached_system where
  "sample_cached = \<lparr>cs_web = sample_web, cs_commits = 0, cs_covered = 0, cs_phase = \<lambda>_. Idle\<rparr>"

definition sample_resp :: "fetch \<Rightarrow> nat \<Rightarrow> bytes" where
  "sample_resp f n = replicate n (CHR ''x'')"

theorem cache_serves_fresh_witness:
  "\<exists>s v. (cache_step sample_web_env sample_cache sample_resp)\<^sup>*\<^sup>* sample_cached s
     \<and> cs_phase s 7 = Served sample_fetch v 1 \<and> (\<exists>n. 1 \<le> n \<and> n \<le> cs_commits s \<and> v = sample_resp sample_fetch n)"
proof -
  let ?R = "cache_step sample_web_env sample_cache sample_resp"
  let ?s1 = "sample_cached\<lparr>cs_commits := 1\<rparr>"
  obtain w1 where w1: "Cache_Invalidate sample_cache sample_web_env sample_web = (Inr (), w1)"
    by (simp add: Cache_Invalidate_def sample_cache_def bindW_def redis_def sample_web_env_def sample_env_def
        redis_INCR_def live_def sample_web_def returnW_def)
  let ?s2 = "?s1\<lparr>cs_web := w1, cs_covered := 1\<rparr>"
  obtain k w2 where w2: "Cache_Key sample_cache ''role.list'' ''u1'' ''/api/roles'' sample_web_env w1 = (Inr k, w2)"
    by (simp add: Cache_Key_def sample_cache_def bindW_def redis_def sample_web_env_def sample_env_def returnW_def
        split: option.split)
  let ?s3 = "enter 7 (Keyed sample_fetch k 1) w2 ?s2"
  obtain r w3 where w3: "Cache_Get sample_cache k sample_web_env w2 = (r, w3)" by fastforce
  let ?s4 = "enter 7 (Missed sample_fetch k 1) w3 ?s3"
  let ?s5 = "enter 7 (Got sample_fetch k (sample_resp sample_fetch 1) 1) w3 ?s4"
  obtain q w4 where w4: "Cache_Put sample_cache k (sample_resp sample_fetch 1) sample_web_env w3 = (q, w4)" by fastforce
  let ?s6 = "enter 7 (Served sample_fetch (sample_resp sample_fetch 1) 1) w4 ?s5"
  have "?R sample_cached ?s1"
    using cache_step.change [of sample_web_env sample_cache sample_resp sample_cached] by (simp add: sample_cached_def)
  moreover have "?R ?s1 ?s2"
    using cache_step.invalidate [of sample_cache sample_web_env ?s1 w1] w1 by (simp add: sample_cached_def)
  moreover have "?R ?s2 ?s3"
    using cache_step.ask [of ?s2 7 sample_fetch sample_cache sample_web_env k w2 sample_resp] w2
    by (simp add: sample_cached_def sample_fetch_def fetch_ok_def colon_free_def)
  moreover have "?R ?s3 ?s4"
    using cache_step.miss [of ?s3 7 sample_fetch k 1 sample_cache sample_web_env r w3] w3 by (simp add: enter_def)
  moreover have "?R ?s4 ?s5"
    using cache_step.answer [of ?s4 7 sample_fetch k 1 sample_web_env sample_cache sample_resp]
    by (simp add: enter_def sample_cached_def)
  moreover have "?R ?s5 ?s6"
    using cache_step.store [of ?s5 7 sample_fetch k "sample_resp sample_fetch 1" 1 sample_cache sample_web_env q w4] w4
    by (simp add: enter_def)
  ultimately have run: "?R\<^sup>*\<^sup>* sample_cached ?s6" by (meson converse_rtranclp_into_rtranclp rtranclp.rtrancl_refl)
  have "cs_phase ?s6 7 = Served sample_fetch (sample_resp sample_fetch 1) 1" by (simp add: enter_def)
  moreover from cache_serves_fresh [OF run _ _ _ _ this]
  have "\<exists>n. 1 \<le> n \<and> n \<le> cs_commits ?s6 \<and> sample_resp sample_fetch 1 = sample_resp sample_fetch n"
    by (simp add: cache_start_def sample_cached_def sample_web_def sample_cache_def colon_free_def)
  ultimately show ?thesis using run by blast
qed

end
