(* ===== verification/Registry.thy ===== *)
theory Registry
  imports RateLimit
begin

text \<open>
  \<open>internal/httpapi/registry.go\<close>: the table of endpoints, with who may call each, how it is audited,
  cached and limited, and \<open>Resolve\<close>, which applies the overrides of the configuration.  The
  enumerations are Go strings, and an override may hold any string, so they are byte strings here.
  A Go map from the configuration is the list of its entries in the order \<open>range\<close> meets them.
\<close>

definition AuditRequired :: bytes where "AuditRequired = ''required''"
definition AuditOptional :: bytes where "AuditOptional = ''optional''"
definition AuditNone :: bytes where "AuditNone = ''none''"
definition CacheRead :: bytes where "CacheRead = ''read''"
definition CacheOff :: bytes where "CacheOff = ''off''"
definition RateAuth :: bytes where "RateAuth = ''auth''"
definition RatePublic :: bytes where "RatePublic = ''public''"
definition RateInternal :: bytes where "RateInternal = ''internal''"
definition AuditTransaction :: bytes where "AuditTransaction = ''transaction''"
definition AuditRead :: bytes where "AuditRead = ''read''"
definition AuditUnsupported :: bytes where "AuditUnsupported = ''none''"

lemmas registry_strings = AuditRequired_def AuditOptional_def AuditNone_def CacheRead_def CacheOff_def
  RateAuth_def RatePublic_def RateInternal_def AuditTransaction_def AuditRead_def AuditUnsupported_def

record endpoint =
  ep_ID :: bytes
  ep_Method :: bytes
  ep_Path :: bytes
  ep_Module :: bytes
  ep_Summary :: bytes
  ep_Permission :: bytes
  ep_Public :: bool
  ep_Audit :: bytes
  ep_Cache :: bytes
  ep_Rate :: bytes
  ep_Status :: int
  ep_AuditCapability :: bytes

definition Definitions :: "endpoint list" where
  "Definitions = [
    endpoint.make ''health.get'' ''GET'' ''/health'' ''system''
      ''Health check'' [] True AuditNone CacheOff RatePublic 200 AuditRead,
    endpoint.make ''live.get'' ''GET'' ''/live'' ''system''
      ''Process liveness'' [] True AuditNone CacheOff RatePublic 200 AuditRead,
    endpoint.make ''ready.get'' ''GET'' ''/ready'' ''system''
      ''Dependency readiness'' [] True AuditNone CacheOff RatePublic 200 AuditRead,
    endpoint.make ''docs.ui'' ''GET'' ''/docs'' ''docs''
      ''API documentation'' [] True AuditNone CacheOff RatePublic 200 AuditRead,
    endpoint.make ''docs.spec'' ''GET'' ''/docs/openapi.json'' ''docs''
      ''OpenAPI specification'' [] True AuditNone CacheOff RatePublic 200 AuditRead,
    endpoint.make ''docs.moduleSpec'' ''GET'' ''/docs/specs/{module}.json'' ''docs''
      ''Module specification'' [] True AuditNone CacheOff RatePublic 200 AuditRead,
    endpoint.make ''auth.register'' ''POST'' ''/api/auth/register'' ''auth''
      ''Register account'' [] True AuditRequired CacheOff RateAuth 201 AuditTransaction,
    endpoint.make ''auth.login'' ''POST'' ''/api/auth/login'' ''auth''
      ''Login'' [] True AuditOptional CacheOff RateAuth 200 AuditTransaction,
    endpoint.make ''auth.refresh'' ''POST'' ''/api/auth/refresh'' ''auth''
      ''Rotate refresh token'' [] True AuditRequired CacheOff RateAuth 200 AuditTransaction,
    endpoint.make ''auth.logout'' ''POST'' ''/api/auth/logout'' ''auth''
      ''Revoke refresh family'' [] True AuditOptional CacheOff RateAuth 204 AuditTransaction,
    endpoint.make ''auth.me'' ''GET'' ''/api/auth/me'' ''auth''
      ''Current user'' [] False AuditNone CacheOff RateInternal 200 AuditRead,
    endpoint.make ''user.list'' ''GET'' ''/api/users'' ''user''
      ''List users'' ''manage_users'' False AuditNone CacheRead RateInternal 200 AuditRead,
    endpoint.make ''user.get'' ''GET'' ''/api/users/{id}'' ''user''
      ''Get user'' ''manage_users'' False AuditNone CacheRead RateInternal 200 AuditRead,
    endpoint.make ''user.create'' ''POST'' ''/api/users'' ''user''
      ''Create user'' ''manage_users'' False AuditRequired CacheOff RateInternal 201 AuditTransaction,
    endpoint.make ''user.update'' ''PATCH'' ''/api/users/{id}'' ''user''
      ''Update user'' ''manage_users'' False AuditRequired CacheOff RateInternal 200 AuditTransaction,
    endpoint.make ''user.delete'' ''DELETE'' ''/api/users/{id}'' ''user''
      ''Delete user'' ''manage_users'' False AuditRequired CacheOff RateInternal 204 AuditTransaction,
    endpoint.make ''role.list'' ''GET'' ''/api/roles'' ''roles''
      ''List roles'' ''manage_roles'' False AuditNone CacheRead RateInternal 200 AuditRead,
    endpoint.make ''role.get'' ''GET'' ''/api/roles/{id}'' ''roles''
      ''Get role'' ''manage_roles'' False AuditNone CacheRead RateInternal 200 AuditRead,
    endpoint.make ''role.create'' ''POST'' ''/api/roles'' ''roles''
      ''Create role'' ''manage_roles'' False AuditRequired CacheOff RateInternal 201 AuditTransaction,
    endpoint.make ''role.update'' ''PATCH'' ''/api/roles/{id}'' ''roles''
      ''Update role'' ''manage_roles'' False AuditRequired CacheOff RateInternal 200 AuditTransaction,
    endpoint.make ''role.delete'' ''DELETE'' ''/api/roles/{id}'' ''roles''
      ''Delete role'' ''manage_roles'' False AuditRequired CacheOff RateInternal 204 AuditTransaction,
    endpoint.make ''role.assignPermissions'' ''POST'' ''/api/roles/{id}/permissions'' ''roles''
      ''Assign permissions'' ''manage_roles'' False AuditRequired CacheOff RateInternal 200 AuditTransaction,
    endpoint.make ''permission.list'' ''GET'' ''/api/permissions'' ''permissions''
      ''List permissions'' ''manage_permissions'' False AuditNone CacheRead RateInternal 200 AuditRead,
    endpoint.make ''permission.get'' ''GET'' ''/api/permissions/{id}'' ''permissions''
      ''Get permission'' ''manage_permissions'' False AuditNone CacheRead RateInternal 200 AuditRead,
    endpoint.make ''permission.create'' ''POST'' ''/api/permissions'' ''permissions''
      ''Create permission'' ''manage_permissions'' False AuditRequired CacheOff RateInternal 201 AuditTransaction,
    endpoint.make ''permission.update'' ''PATCH'' ''/api/permissions/{id}'' ''permissions''
      ''Update permission'' ''manage_permissions'' False AuditRequired CacheOff RateInternal 200 AuditTransaction,
    endpoint.make ''permission.delete'' ''DELETE'' ''/api/permissions/{id}'' ''permissions''
      ''Delete permission'' ''manage_permissions'' False AuditRequired CacheOff RateInternal 204 AuditTransaction,
    endpoint.make ''upload.create'' ''POST'' ''/api/upload'' ''upload''
      ''Upload file'' ''manage_uploads'' False AuditRequired CacheOff RateInternal 201 AuditTransaction,
    endpoint.make ''upload.get'' ''GET'' ''/api/upload/{id}'' ''upload''
      ''Get file metadata'' ''manage_uploads'' False AuditNone CacheRead RateInternal 200 AuditRead,
    endpoint.make ''notification.create'' ''POST'' ''/api/notifications'' ''notifications''
      ''Create notification'' ''manage_notifications'' False AuditRequired CacheOff RateInternal 201 AuditTransaction,
    endpoint.make ''notification.list'' ''GET'' ''/api/notifications'' ''notifications''
      ''List own notifications'' [] False AuditNone CacheOff RateInternal 200 AuditRead,
    endpoint.make ''notification.read'' ''PATCH'' ''/api/notifications/{id}/read'' ''notifications''
      ''Mark own notification read'' [] False AuditRequired CacheOff RateInternal 200 AuditTransaction,
    endpoint.make ''notification.stream'' ''GET'' ''/api/notifications/stream'' ''notifications''
      ''Stream own notifications'' [] False AuditNone CacheOff RateInternal 200 AuditUnsupported]"

record policy_override =
  po_Audit :: bytes
  po_RateLimit :: bytes
  po_Cache :: bytes

text \<open>The override of one endpoint, one field after the other.\<close>

definition override_audit :: "policy_override \<Rightarrow> endpoint \<Rightarrow> goerr + endpoint" where
  "override_audit po base = (if po_Audit po = [] then Inr base
     else let mode = po_Audit po in
       if mode \<noteq> AuditRequired \<and> mode \<noteq> AuditOptional \<and> mode \<noteq> AuditNone
       then Inl (OtherError (''invalid audit policy for '' @ ep_ID base))
       else if ep_AuditCapability base \<noteq> AuditTransaction \<and> mode = AuditRequired
       then Inl (OtherError (''required GET audit producer missing for '' @ ep_ID base))
       else if mode \<noteq> AuditNone \<and> ep_AuditCapability base = AuditUnsupported
       then Inl (OtherError (''audit producer missing for '' @ ep_ID base))
       else Inr (base\<lparr>ep_Audit := mode\<rparr>))"

definition override_rate :: "(bytes \<times> rate) list \<Rightarrow> policy_override \<Rightarrow> endpoint \<Rightarrow> goerr + endpoint" where
  "override_rate rates po base = (if po_RateLimit po = [] then Inr base
     else if map_of rates (po_RateLimit po) = None then Inl (OtherError (''invalid rate group for '' @ ep_ID base))
     else Inr (base\<lparr>ep_Rate := po_RateLimit po\<rparr>))"

definition override_cache :: "policy_override \<Rightarrow> endpoint \<Rightarrow> goerr + endpoint" where
  "override_cache po base = (if po_Cache po = [] then Inr base
     else let mode = po_Cache po in
       if mode \<noteq> CacheRead \<and> mode \<noteq> CacheOff then Inl (OtherError (''invalid cache policy for '' @ ep_ID base))
       else if ep_Method base \<noteq> ''GET'' \<and> mode = CacheRead then Inl (OtherError ''cache read only allowed for GET'')
       else Inr (base\<lparr>ep_Cache := mode\<rparr>))"

definition and_then :: "'e + 'a \<Rightarrow> ('a \<Rightarrow> 'e + 'b) \<Rightarrow> 'e + 'b" where
  "and_then r f = (case r of Inl x \<Rightarrow> Inl x | Inr a \<Rightarrow> f a)"

definition apply_override :: "(bytes \<times> rate) list \<Rightarrow> policy_override \<Rightarrow> endpoint \<Rightarrow> goerr + endpoint" where
  "apply_override rates po base =
     and_then (override_audit po base) (\<lambda>b. and_then (override_rate rates po b) (override_cache po))"

text \<open>The loop over the table, with the endpoints and the routes seen so far.\<close>

fun resolve_loop :: "(bytes \<times> rate) list \<Rightarrow> (bytes \<times> policy_override) list \<Rightarrow> endpoint list \<Rightarrow>
    (bytes \<times> endpoint) list \<Rightarrow> bytes list \<Rightarrow> goerr + (bytes \<times> endpoint) list" where
  "resolve_loop rates policies [] result routes = Inr result"
| "resolve_loop rates policies (base # rest) result routes =
     (if map_of result (ep_ID base) \<noteq> None then Inl (OtherError (''duplicate endpoint ID '' @ ep_ID base))
      else let key = ep_Method base @ '' '' @ ep_Path base in
        if key \<in> set routes then Inl (OtherError (''duplicate route '' @ key))
        else if map_of rates (ep_Rate base) = None then Inl (OtherError (''missing rate group for '' @ ep_ID base))
        else and_then (case map_of policies (ep_ID base) of None \<Rightarrow> Inr base
             | Some po \<Rightarrow> apply_override rates po base) (\<lambda>base'.
          resolve_loop rates policies rest (put (ep_ID base') base' result) (key # routes)))"

definition Resolve :: "(bytes \<times> rate) list \<Rightarrow> (bytes \<times> policy_override) list \<Rightarrow> goerr + (bytes \<times> endpoint) list" where
  "Resolve rates policies = and_then (resolve_loop rates policies Definitions [] []) (\<lambda>result.
     case find (\<lambda>(i, po). map_of result i = None) policies of
       Some (i, po) \<Rightarrow> Inl (OtherError (''unknown endpoint policy override '' @ i))
     | None \<Rightarrow> Inr result)"

subsection \<open>What a resolved registry guarantees\<close>

text \<open>The modes are among those the code knows, and the endpoint is able to carry them out.\<close>

definition modes_ok :: "endpoint \<Rightarrow> bool" where
  "modes_ok x \<longleftrightarrow> (ep_Audit x = AuditRequired \<or> ep_Audit x = AuditOptional \<or> ep_Audit x = AuditNone)
     \<and> (if ep_Audit x = AuditRequired then ep_AuditCapability x = AuditTransaction else True)
     \<and> (if ep_AuditCapability x = AuditUnsupported then ep_Audit x = AuditNone else True)
     \<and> (ep_Cache x = CacheRead \<or> ep_Cache x = CacheOff)
     \<and> (if ep_Cache x = CacheRead then ep_Method x = ''GET'' else True)"

definition same_access :: "endpoint \<Rightarrow> endpoint \<Rightarrow> bool" where
  "same_access b x \<longleftrightarrow> x = b\<lparr>ep_Audit := ep_Audit x, ep_Cache := ep_Cache x, ep_Rate := ep_Rate x\<rparr>"

text \<open>
  Who is let in: a public endpoint only reads or belongs to \<open>auth\<close>; every endpoint that manages
  accounts, roles, permissions or files asks for the permission of its module.
\<close>

definition guarded_endpoint :: "endpoint \<Rightarrow> bool" where
  "guarded_endpoint x \<longleftrightarrow>
     (if ep_Public x then ep_Method x = ''GET'' \<or> ep_Module x = ''auth'' else True)
     \<and> (if ep_Method x \<noteq> ''GET'' then ep_AuditCapability x = AuditTransaction else True)
     \<and> (if ep_Module x = ''user'' then ep_Permission x = ''manage_users'' else True)
     \<and> (if ep_Module x = ''roles'' then ep_Permission x = ''manage_roles'' else True)
     \<and> (if ep_Module x = ''permissions'' then ep_Permission x = ''manage_permissions'' else True)
     \<and> (if ep_Module x = ''upload'' then ep_Permission x = ''manage_uploads'' else True)
     \<and> (if ep_Permission x \<noteq> [] then \<not> ep_Public x else True)"

lemma Definitions_modes: "list_all modes_ok Definitions"
  by code_simp

lemma Definitions_guarded: "list_all guarded_endpoint Definitions"
  by code_simp

lemma Definitions_distinct: "distinct (map ep_ID Definitions)"
  by code_simp

lemma and_then_Inr [simp]: "and_then r f = Inr b \<longleftrightarrow> (\<exists>a. r = Inr a \<and> f a = Inr b)"
  by (cases r) (simp_all add: and_then_def)

lemma registry_distinct [simp]:
  "AuditRequired \<noteq> AuditNone" "AuditOptional \<noteq> AuditRequired" "AuditRequired \<noteq> AuditOptional"
  "AuditUnsupported \<noteq> AuditTransaction" "CacheOff \<noteq> CacheRead"
  "AuditNone \<noteq> AuditRequired" "AuditTransaction \<noteq> AuditUnsupported" "CacheRead \<noteq> CacheOff"
  by (simp_all add: registry_strings)

lemma override_audit_ok:
  "override_audit po b = Inr x \<Longrightarrow> modes_ok b \<Longrightarrow>
   modes_ok x \<and> same_access b x \<and> ep_Rate x = ep_Rate b"
  by (auto simp: override_audit_def modes_ok_def same_access_def Let_def split: if_splits)

lemma override_rate_ok:
  "override_rate rates po b = Inr x \<Longrightarrow> modes_ok b \<Longrightarrow> map_of rates (ep_Rate b) \<noteq> None \<Longrightarrow>
   modes_ok x \<and> same_access b x \<and> map_of rates (ep_Rate x) \<noteq> None"
  by (auto simp: override_rate_def modes_ok_def same_access_def split: if_splits)

lemma override_cache_ok:
  "override_cache po b = Inr x \<Longrightarrow> modes_ok b \<Longrightarrow> modes_ok x \<and> same_access b x \<and> ep_Rate x = ep_Rate b"
  by (auto simp: override_cache_def modes_ok_def same_access_def Let_def split: if_splits)

lemma same_access_trans: "same_access a b \<Longrightarrow> same_access b c \<Longrightarrow> same_access a c"
  by (cases a; cases b; cases c) (simp add: same_access_def)

lemma same_access_refl [simp]: "same_access b b"
  by (simp add: same_access_def)

lemma apply_override_ok:
  assumes "apply_override rates po b = Inr x" "modes_ok b" "map_of rates (ep_Rate b) \<noteq> None"
  shows "modes_ok x \<and> same_access b x \<and> map_of rates (ep_Rate x) \<noteq> None"
proof -
  from assms(1) obtain b1 b2 where "override_audit po b = Inr b1" "override_rate rates po b1 = Inr b2"
    "override_cache po b2 = Inr x" by (auto simp: apply_override_def)
  with override_audit_ok [of po b b1] override_rate_ok [of rates po b1 b2] override_cache_ok [of po b2 x] assms(2,3)
  show ?thesis by (auto intro: same_access_trans)
qed

lemma same_access_ID: "same_access b x \<Longrightarrow> ep_ID x = ep_ID b"
  by (cases b; cases x) (simp add: same_access_def)

lemma resolve_loop_ok:
  "resolve_loop rates policies bs result routes = Inr out \<Longrightarrow> list_all modes_ok bs \<Longrightarrow>
   \<exists>xs. out = result @ map (\<lambda>x. (ep_ID x, x)) xs
     \<and> list_all2 (\<lambda>b x. modes_ok x \<and> same_access b x \<and> map_of rates (ep_Rate x) \<noteq> None) bs xs"
proof (induction rates policies bs result routes rule: resolve_loop.induct)
  case (1 rates policies result routes)
  then show ?case by simp
next
  case (2 rates policies base rest result routes)
  let ?key = "ep_Method base @ '' '' @ ep_Path base"
  from 2(2) have new: "map_of result (ep_ID base) = None" "?key \<notin> set routes" "map_of rates (ep_Rate base) \<noteq> None"
    by (auto simp: Let_def split: if_splits)
  with 2(2) obtain x where x: "(case map_of policies (ep_ID base) of None \<Rightarrow> Inr base
       | Some po \<Rightarrow> apply_override rates po base) = Inr x"
    and loop: "resolve_loop rates policies rest (put (ep_ID x) x result) (?key # routes) = Inr out"
    by (auto simp: Let_def)
  have good: "modes_ok x \<and> same_access base x \<and> map_of rates (ep_Rate x) \<noteq> None"
    using x new(3) 2(3) apply_override_ok [of rates _ base x] by (auto split: option.splits)
  with new(1) have "put (ep_ID x) x result = result @ [(ep_ID x, x)]"
    using same_access_ID [of base x] by (simp add: put_absent)
  from 2(1) [OF _ refl new(2) new(3) loop] new(1) 2(3) obtain xs where
    "out = put (ep_ID x) x result @ map (\<lambda>x. (ep_ID x, x)) xs"
    "list_all2 (\<lambda>b x. modes_ok x \<and> same_access b x \<and> map_of rates (ep_Rate x) \<noteq> None) rest xs"
    by auto
  with good \<open>put (ep_ID x) x result = _\<close> show ?case by (intro exI [of _ "x # xs"]) simp
qed

lemma same_access_fields:
  assumes "same_access b x"
  shows "ep_Method x = ep_Method b" "ep_Module x = ep_Module b" "ep_Permission x = ep_Permission b"
    "ep_Public x = ep_Public b" "ep_AuditCapability x = ep_AuditCapability b"
  using assms by (cases b; cases x; simp add: same_access_def)+

lemma same_access_guarded: "same_access b x \<Longrightarrow> guarded_endpoint b \<Longrightarrow> guarded_endpoint x"
  using same_access_fields [of b x] by (simp add: guarded_endpoint_def)

lemma list_all2_guarded: "list_all2 (\<lambda>b x. modes_ok x \<and> same_access b x \<and> G x) bs xs \<Longrightarrow>
    list_all guarded_endpoint bs \<Longrightarrow> map ep_ID xs = map ep_ID bs \<and> list_all modes_ok xs
      \<and> list_all2 same_access bs xs \<and> list_all guarded_endpoint xs \<and> list_all G xs"
  by (induction bs xs rule: list_all2_induct) (auto simp: same_access_ID intro: same_access_guarded)

text \<open>C32. Whatever the configuration overrides, a registry that \<open>Resolve\<close> accepts has exactly the
  endpoints of the table, each with its method, path, module, permission and publicity untouched; only
  \<open>GET\<close> endpoints are cached, only transactional ones audited as required, a stream is not audited,
  every rate group exists; and no endpoint that changes something outside \<open>auth\<close> is public.\<close>

theorem Resolve_sound:
  assumes "Resolve rates policies = Inr result"
  shows "\<exists>xs. result = map (\<lambda>x. (ep_ID x, x)) xs \<and> map ep_ID xs = map ep_ID Definitions
    \<and> list_all2 same_access Definitions xs \<and> list_all modes_ok xs \<and> list_all guarded_endpoint xs
    \<and> list_all (\<lambda>x. map_of rates (ep_Rate x) \<noteq> None) xs
    \<and> list_all (\<lambda>(i, po). i \<in> ep_ID ` set Definitions) policies"
proof -
  from assms have loop: "resolve_loop rates policies Definitions [] [] = Inr result"
    and known: "find (\<lambda>(i, po). map_of result i = None) policies = None"
    by (cases "find (\<lambda>(i, po). map_of result i = None) policies";
        force simp: Resolve_def split: option.splits)+
  from resolve_loop_ok [OF loop Definitions_modes] obtain xs where xs: "result = map (\<lambda>x. (ep_ID x, x)) xs"
    "list_all2 (\<lambda>b x. modes_ok x \<and> same_access b x \<and> map_of rates (ep_Rate x) \<noteq> None) Definitions xs"
    by auto
  note good = list_all2_guarded [OF xs(2) Definitions_guarded]
  have "fst ` set result = ep_ID ` set Definitions"
    using good xs(1) by (metis (no_types, lifting) image_set list.map_comp comp_def fst_conv map_eq_conv)
  then have "list_all (\<lambda>(i, po). i \<in> ep_ID ` set Definitions) policies"
    using known by (auto simp: find_None_iff list_all_iff map_of_eq_None_iff)
  with good xs(1) show ?thesis by blast
qed

definition sample_groups :: "(bytes \<times> rate) list" where
  "sample_groups = [(''auth'', sample_rates ''auth''), (''public'', sample_rates ''public''), (''internal'', sample_rates ''internal'')]"

definition sample_overrides :: "(bytes \<times> policy_override) list" where
  "sample_overrides = [(''role.get'', \<lparr>po_Audit = ''optional'', po_RateLimit = ''public'', po_Cache = ''off''\<rparr>)]"

theorem Resolve_sound_witness:
  "case Resolve sample_groups sample_overrides of Inl x \<Rightarrow> False
   | Inr result \<Rightarrow> map fst result = map ep_ID Definitions \<and> list_all modes_ok (map snd result)
       \<and> map_of result ''role.get'' \<noteq> map_of (map (\<lambda>x. (ep_ID x, x)) Definitions) ''role.get''"
proof -
  have "case Resolve sample_groups sample_overrides of Inl x \<Rightarrow> False
   | Inr result \<Rightarrow> map_of result ''role.get'' \<noteq> map_of (map (\<lambda>x. (ep_ID x, x)) Definitions) ''role.get''"
    by code_simp
  then obtain result where r: "Resolve sample_groups sample_overrides = Inr result"
    "map_of result ''role.get'' \<noteq> map_of (map (\<lambda>x. (ep_ID x, x)) Definitions) ''role.get''"
    by (auto split: sum.splits)
  from Resolve_sound [OF r(1)] r show ?thesis by (auto simp: comp_def)
qed

end
