(* ===== verification/Upload.thy ===== *)
theory Upload
  imports RateLimit CleanupProperties
begin

text \<open>
  \<open>internal/storage/storage.go\<close> and \<open>internal/upload/service.go\<close>: objects are written to a directory
  or to S3, and a row of \<open>stored_files\<close> refers to each; \<open>cmd/cleanup-uploads\<close> deletes objects no row
  refers to.  A call to the object store may fail, and a failed one may have happened all the same:
  \<open>left_behind\<close> says what a failed write has left.  The interface \<open>storage.Storage\<close> is the locale
  \<open>object_store\<close>, with the two implementations as interpretations.
\<close>

datatype storage = Local | S3

type_synonym objects = "(bytes \<times> (bytes \<times> instant)) list"

definition valid_key :: "bytes \<Rightarrow> bool" where
  "valid_key key \<longleftrightarrow> \<not> (key = [] \<or> CHR ''/'' \<in> set key \<or> CHR 0x5C \<in> set key \<or> key = ''.'' \<or> key = ''..'')"

text \<open>A write that the store accepts or that fails, possibly after it has written something.\<close>

definition write_object :: "bytes \<Rightarrow> bytes \<Rightarrow> (goerr, unit) wop" where
  "write_object key content = (\<lambda>e w. let now = app_now (on_env e) (at_tick w) in
     case fault_at (on_env e) (at_tick w) of
       None \<Rightarrow> (Inr (), (pass w)\<lparr>wb_objects := put key (content, now) (wb_objects w)\<rparr>)
     | Some x \<Rightarrow> (Inl x, (pass w)\<lparr>wb_objects := (case left_behind e (at_tick w) of
           None \<Rightarrow> wb_objects w | Some part \<Rightarrow> put key (part, now) (wb_objects w))\<rparr>))"

definition remove_object :: "bytes \<Rightarrow> (goerr, unit) wop" where
  "remove_object key = (\<lambda>e w. let rest = filter (\<lambda>(k, x). k \<noteq> key) (wb_objects w) in
     case fault_at (on_env e) (at_tick w) of
       None \<Rightarrow> (Inr (), (pass w)\<lparr>wb_objects := rest\<rparr>)
     | Some x \<Rightarrow> (Inl x, (pass w)\<lparr>wb_objects :=
         (if left_behind e (at_tick w) = None then rest else wb_objects w)\<rparr>))"

text \<open>\<open>O_EXCL\<close>: a file that exists is not overwritten.  Removing a file that is not there succeeds.\<close>

definition Local_Put :: "bytes \<Rightarrow> bytes \<Rightarrow> (goerr, unit) wop" where
  "Local_Put key content = (\<lambda>e w.
     if \<not> valid_key key then (Inl (OtherError ''invalid object key''), w)
     else if map_of (wb_objects w) key \<noteq> None then (Inl (OtherError ''file exists''), pass w)
     else write_object key content e w)"

definition Local_Delete :: "bytes \<Rightarrow> (goerr, unit) wop" where
  "Local_Delete key = (\<lambda>e w.
     if \<not> valid_key key then (Inl (OtherError ''invalid object key''), w) else remove_object key e w)"

definition S3_Put :: "bytes \<Rightarrow> bytes \<Rightarrow> (goerr, unit) wop" where
  "S3_Put key content = write_object key content"

definition S3_Delete :: "bytes \<Rightarrow> (goerr, unit) wop" where
  "S3_Delete key = remove_object key"

fun store_Put :: "storage \<Rightarrow> bytes \<Rightarrow> bytes \<Rightarrow> (goerr, unit) wop" where
  "store_Put Local = Local_Put" | "store_Put S3 = S3_Put"

fun store_Delete :: "storage \<Rightarrow> bytes \<Rightarrow> (goerr, unit) wop" where
  "store_Delete Local = Local_Delete" | "store_Delete S3 = S3_Delete"

text \<open>The keys of objects last changed before a time, in the order both listings have.\<close>

definition ListOlder :: "instant \<Rightarrow> (goerr, bytes list) wop" where
  "ListOlder before = (\<lambda>e w. case fault_at (on_env e) (at_tick w) of
     Some x \<Rightarrow> (Inl x, pass w)
   | None \<Rightarrow> (Inr (sort (map fst (filter (\<lambda>(k, content, modified). modified < before) (wb_objects w)))), pass w))"

subsection \<open>The interface\<close>

definition has_object :: "web \<Rightarrow> bytes \<Rightarrow> bool" where
  "has_object w key \<longleftrightarrow> map_of (wb_objects w) key \<noteq> None"

locale object_store =
  fixes put_object :: "bytes \<Rightarrow> bytes \<Rightarrow> (goerr, unit) wop"
    and delete_object :: "bytes \<Rightarrow> (goerr, unit) wop"
  assumes put_frame: "put_object key content e w = (r, w') \<Longrightarrow> db (wb_world w') = db (wb_world w)
      \<and> (\<forall>k. k \<noteq> key \<longrightarrow> map_of (wb_objects w') k = map_of (wb_objects w) k)"
    and put_stores: "put_object key content e w = (Inr (), w') \<Longrightarrow> \<exists>t. map_of (wb_objects w') key = Some (content, t)"
    and put_keeps: "put_object key content e w = (r, w') \<Longrightarrow> has_object w key \<Longrightarrow> has_object w' key"
    and put_clean: "put_object key content e w = (Inl x, w') \<Longrightarrow> \<forall>n. left_behind e n = None \<Longrightarrow>
      map_of (wb_objects w') = map_of (wb_objects w)"
    and delete_frame: "delete_object key e w = (r, w') \<Longrightarrow> db (wb_world w') = db (wb_world w)
      \<and> (\<forall>k. k \<noteq> key \<longrightarrow> map_of (wb_objects w') k = map_of (wb_objects w) k)"
    and delete_removes: "delete_object key e w = (Inr (), w') \<Longrightarrow> \<not> has_object w' key"
    and delete_clean: "delete_object key e w = (r, w') \<Longrightarrow> valid_key key \<Longrightarrow> \<forall>n. left_behind e n = None \<Longrightarrow>
      \<not> has_object w' key"
begin

text \<open>What is written under a new key and deleted again is gone, and nothing else is touched.\<close>

lemma put_delete:
  assumes "put_object key content e w = (r, w1)" "wb_objects w2 = wb_objects w1" "delete_object key e w2 = (q, w3)"
    and "\<not> has_object w key" "valid_key key" "\<forall>n. left_behind e n = None"
  shows "map_of (wb_objects w3) = map_of (wb_objects w)"
proof
  fix k
  show "map_of (wb_objects w3) k = map_of (wb_objects w) k"
  proof (cases "k = key")
    case True
    with delete_clean [OF assms(3,5,6)] assms(4) show ?thesis by (metis has_object_def)
  next
    case False
    with put_frame [OF assms(1)] delete_frame [OF assms(3)] assms(2) show ?thesis by simp
  qed
qed

end

lemma map_of_filter_key: "map_of (filter (\<lambda>(k, x). k \<noteq> key) m) = (map_of m)(key := None)"
  by (induction m) auto

interpretation local_store: object_store Local_Put Local_Delete
  by unfold_locales
     (auto simp: Local_Put_def Local_Delete_def write_object_def remove_object_def Let_def has_object_def map_of_put
       map_of_filter_key split: if_splits option.splits)

interpretation s3_store: object_store S3_Put S3_Delete
  by unfold_locales
     (auto simp: S3_Put_def S3_Delete_def write_object_def remove_object_def Let_def has_object_def map_of_put
       map_of_filter_key split: if_splits option.splits)

interpretation store: object_store "store_Put st" "store_Delete st"
  by (cases st) (simp_all add: local_store.object_store_axioms s3_store.object_store_axioms)

subsection \<open>Uploads\<close>

record upload_service =
  up_Storage :: "storage option"
  up_Kind :: bytes

record upload_input =
  ui_Source :: bytes
  ui_Name :: bytes
  ui_MIME :: bytes
  ui_Size :: int

definition Upload_Get :: "actor option \<Rightarrow> bytes \<Rightarrow> model_file op" where
  "Upload_Get act ident =
     bindE (checkUUID ident) (\<lambda>_.
     bindE (mapE DB (Q (FindFile ident))) (\<lambda>row. case act of
       None \<Rightarrow> failE (New Missing ''Not found'')
     | Some a \<Rightarrow>
         bindE (if f_uploader_id row \<noteq> Some (a_ID a)
           then bindE (Q (IsRootRole (a_RoleID a))) (\<lambda>root. guardE (if root then None else Some (New Missing ''Not found'')))
           else returnE ()) (\<lambda>_. returnE (File row))))"

text \<open>\<open>string([]rune(name)[:255])\<close> writes an invalid byte as the replacement character.\<close>

definition rune_text :: "nat \<times> bytes \<Rightarrow> bytes" where
  "rune_text p = (if fst p = 0xFFFD then [CHR 0xEF, CHR 0xBF, CHR 0xBD] else snd p)"

definition cleanName :: "bytes \<Rightarrow> bytes" where
  "cleanName s = (let name = TrimSpace (after_last (\<lambda>c. c = CHR ''/'' \<or> c = CHR 0x5C) s) in
     if name \<in> {[], ''.'', ''..''} then ''file''
     else if length (runes name) > 255 then concat (map rune_text (take 255 (runes name)))
     else name)"

definition Upload_Create_tx :: "bytes \<Rightarrow> bytes \<Rightarrow> upload_input \<Rightarrow> actor option \<Rightarrow> (model_file \<times> change) op" where
  "Upload_Create_tx kind key inp act =
     bindE (mapE DB (CreateFile kind key (cleanName (ui_Name inp)) (ui_MIME inp) (ui_Size inp) (map_option a_ID act)))
       (\<lambda>row. let out = File row in
     bindE (liftE (Capture (mf_id out) None (Some (model_file_json out)))) (\<lambda>c. returnE (out, c)))"

text \<open>\<open>io.NewSectionReader(source, 0, size)\<close> is the part of the source up to its size.\<close>

definition Upload_Create :: "upload_service \<Rightarrow> policy \<Rightarrow> actor option \<Rightarrow> upload_input \<Rightarrow> (goerr, model_file) wop" where
  "Upload_Create u p act inp = (case up_Storage u of
     None \<Rightarrow> failW (New Unavailable ''Upload disabled'')
   | Some st \<Rightarrow>
       bindW (service NewString) (\<lambda>key.
       bindW (mapW DB (store_Put st key (take (nat (ui_Size inp)) (ui_Source inp)))) (\<lambda>_.
       bindW (attemptW (service (Mutate p act ''CREATE'' (Upload_Create_tx (up_Kind u) key inp act)))) (\<lambda>r. case r of
         Inl x \<Rightarrow> bindW (attemptW (store_Delete st key)) (\<lambda>_. failW x)
       | Inr out \<Rightarrow> returnW out))))"

definition Referenced :: "upload_service \<Rightarrow> bytes \<Rightarrow> bool op" where
  "Referenced u key = Q (FileReferenced key (up_Kind u))"

subsection \<open>The cleanup of uploads\<close>

text \<open>
  The loop over the listed keys, with the number of candidates so far; the result is what is printed.
  \<open>kind\<close> is \<open>c.UploadStorage\<close>; the directory before a local name is left out.
\<close>

fun sweep :: "storage \<Rightarrow> bytes \<Rightarrow> nat \<Rightarrow> bool \<Rightarrow> nat \<Rightarrow> bytes list \<Rightarrow> (goerr, bytes list) wop" where
  "sweep st kind batch apply candidates [] = returnW []"
| "sweep st kind batch apply candidates (key # keys) =
     (if candidates \<ge> batch then returnW []
      else bindW (\<lambda>e. returnW (length key = 36 \<and> uuid_parses (on_env e) key) e) (\<lambda>is_uuid.
        if \<not> is_uuid then sweep st kind batch apply candidates keys
        else bindW (service (Q (FileReferenced key kind))) (\<lambda>exists.
          if exists then sweep st kind batch apply candidates keys
          else if \<not> apply then
            bindW (sweep st kind batch apply (Suc candidates) keys) (\<lambda>rest. returnW (key # rest))
          else bindW (service (Q (FileReferenced key kind))) (\<lambda>referenced.
            if referenced then bindW (sweep st kind batch apply (Suc candidates) keys) (\<lambda>rest. returnW (key # rest))
            else bindW (store_Delete st key) (\<lambda>_.
              bindW (sweep st kind batch apply (Suc candidates) keys) (\<lambda>rest. returnW (key # rest)))))))"

definition storage_of :: "bytes \<Rightarrow> storage" where
  "storage_of kind = (if kind = ''s3'' then S3 else Local)"

definition cleanup_uploads :: "operations \<Rightarrow> bytes \<Rightarrow> int \<Rightarrow> bool \<Rightarrow> (goerr, bytes list) wop" where
  "cleanup_uploads c kind graceHours apply =
     bindW (service (Cleanup c apply)) (\<lambda>_.
     bindW (service time_Now) (\<lambda>now.
     bindW (ListOlder (now - graceHours * 3600 * 1000)) (\<lambda>keys.
     sweep (storage_of kind) kind (nat (op_BatchSize c)) apply 0 keys)))"

subsection \<open>What an upload leaves\<close>

lemma run_service: "service m e w = (r, w') \<longleftrightarrow> (\<exists>v. m (on_env e) (wb_world w) = (r, v) \<and> w' = w\<lparr>wb_world := v\<rparr>)"
  by (auto simp: service_def split: prod.splits)

lemma bindW_cases:
  assumes "bindW m k e w = (r, w')"
  obtains (err) x where "m e w = (Inl x, w')" "r = Inl x" | (ok) a w1 where "m e w = (Inr a, w1)" "k a e w1 = (r, w')"
  using assms by (auto simp: bindW_def split: prod.splits sum.splits)

lemma Upload_Create_tx_run:
  assumes "Upload_Create_tx kind key inp act e w = (Inr (f, c), w')"
  shows "\<exists>row. f = File row \<and> f_storage row = kind \<and> f_object_key row = key \<and> f_size row = ui_Size inp
    \<and> db w' = (db w)\<lparr>stored_files := stored_files (db w) @ [row]\<rparr>"
  using assms by (auto simp: Upload_Create_tx_def CreateFile_def run_simps Let_def)

lemma Upload_Create_steps:
  assumes "Upload_Create u p act inp e w = (r, w')" "up_Storage u = Some st"
  obtains (put_failed) x where "r = Inl (DB x)"
      "store_Put st (gen_uuid (on_env e) (at_tick w)) (take (nat (ui_Size inp)) (ui_Source inp)) e (pass w) = (Inl x, w')"
  | (created) out w1 v where "r = Inr out"
      "store_Put st (gen_uuid (on_env e) (at_tick w)) (take (nat (ui_Size inp)) (ui_Source inp)) e (pass w) = (Inr (), w1)"
      "Mutate p act ''CREATE'' (Upload_Create_tx (up_Kind u) (gen_uuid (on_env e) (at_tick w)) inp act) (on_env e) (wb_world w1)
        = (Inr out, v)" "w' = w1\<lparr>wb_world := v\<rparr>"
  | (undone) x q w1 v where "r = Inl x"
      "store_Put st (gen_uuid (on_env e) (at_tick w)) (take (nat (ui_Size inp)) (ui_Source inp)) e (pass w) = (Inr (), w1)"
      "Mutate p act ''CREATE'' (Upload_Create_tx (up_Kind u) (gen_uuid (on_env e) (at_tick w)) inp act) (on_env e) (wb_world w1)
        = (Inl x, v)" "store_Delete st (gen_uuid (on_env e) (at_tick w)) e (w1\<lparr>wb_world := v\<rparr>) = (q, w')"
proof -
  let ?key = "gen_uuid (on_env e) (at_tick w)" and ?c = "take (nat (ui_Size inp)) (ui_Source inp)"
  have id: "service NewString e w = (Inr ?key, pass w)"
    by (simp add: service_def NewString_def pass_def at_tick_def)
  obtain pr w1 where pr: "store_Put st ?key ?c e (pass w) = (pr, w1)" by fastforce
  show thesis
  proof (cases pr)
    case (Inl x)
    with assms id pr show thesis by (intro put_failed) (auto simp: Upload_Create_def bindW_def mapW_def)
  next
    case (Inr a)
    obtain m v where m: "Mutate p act ''CREATE'' (Upload_Create_tx (up_Kind u) ?key inp act) (on_env e) (wb_world w1) = (m, v)"
      by fastforce
    show thesis
    proof (cases m)
      case (Inr out)
      with assms id pr \<open>pr = Inr a\<close> m show thesis
        by (intro created) (auto simp: Upload_Create_def bindW_def mapW_def attemptW_def service_def returnW_def)
    next
      case (Inl x)
      obtain q w2 where "store_Delete st ?key e (w1\<lparr>wb_world := v\<rparr>) = (q, w2)" by fastforce
      with Inl assms id pr \<open>pr = Inr a\<close> m show thesis
        by (intro undone) (auto simp: Upload_Create_def bindW_def mapW_def attemptW_def service_def failW_def)
    qed
  qed
qed

lemma pass_world: "wb_world (pass w) = bump (wb_world w)" "db (wb_world (pass w)) = db (wb_world w)"
  by (simp_all add: pass_def)


definition sample_uploads :: upload_service where
  "sample_uploads = \<lparr>up_Storage = Some Local, up_Kind = ''local''\<rparr>"

definition sample_upload :: upload_input where
  "sample_upload = \<lparr>ui_Source = ''data'', ui_Name = ''a.txt'', ui_MIME = ''text/plain'', ui_Size = 4\<rparr>"


subsection \<open>What the cleanup deletes\<close>

lemma run_reference: "service (Q (FileReferenced key kind)) e w = (r, w') \<Longrightarrow>
    wb_objects w' = wb_objects w \<and> db (wb_world w') = db (wb_world w)
    \<and> (\<forall>b. r = Inr b \<longrightarrow> b = list_ex (\<lambda>f. f_object_key f = key \<and> f_storage f = kind) (stored_files (db (wb_world w))))"
  by (auto simp: service_def Q_def FileReferenced_def stmt_def select_rows_def split: prod.splits option.splits)

text \<open>What a run of the loop may have done, and what it prints.\<close>

definition swept :: "bytes \<Rightarrow> web_env \<Rightarrow> bool \<Rightarrow> bytes list \<Rightarrow> nat \<Rightarrow> goerr + bytes list \<Rightarrow> web \<Rightarrow> web \<Rightarrow> bool" where
  "swept kind e apply keys room r w w' \<longleftrightarrow> db (wb_world w') = db (wb_world w)
     \<and> (\<forall>k. map_of (wb_objects w') k \<noteq> map_of (wb_objects w) k \<longrightarrow> apply \<and> k \<in> set keys
          \<and> \<not> list_ex (\<lambda>f. f_object_key f = k \<and> f_storage f = kind) (stored_files (db (wb_world w))))
     \<and> (\<forall>ks. r = Inr ks \<longrightarrow> length ks \<le> room \<and> (\<forall>k \<in> set ks. k \<in> set keys \<and> length k = 36
          \<and> uuid_parses (on_env e) k
          \<and> \<not> list_ex (\<lambda>f. f_object_key f = k \<and> f_storage f = kind) (stored_files (db (wb_world w)))))"

lemma swept_skip: "swept kind e apply keys room r w1 w' \<Longrightarrow> db (wb_world w1) = db (wb_world w) \<Longrightarrow>
    wb_objects w1 = wb_objects w \<Longrightarrow> swept kind e apply (key # keys) room r w w'"
  by (auto simp: swept_def)

lemma swept_take:
  assumes "swept kind e apply keys room r w1 w'" "db (wb_world w1) = db (wb_world w)"
    and "\<forall>k. map_of (wb_objects w1) k \<noteq> map_of (wb_objects w) k \<longrightarrow> apply \<and> k = key"
    and "\<not> list_ex (\<lambda>f. f_object_key f = key \<and> f_storage f = kind) (stored_files (db (wb_world w)))"
    and "length key = 36" "uuid_parses (on_env e) key" "q = (case r of Inl x \<Rightarrow> Inl x | Inr ks \<Rightarrow> Inr (key # ks))"
  shows "swept kind e apply (key # keys) (Suc room) q w w'"
  using assms by (auto simp: swept_def split: sum.splits) metis+

lemma sweep_swept:
  "sweep st kind batch apply candidates keys e w = (r, w') \<Longrightarrow> swept kind e apply keys (batch - candidates) r w w'"
proof (induction keys arbitrary: candidates w r w')
  case Nil
  then show ?case by (auto simp: swept_def returnW_def)
next
  case (Cons key keys)
  let ?un = "\<not> list_ex (\<lambda>f. f_object_key f = key \<and> f_storage f = kind) (stored_files (db (wb_world w)))"
  show ?case
  proof (cases "batch \<le> candidates \<or> \<not> (length key = 36 \<and> uuid_parses (on_env e) key)")
    case True
    with Cons.prems Cons.IH [of candidates w r w'] show ?thesis
      by (auto simp: returnW_def bindW_def swept_def split: if_splits)
  next
    case False
    then have room: "batch - candidates = Suc (batch - Suc candidates)" and uuid: "length key = 36" "uuid_parses (on_env e) key"
      by auto
    obtain x1 w1 where first: "service (Q (FileReferenced key kind)) e w = (x1, w1)" by fastforce
    note f = run_reference [OF first]
    have finish: "swept kind e apply (key # keys) (batch - candidates) q w v'"
      if rec: "bindW (sweep st kind batch apply (Suc candidates) keys) (\<lambda>rest. returnW (key # rest)) e v = (q, v')"
        and v: "db (wb_world v) = db (wb_world w)" "\<forall>k. map_of (wb_objects v) k \<noteq> map_of (wb_objects w) k \<longrightarrow> apply \<and> k = key"
        and un: ?un for q v v'
    proof -
      obtain s where s: "sweep st kind batch apply (Suc candidates) keys e v = (s, v')"
        "q = (case s of Inl x \<Rightarrow> Inl x | Inr ks \<Rightarrow> Inr (key # ks))"
        using rec by (cases "sweep st kind batch apply (Suc candidates) keys e v")
          (auto simp: bindW_def returnW_def split: sum.splits)
      show ?thesis unfolding room by (rule swept_take [OF Cons.IH [OF s(1)] v un uuid s(2)])
    qed
    show ?thesis
    proof (cases x1)
      case (Inl x)
      with Cons.prems False first f show ?thesis by (auto simp: returnW_def bindW_def swept_def)
    next
      case (Inr b)
      show ?thesis
      proof (cases b)
        case True
        with Inr Cons.prems False first have "sweep st kind batch apply candidates keys e w1 = (r, w')"
          by (simp add: returnW_def bindW_def)
        from swept_skip [OF Cons.IH [OF this]] f show ?thesis by simp
      next
        case new: False
        with Inr f have un: ?un by blast
        show ?thesis
        proof (cases "apply")
          case no: False
          with new Inr Cons.prems False first
          have "bindW (sweep st kind batch apply (Suc candidates) keys) (\<lambda>rest. returnW (key # rest)) e w1 = (r, w')"
            by (simp add: returnW_def bindW_def)
          from finish [OF this _ _ un] f show ?thesis by simp
        next
          case yes: True
          obtain x2 w2 where second: "service (Q (FileReferenced key kind)) e w1 = (x2, w2)" by fastforce
          note g = run_reference [OF second]
          show ?thesis
          proof (cases x2)
            case (Inl x)
            with yes new Inr Cons.prems False first second f g show ?thesis by (auto simp: returnW_def bindW_def swept_def)
          next
            case again: (Inr b2)
            with g f un have "\<not> b2" by auto
            obtain d w3 where del: "store_Delete st key e w2 = (d, w3)" by fastforce
            note h = store.delete_frame [OF del]
            have w3: "db (wb_world w3) = db (wb_world w)"
              "\<forall>k. map_of (wb_objects w3) k \<noteq> map_of (wb_objects w) k \<longrightarrow> apply \<and> k = key"
              using f g h yes by auto
            show ?thesis
            proof (cases d)
              case (Inl x)
              with again \<open>\<not> b2\<close> yes new \<open>x1 = Inr b\<close> Cons.prems False first second del have "r = Inl x" "w' = w3"
                by (auto simp: returnW_def bindW_def)
              with w3 un yes show ?thesis by (auto simp: swept_def)
            next
              case (Inr u)
              with again \<open>\<not> b2\<close> yes new \<open>x1 = Inr b\<close> Cons.prems False first second del
              have "bindW (sweep st kind batch apply (Suc candidates) keys) (\<lambda>rest. returnW (key # rest)) e w3 = (r, w')"
                by (simp add: returnW_def bindW_def)
              from finish [OF this w3 un] show ?thesis .
            qed
          qed
        qed
      qed
    qed
  qed
qed

lemma ListOlder_frame:
  assumes "ListOlder before e w = (r, w')"
  shows "wb_objects w' = wb_objects w" "db (wb_world w') = db (wb_world w)"
  using assms by (auto simp: ListOlder_def split: option.splits)

lemma ListOlder_old:
  assumes "ListOlder before e w = (Inr keys, w')" "k \<in> set keys"
  shows "\<exists>content modified. (k, content, modified) \<in> set (wb_objects w) \<and> modified < before"
proof -
  have "keys = sort (map fst (filter (\<lambda>(k, content, modified). modified < before) (wb_objects w)))"
    using assms(1) by (auto simp: ListOlder_def split: option.splits)
  with assms(2) obtain x where "x \<in> set (wb_objects w)" "k = fst x" "snd (snd x) < before" by auto
  then have "(k, fst (snd x), snd (snd x)) \<in> set (wb_objects w)" "snd (snd x) < before" by simp_all
  then show ?thesis by blast
qed

lemma files_deletes: "evolves (fixed stored_files) e (DeleteFamily i)" "evolves (fixed stored_files) e (DeleteEmail i)"
  "evolves (fixed stored_files) e (DeleteAudit i)"
  unfolding DeleteFamily_def DeleteEmail_def DeleteAudit_def by (rule fixed_stmt, auto simp: run_simps)+

lemma Cleanup_files: "evolves (fixed stored_files) e (Cleanup c ap)"
  unfolding Cleanup_def Cleanup_tx_def by (intro fixed.ev_rules files_deletes reads [THEN same_fixed])

text \<open>The run of the command, in its four phases.\<close>

lemma cleanup_uploads_phases:
  assumes run: "cleanup_uploads c kind graceHours apply e w = (r, w')"
  obtains (early) x where "r = Inl x" "wb_objects w' = wb_objects w"
      "stored_files (db (wb_world w')) = stored_files (db (wb_world w))"
  | (loop) n keys w1 where "stored_files (db (wb_world w1)) = stored_files (db (wb_world w))" "wb_objects w1 = wb_objects w"
      "\<forall>k \<in> set keys. \<exists>content modified. (k, content, modified) \<in> set (wb_objects w)
         \<and> modified < app_now (on_env e) n - graceHours * 3600 * 1000"
      "sweep (storage_of kind) kind (nat (op_BatchSize c)) apply 0 keys e w1 = (r, w')"
proof -
  obtain cl v where cl: "Cleanup c apply (on_env e) (wb_world w) = (cl, v)" by fastforce
  then have files: "stored_files (db v) = stored_files (db (wb_world w))"
    using Cleanup_files [of "on_env e" c "apply"] by (simp add: evolves_def fixed_def) (metis snd_conv)
  define w1 where "w1 = pass (w\<lparr>wb_world := v\<rparr>)"
  define n where "n = tick v"
  have keep: "wb_objects w1 = wb_objects w" "stored_files (db (wb_world w1)) = stored_files (db (wb_world w))"
    by (simp_all add: w1_def files)
  obtain ls w2 where ls: "ListOlder (app_now (on_env e) n - graceHours * 3600 * 1000) e w1 = (ls, w2)" by fastforce
  note list = ListOlder_frame [OF ls]
  show thesis
  proof (cases cl)
    case (Inl x)
    with run cl files show thesis by (intro early) (auto simp: cleanup_uploads_def bindW_def service_def)
  next
    case (Inr counts)
    have rest: "(case ls of Inl x \<Rightarrow> (Inl x, w2)
        | Inr keys \<Rightarrow> sweep (storage_of kind) kind (nat (op_BatchSize c)) apply 0 keys e w2) = (r, w')"
      using run cl Inr ls
      by (auto simp: cleanup_uploads_def bindW_def service_def time_Now_def w1_def n_def pass_def split: sum.splits)
    show thesis
    proof (cases ls)
      case (Inl x)
      with rest list keep show thesis by (intro early) auto
    next
      case (Inr keys)
      with ls have "ListOlder (app_now (on_env e) n - graceHours * 3600 * 1000) e w1 = (Inr keys, w2)" by simp
      from ListOlder_old [OF this] keep have "\<forall>k \<in> set keys. \<exists>content modified. (k, content, modified) \<in> set (wb_objects w)
         \<and> modified < app_now (on_env e) n - graceHours * 3600 * 1000" by simp
      with rest list keep Inr show thesis by (intro loop [of w2 keys n]) auto
    qed
  qed
qed


definition orphan_key :: bytes where
  "orphan_key = ''0f8fad5b-d9cb-469f-a165-70867728950e''"

definition orphan_env :: web_env where
  "orphan_env = sample_web_env\<lparr>on_env := old_env\<rparr>"

definition orphan_web :: web where
  "orphan_web = sample_web\<lparr>wb_objects := [(orphan_key, (''data'', 1)), (''notes.txt'', (''text'', 1))]\<rparr>"


end
