(* ===== verification/Http.thy ===== *)
theory Http
  imports Cache Registry Upload NotificationService PermissionService
begin

text \<open>
  \<open>internal/httpapi\<close>: what happens to a request before and after its handler
  (\<open>server.go\<close>, \<open>registration.go\<close>), the errors a client is shown (\<open>types.go\<close>) and the transport of
  refresh tokens (\<open>refresh_cookie.go\<close>).  Routing, the reading of the body and its validation belong
  to other modules (chi, Huma).  The headers
  of a request are a function from the name to the first value, empty if there is none.
\<close>

subsection \<open>Errors\<close>

record api_error =
  ae_Status :: nat
  ae_Message :: bytes
  ae_Errors :: "bytes list"

fun as_api :: "goerr \<Rightarrow> api_error option" where
  "as_api (ApiError status m es) = Some \<lparr>ae_Status = status, ae_Message = m, ae_Errors = es\<rparr>"
| "as_api (FaultError k m (Some c)) = as_api c"
| "as_api _ = None"

fun status_of :: "kind \<Rightarrow> nat" where
  "status_of Invalid = 400" | "status_of Missing = 404" | "status_of Duplicate = 409"
| "status_of Unauthorized = 401" | "status_of Forbidden = 403" | "status_of Internal = 500"
| "status_of TooLarge = 413" | "status_of Unavailable = 503"

definition apiError :: "goerr \<Rightarrow> api_error" where
  "apiError err = (case as_api err of Some a \<Rightarrow> a
     | None \<Rightarrow> (case as_fault err of
         Some (k, m) \<Rightarrow> \<lparr>ae_Status = status_of k, ae_Message = m, ae_Errors = []\<rparr>
       | None \<Rightarrow> \<lparr>ae_Status = 500, ae_Message = ''Internal server error'', ae_Errors = []\<rparr>))"

definition badRequest :: "bytes \<Rightarrow> goerr" where
  "badRequest m = ApiError 400 m []"

definition notFound :: goerr where
  "notFound = ApiError 404 ''Not found'' []"

subsection \<open>The server and a request\<close>

record http_request =
  rq_RemoteAddr :: bytes
  rq_header :: "bytes \<Rightarrow> bytes"
  rq_cookie :: "bytes \<Rightarrow> bytes option"
  rq_Path :: bytes
  rq_URI :: bytes
  rq_NoBody :: bool
  rq_ContentLength :: int
  rq_ID :: bytes                  \<comment> \<open>the request id the middleware has put into the context\<close>

record server =
  sv_Auth :: auth_service
  sv_Cache :: cache
  sv_Limiter :: limiter
  sv_Policies :: "(bytes \<times> endpoint) list"
  sv_Rates :: "(bytes \<times> rate) list"
  sv_TrustProxyHops :: int
  sv_RateStore :: bytes
  sv_RefreshTransport :: bytes
  sv_CookieName :: bytes
  sv_CookieDomain :: bytes
  sv_CookieSecure :: bool
  sv_CookieSameSite :: bytes
  sv_UploadEnabled :: bool
  sv_UploadMaxBytes :: int
  sv_UploadAllowedMIME :: "bytes list"
  sv_Uploads :: upload_service
  sv_SMTPEnabled :: bool
  sv_Production :: bool
  sv_DocsDisabled :: bool
  sv_CORSOrigins :: "bytes list"

definition last_index :: "char \<Rightarrow> bytes \<Rightarrow> nat option" where
  "last_index c s = (if c \<in> set s then Some (length s - 1 - length (takeWhile (\<lambda>x. x \<noteq> c) (rev s))) else None)"

definition index_of :: "char \<Rightarrow> bytes \<Rightarrow> nat option" where
  "index_of c s = (if c \<in> set s then Some (length (takeWhile (\<lambda>x. x \<noteq> c) s)) else None)"

text \<open>The host of \<open>net.SplitHostPort\<close>, if it returns no error.\<close>

definition SplitHost :: "bytes \<Rightarrow> bytes option" where
  "SplitHost s = (case last_index (CHR '':'') s of
     None \<Rightarrow> None
   | Some i \<Rightarrow>
       if hd s = CHR ''['' then
         (case index_of (CHR '']'') s of
            None \<Rightarrow> None
          | Some end \<Rightarrow>
              if end + 1 \<noteq> i then None
              else if CHR ''['' \<in> set (drop 1 s) \<or> CHR '']'' \<in> set (drop (end + 1) s) then None
              else Some (take (end - 1) (drop 1 s)))
       else if CHR '':'' \<in> set (take i s) \<or> CHR ''['' \<in> set s \<or> CHR '']'' \<in> set s then None
       else Some (take i s))"

definition clientIP :: "server \<Rightarrow> http_request \<Rightarrow> (bytes \<Rightarrow> bytes option) \<Rightarrow> bytes" where
  "clientIP s r parse =
     (let host = (case SplitHost (rq_RemoteAddr r) of None \<Rightarrow> rq_RemoteAddr r | Some h \<Rightarrow> h);
          hops = sv_TrustProxyHops s; parts = Split (CHR '','') (rq_header r ''X-Forwarded-For'')
      in if 0 < hops \<and> hops \<le> int (length parts)
         then (case parse (TrimSpace (parts ! (length parts - nat hops))) of None \<Rightarrow> host | Some ip \<Rightarrow> ip)
         else host)"

text \<open>\<open>s.Config.Rates[string(ep.Rate)]\<close>: the zero value if the group is missing.\<close>

definition rate_of :: "server \<Rightarrow> bytes \<Rightarrow> rate" where
  "rate_of s grp = (case map_of (sv_Rates s) grp of None \<Rightarrow> \<lparr>rt_WindowMS = 0, rt_Max = 0\<rparr> | Some r \<Rightarrow> r)"

subsection \<open>Before the handler\<close>

definition verify_token :: "server \<Rightarrow> endpoint \<Rightarrow> http_request \<Rightarrow> (goerr, claims option) wop" where
  "verify_token s ep r = (if ep_Public ep then returnW None
     else bindW (service (VerifyAccessToken (sv_Auth s) (rq_header r ''Authorization''))) (\<lambda>c. returnW (Some c)))"

definition limit_key :: "server \<Rightarrow> endpoint \<Rightarrow> http_request \<Rightarrow> claims option \<Rightarrow> (bytes \<Rightarrow> bytes option) \<Rightarrow> bytes" where
  "limit_key s ep r claims parse = (case claims of
     Some c \<Rightarrow> if ep_Rate ep = RateInternal then cl_ID c else clientIP s r parse
   | None \<Rightarrow> clientIP s r parse)"

definition throttle :: "server \<Rightarrow> endpoint \<Rightarrow> http_request \<Rightarrow> claims option \<Rightarrow> (goerr, unit) wop" where
  "throttle s ep r claims = (\<lambda>e.
     if ep_ID ep \<in> {''health.get'', ''live.get'', ''ready.get''} then returnW () e
     else bindW (attemptW (Allow (sv_Limiter s) (ep_Rate ep) (limit_key s ep r claims (parse_ip e))
         (rate_of s (ep_Rate ep)))) (\<lambda>res. case res of
       Inl x \<Rightarrow> if ep_Rate ep = RateAuth then failW (ApiError 503 ''Rate limiter unavailable'' []) else returnW ()
     | Inr allowed \<Rightarrow> if allowed then returnW () else failW (ApiError 429 ''Too many requests'' [])) e)"

definition load_actor :: "endpoint \<Rightarrow> claims option \<Rightarrow> (goerr, actor option) wop" where
  "load_actor ep claims = (case claims of None \<Rightarrow> returnW None
     | Some c \<Rightarrow> bindW (service (LoadActor c)) (\<lambda>act.
         bindW (service (Authorize act (ep_Permission ep))) (\<lambda>_. returnW (Some act))))"

definition wrong_content :: "endpoint \<Rightarrow> http_request \<Rightarrow> bool" where
  "wrong_content ep r \<longleftrightarrow> \<not> Contains (ToLower (rq_header r ''Content-Type'')) ''application/json''
     \<and> \<not> rq_NoBody r \<and> rq_ContentLength r \<noteq> 0 \<and> ep_ID ep \<noteq> ''upload.create''
     \<and> ep_Method ep \<noteq> ''GET'' \<and> ep_Method ep \<noteq> ''DELETE''"

definition enforce :: "server \<Rightarrow> endpoint \<Rightarrow> http_request \<Rightarrow> (goerr, actor option) wop" where
  "enforce s ep r =
     bindW (verify_token s ep r) (\<lambda>claims.
     bindW (throttle s ep r claims) (\<lambda>_.
     bindW (load_actor ep claims) (\<lambda>act.
     if wrong_content ep r then failW (badRequest ''Content-Type must be application/json'') else returnW act)))"

subsection \<open>The transport of refresh tokens\<close>

record token_response =
  tr_Token :: bytes
  tr_RefreshToken :: bytes
  tr_TokenType :: bytes
  tr_ExpiresIn :: int

record set_cookie =
  ck_Name :: bytes
  ck_Value :: bytes
  ck_Path :: bytes
  ck_Domain :: bytes
  ck_MaxAge :: int
  ck_HttpOnly :: bool
  ck_Secure :: bool
  ck_SameSite :: bytes

definition refreshCookieMaxAge :: int where
  "refreshCookieMaxAge = 30 * 24 * 3600"

definition refreshCookieEnabled :: "server \<Rightarrow> bool" where
  "refreshCookieEnabled s \<longleftrightarrow> sv_RefreshTransport s = ''cookie''"

definition refreshCookie :: "server \<Rightarrow> bytes \<Rightarrow> int \<Rightarrow> set_cookie" where
  "refreshCookie s value maxAge = \<lparr>ck_Name = sv_CookieName s, ck_Value = value, ck_Path = ''/api/auth'',
     ck_Domain = sv_CookieDomain s, ck_MaxAge = maxAge, ck_HttpOnly = True, ck_Secure = sv_CookieSecure s,
     ck_SameSite = sv_CookieSameSite s\<rparr>"

definition tokenResponse :: "token_pair \<Rightarrow> token_response" where
  "tokenResponse p = \<lparr>tr_Token = tp_access_token p, tr_RefreshToken = tp_refresh_token p,
     tr_TokenType = ''Bearer'', tr_ExpiresIn = tp_access_expires_in p\<rparr>"

text \<open>The body, and the cookie that is set.\<close>

definition issueTokens :: "server \<Rightarrow> token_pair \<Rightarrow> token_response \<times> set_cookie option" where
  "issueTokens s pair = (if \<not> refreshCookieEnabled s then (tokenResponse pair, None)
     else ((tokenResponse pair)\<lparr>tr_RefreshToken := []\<rparr>,
       Some (refreshCookie s (tp_refresh_token pair) refreshCookieMaxAge)))"

definition clearRefreshCookie :: "server \<Rightarrow> set_cookie option" where
  "clearRefreshCookie s = (if \<not> refreshCookieEnabled s then None else Some (refreshCookie s [] (-1)))"

definition refreshTokenFrom :: "server \<Rightarrow> http_request \<Rightarrow> bytes \<Rightarrow> goerr + bytes" where
  "refreshTokenFrom s r bodyToken = (if bodyToken \<noteq> [] then Inr bodyToken
     else case (if refreshCookieEnabled s then rq_cookie r (sv_CookieName s) else None) of
       None \<Rightarrow> Inl (badRequest ''refreshToken is required'')
     | Some v \<Rightarrow> if v = [] then Inl (badRequest ''refreshToken is required'')
         else if rq_header r ''X-Requested-With'' = []
         then Inl (ApiError 403 ''Cookie-based refresh requires the X-Requested-With header'' [])
         else Inr v)"

subsection \<open>The handler, the cache and the audit of reads\<close>

definition TrimSuffix :: "bytes \<Rightarrow> bytes \<Rightarrow> bytes" where
  "TrimSuffix s p = (if HasSuffix s p then take (length s - length p) s else s)"

definition ctxEntityID :: "(bytes \<Rightarrow> bool) \<Rightarrow> http_request \<Rightarrow> bytes" where
  "ctxEntityID parses r = (let part = last (Split (CHR ''/'') (TrimSuffix (rq_Path r) ''/'')) in
     if parses part then part else [])"

definition mode_of :: "bytes \<Rightarrow> mode" where
  "mode_of m = (if m = AuditRequired then Required else if m = AuditOptional then Optional else NoAudit)"

definition policy_of :: "server \<Rightarrow> bytes \<Rightarrow> http_request \<Rightarrow> policy" where
  "policy_of s i r = \<lparr>pol_ID = i,
     pol_Module = (case map_of (sv_Policies s) i of None \<Rightarrow> [] | Some ep \<Rightarrow> ep_Module ep),
     pol_RequestID = rq_ID r,
     pol_Mode = (case map_of (sv_Policies s) i of None \<Rightarrow> NoAudit | Some ep \<Rightarrow> mode_of (ep_Audit ep))\<rparr>"

definition audit_read :: "server \<Rightarrow> bytes \<Rightarrow> http_request \<Rightarrow> actor option \<Rightarrow> (goerr, unit) wop" where
  "audit_read s i r act = (\<lambda>e. service (Read (policy_of s i r) act (ctxEntityID (uuid_parses (on_env e)) r)) e)"

text \<open>The key of the response, empty for none, and the cached response if it can be used.\<close>

definition cache_lookup :: "(bytes \<Rightarrow> 'a option) \<Rightarrow> server \<Rightarrow> endpoint \<Rightarrow> http_request \<Rightarrow> actor option \<Rightarrow>
    (goerr, bytes \<times> 'a option) wop" where
  "cache_lookup dec s ep r act = (if ep_Cache ep \<noteq> CacheRead \<or> ep_Method ep \<noteq> ''GET'' then returnW ([], None)
     else bindW (attemptW (Cache_Key (sv_Cache s) (ep_ID ep)
         (case act of None \<Rightarrow> ''public'' | Some a \<Rightarrow> a_ID a) (rq_URI r))) (\<lambda>k. case k of
       Inl x \<Rightarrow> returnW ([], None)
     | Inr key \<Rightarrow> if key = [] then returnW ([], None)
         else bindW (attemptW (Cache_Get (sv_Cache s) key)) (\<lambda>d. case d of
             Inl x \<Rightarrow> returnW (key, None)
           | Inr None \<Rightarrow> returnW (key, None)
           | Inr (Some data) \<Rightarrow> returnW (key, dec data))))"

definition cache_store :: "('a \<Rightarrow> bytes option) \<Rightarrow> server \<Rightarrow> bytes \<Rightarrow> 'a \<Rightarrow> (goerr, unit) wop" where
  "cache_store enc s key result = (if key = [] then returnW ()
     else case enc result of None \<Rightarrow> returnW ()
     | Some data \<Rightarrow> bindW (attemptW (Cache_Put (sv_Cache s) key data)) (\<lambda>_. returnW ()))"

text \<open>
  \<open>register\<close>: \<open>enc\<close> is \<open>json.Marshal\<close> of the response, \<open>dec\<close> reads a cached one back if it validates
  against the schema and is a success.  The result is None for status 204.  A handler may set a
  cookie on the response it is about to give: the cookie is the second component of its result.
\<close>

definition register :: "('a \<Rightarrow> bytes option) \<Rightarrow> (bytes \<Rightarrow> 'a option) \<Rightarrow> server \<Rightarrow> endpoint \<Rightarrow> http_request \<Rightarrow>
    actor option \<Rightarrow> (goerr, 'a \<times> set_cookie option) wop \<Rightarrow> (api_error, 'a option \<times> set_cookie option) wop" where
  "register enc dec s ep r act handler = mapW apiError
     (bindW (cache_lookup dec s ep r act) (\<lambda>(key, cached). case cached of
       Some a \<Rightarrow> bindW (audit_read s (ep_ID ep) r act) (\<lambda>_. returnW (Some a, None))
     | None \<Rightarrow> bindW handler (\<lambda>(result, cookie).
         bindW (if ep_Method ep \<noteq> ''GET'' then attemptW (Cache_Invalidate (sv_Cache s)) else returnW (Inr ())) (\<lambda>_.
         if ep_Status ep = 204 then returnW (None, cookie)
         else bindW (cache_store enc s key result) (\<lambda>_.
           bindW (if ep_Method ep = ''GET'' then audit_read s (ep_ID ep) r act else returnW ()) (\<lambda>_.
           returnW (Some result, cookie)))))))"

subsection \<open>The middleware of every request\<close>

definition hex_digit :: "nat \<Rightarrow> char" where
  "hex_digit n = ''0123456789abcdef'' ! (n mod 16)"

definition hex :: "bytes \<Rightarrow> bytes" where
  "hex s = concat (map (\<lambda>c. [hex_digit (of_char c div 16), hex_digit (of_char c)]) s)"

text \<open>The id a client sends is kept if it is short enough; otherwise 16 random bytes, or the time.\<close>

definition request_id :: "http_request \<Rightarrow> bytes + bytes \<Rightarrow> int \<Rightarrow> bytes" where
  "request_id r random nanos = (let i = rq_header r ''X-Request-ID'' in
     if i = [] \<or> length i > 128 then (case random of Inr x \<Rightarrow> hex x | Inl _ \<Rightarrow> FormatInt nanos) else i)"

definition security_headers :: "server \<Rightarrow> bytes \<Rightarrow> (bytes \<times> bytes) list" where
  "security_headers s i = [(''X-Request-ID'', i), (''X-Content-Type-Options'', ''nosniff''),
     (''Referrer-Policy'', ''no-referrer''), (''X-Frame-Options'', ''DENY''),
     (''Permissions-Policy'', ''geolocation=(), microphone=(), camera=()'')]
     @ (if sv_Production s then [(''Strict-Transport-Security'', ''max-age=31536000; includeSubDomains'')] else [])"

definition cors_headers :: "server \<Rightarrow> http_request \<Rightarrow> (bytes \<times> bytes) list" where
  "cors_headers s r = (let origin = rq_header r ''Origin'' in
     if origin \<noteq> [] \<and> origin \<in> set (sv_CORSOrigins s) then
       [(''Access-Control-Allow-Origin'', origin), (''Vary'', ''Origin''),
        (''Access-Control-Expose-Headers'', ''X-Request-ID,X-Next-Cursor''),
        (''Access-Control-Allow-Methods'', ''GET,POST,PATCH,DELETE,OPTIONS''),
        (''Access-Control-Allow-Headers'', ''Authorization,Content-Type,X-Request-ID,Last-Event-ID,X-Requested-With'')]
       @ (if sv_RefreshTransport s = ''cookie'' then [(''Access-Control-Allow-Credentials'', ''true'')] else [])
     else [])"

text \<open>The headers set, and the status if the request ends here.\<close>

definition middleware :: "server \<Rightarrow> bytes \<Rightarrow> http_request \<Rightarrow> bytes \<Rightarrow> (bytes \<times> bytes) list \<times> nat option" where
  "middleware s method r i =
     (if sv_DocsDisabled s \<and> HasPrefix (rq_Path r) ''/docs'' then (security_headers s i, Some 404)
      else (security_headers s i @ cors_headers s r, if method = ''OPTIONS'' then Some 204 else None))"

end
