(* ===== verification/Api.thy ===== *)
theory Api
  imports Http
begin

text \<open>
  The endpoints of \<open>internal/httpapi\<close> (\<open>auth.go\<close>, \<open>users.go\<close>, \<open>roles.go\<close>, \<open>permissions.go\<close>, \<open>uploads.go\<close>,
  \<open>notifications.go\<close>, \<open>system.go\<close>): what each handler calls and what it shows of the result
  (\<open>projection.go\<close>).  A call is a decoded request; \<open>serve\<close> is the whole way of a request from the
  check of its token to the answer.  A nil pointer that a handler would follow is the panic the
  middleware recovers from, an internal error.
\<close>

subsection \<open>What clients are shown\<close>

record user_response =
  us_ID :: bytes
  us_Email :: bytes
  us_RoleID :: bytes
  us_CreatedAt :: instant
  us_UpdatedAt :: instant
  us_Role :: "user_role option"

record auth_user_response =
  as_ID :: bytes
  as_Email :: bytes
  as_RoleID :: bytes
  as_CreatedAt :: instant
  as_UpdatedAt :: instant

record user_projection =
  uj_ID :: "bytes option"
  uj_Email :: "bytes option"
  uj_RoleID :: "bytes option"
  uj_CreatedAt :: "instant option"
  uj_UpdatedAt :: "instant option"
  uj_Role :: "user_role option"

record base_role =
  br_ID :: bytes
  br_Name :: bytes
  br_CreatedAt :: instant
  br_UpdatedAt :: instant

definition publicUser :: "model_user \<Rightarrow> user_response" where
  "publicUser v = \<lparr>us_ID = mu_id v, us_Email = mu_email v, us_RoleID = mu_role_id v,
     us_CreatedAt = mu_created_at v, us_UpdatedAt = mu_updated_at v, us_Role = mu_role v\<rparr>"

definition publicAuthUser :: "auth_user \<Rightarrow> auth_user_response" where
  "publicAuthUser v = \<lparr>as_ID = au_id v, as_Email = au_email v, as_RoleID = au_role_id v,
     as_CreatedAt = au_created_at v, as_UpdatedAt = au_updated_at v\<rparr>"

definition baseRole :: "model_role \<Rightarrow> base_role" where
  "baseRole v = \<lparr>br_ID = mr_id v, br_Name = mr_name v, br_CreatedAt = mr_created_at v, br_UpdatedAt = mr_updated_at v\<rparr>"

definition user_fields :: "bytes list" where
  "user_fields = [''id'', ''email'', ''roleId'', ''createdAt'', ''updatedAt'', ''role'']"

definition project_user :: "bytes list \<Rightarrow> model_user \<Rightarrow> user_projection" where
  "project_user sel v =
     \<lparr>uj_ID = (if ''id'' \<in> set sel then Some (mu_id v) else None),
      uj_Email = (if ''email'' \<in> set sel then Some (mu_email v) else None),
      uj_RoleID = (if ''roleId'' \<in> set sel then Some (mu_role_id v) else None),
      uj_CreatedAt = (if ''createdAt'' \<in> set sel then Some (mu_created_at v) else None),
      uj_UpdatedAt = (if ''updatedAt'' \<in> set sel then Some (mu_updated_at v) else None),
      uj_Role = (if ''role'' \<in> set sel then mu_role v else None)\<rparr>"

definition projectUsers :: "model_user list \<Rightarrow> bytes \<Rightarrow> goerr + user_projection list" where
  "projectUsers vs names =
     (let sel = (if names = [] then user_fields else map TrimSpace (Split (CHR '','') names)) in
      if list_all (\<lambda>name. name \<in> set user_fields) sel then Inr (map (project_user sel) vs)
      else Inl (badRequest ''Invalid fields''))"

subsection \<open>Calls and answers\<close>

record upload_file =
  uf_Content :: bytes
  uf_Filename :: bytes
  uf_Size :: int
  uf_ReadFails :: bool
  uf_SeekFails :: bool

datatype call =
    Health | Live | Ready
  | Auth_Register bytes bytes
  | Auth_Login bytes bytes
  | Auth_Refresh bytes
  | Auth_Logout bytes
  | Auth_Me
  | List_Users int int bytes bytes bytes bytes
  | Get_User bytes
  | Create_User bytes bytes bytes
  | Update_User bytes "bytes option" "bytes option"
  | Delete_User bytes
  | List_Roles
  | Get_Role bytes
  | Create_Role bytes
  | Update_Role bytes "bytes option"
  | Delete_Role bytes
  | Assign_Permissions bytes "bytes list"
  | List_Permissions
  | Get_Permission bytes
  | Create_Permission bytes
  | Update_Permission bytes "bytes option"
  | Delete_Permission bytes
  | Create_Upload upload_file
  | Get_Upload bytes
  | Create_Notification create_input
  | List_Notifications bytes
  | Read_Notification bytes

text \<open>The id under which each handler is registered.\<close>

fun endpoint_id :: "call \<Rightarrow> bytes" where
  "endpoint_id Health = ''health.get''"
| "endpoint_id Live = ''live.get''"
| "endpoint_id Ready = ''ready.get''"
| "endpoint_id (Auth_Register m pw) = ''auth.register''"
| "endpoint_id (Auth_Login m pw) = ''auth.login''"
| "endpoint_id (Auth_Refresh t) = ''auth.refresh''"
| "endpoint_id (Auth_Logout t) = ''auth.logout''"
| "endpoint_id Auth_Me = ''auth.me''"
| "endpoint_id (List_Users pg n s b d f) = ''user.list''"
| "endpoint_id (Get_User i) = ''user.get''"
| "endpoint_id (Create_User m pw r) = ''user.create''"
| "endpoint_id (Update_User i m r) = ''user.update''"
| "endpoint_id (Delete_User i) = ''user.delete''"
| "endpoint_id List_Roles = ''role.list''"
| "endpoint_id (Get_Role i) = ''role.get''"
| "endpoint_id (Create_Role n) = ''role.create''"
| "endpoint_id (Update_Role i n) = ''role.update''"
| "endpoint_id (Delete_Role i) = ''role.delete''"
| "endpoint_id (Assign_Permissions i ids) = ''role.assignPermissions''"
| "endpoint_id List_Permissions = ''permission.list''"
| "endpoint_id (Get_Permission i) = ''permission.get''"
| "endpoint_id (Create_Permission n) = ''permission.create''"
| "endpoint_id (Update_Permission i n) = ''permission.update''"
| "endpoint_id (Delete_Permission i) = ''permission.delete''"
| "endpoint_id (Create_Upload f) = ''upload.create''"
| "endpoint_id (Get_Upload i) = ''upload.get''"
| "endpoint_id (Create_Notification n) = ''notification.create''"
| "endpoint_id (List_Notifications c) = ''notification.list''"
| "endpoint_id (Read_Notification i) = ''notification.read''"

datatype answer =
    OK | NoData
  | An_AuthUser auth_user_response
  | An_Token token_response
  | An_Users "user_projection list" pagination
  | An_User user_response
  | An_Roles "model_role list"
  | An_Role model_role
  | An_BaseRole base_role
  | An_Permissions "model_permission list"
  | An_Permission model_permission
  | An_File model_file
  | An_Item item
  | An_Items "item list" bytes

subsection \<open>The handlers\<close>

definition present :: "('a \<Rightarrow> answer) \<Rightarrow> 'a op \<Rightarrow> (goerr, answer \<times> set_cookie option) wop" where
  "present f m = bindW (service m) (\<lambda>a. returnW (f a, None))"

definition internal :: goerr where
  "internal = ApiError 500 ''Internal server error'' []"

definition as_user :: "actor option \<Rightarrow> (actor \<Rightarrow> (goerr, 'a) wop) \<Rightarrow> (goerr, 'a) wop" where
  "as_user act f = (case act of None \<Rightarrow> failW internal | Some a \<Rightarrow> f a)"

definition liftW :: "goerr + 'a \<Rightarrow> (goerr, 'a) wop" where
  "liftW r = (case r of Inl x \<Rightarrow> failW x | Inr a \<Rightarrow> returnW a)"

definition tokens :: "server \<Rightarrow> token_pair \<Rightarrow> answer \<times> set_cookie option" where
  "tokens s pair = (An_Token (fst (issueTokens s pair)), snd (issueTokens s pair))"

text \<open>\<open>Ping\<close> fails when the environment says so.\<close>

definition ping :: "(goerr, unit) wop" where
  "ping = (\<lambda>e w. (case fault_at (on_env e) (at_tick w) of Some x \<Rightarrow> Inl x | None \<Rightarrow> Inr (), pass w))"

definition ready :: "server \<Rightarrow> (goerr, answer \<times> set_cookie option) wop" where
  "ready s = mapW (\<lambda>_. ApiError 503 ''Service unavailable'' [])
     (bindW ping (\<lambda>_. if sv_RateStore s \<noteq> ''redis'' then returnW (OK, None)
       else if \<not> lm_redis (sv_Limiter s) then failW NoRows
       else bindW ping (\<lambda>_. returnW (OK, None))))"

definition create_upload :: "server \<Rightarrow> policy \<Rightarrow> actor option \<Rightarrow> upload_file \<Rightarrow> (goerr, answer \<times> set_cookie option) wop" where
  "create_upload s p act f = (\<lambda>e.
     if \<not> sv_UploadEnabled s then failW (ApiError 503 ''Upload disabled'' []) e
     else if uf_Size f > sv_UploadMaxBytes s then failW (ApiError 413 ''File too large'' []) e
     else if uf_ReadFails f then failW (badRequest ''Invalid file'') e
     else let mime = detect_type e (take 512 (uf_Content f)) in
       if mime \<notin> set (sv_UploadAllowedMIME s) then failW (badRequest ''File type is not allowed'') e
       else if uf_SeekFails f then failW internal e
       else bindW (Upload_Create (sv_Uploads s) p act \<lparr>ui_Source = uf_Content f, ui_Name = uf_Filename f,
         ui_MIME = mime, ui_Size = uf_Size f\<rparr>) (\<lambda>file. returnW (An_File file, None)) e)"

definition create_notification :: "server \<Rightarrow> policy \<Rightarrow> actor option \<Rightarrow> create_input \<Rightarrow>
    (goerr, answer \<times> set_cookie option) wop" where
  "create_notification s p act inp = (\<lambda>e.
     if \<not> uuid_parses (on_env e) (ci_RecipientID inp) then failW (badRequest ''Invalid UUID'') e
     else as_user act (\<lambda>a. mapW (\<lambda>x. if Is x ErrRecipient then notFound
         else if Is x ErrInvalid then badRequest ''Invalid notification'' else x)
       (present An_Item (Notification_Create (sv_SMTPEnabled s) p a inp))) e)"

definition list_notifications :: "actor option \<Rightarrow> bytes \<Rightarrow> (goerr, answer \<times> set_cookie option) wop" where
  "list_notifications act cursor = (case act of
     None \<Rightarrow> failW (ApiError 401 ''Unauthorized'' [])
   | Some a \<Rightarrow> mapW (\<lambda>x. if Is x ErrInvalid then badRequest ''Invalid notification cursor'' else x)
       (present (\<lambda>(values, next). An_Items values next) (Page (a_ID a) cursor)))"

type_synonym handling = "(goerr, answer \<times> set_cookie option) wop"

text \<open>The handlers each file mounts; \<open>None\<close> says that a call belongs to another file.\<close>

fun mountSystem :: "server \<Rightarrow> call \<Rightarrow> handling option" where
  "mountSystem s Health = Some (returnW (OK, None))"
| "mountSystem s Live = Some (returnW (OK, None))"
| "mountSystem s Ready = Some (ready s)"
| "mountSystem s _ = None"

fun mountAuth :: "server \<Rightarrow> http_request \<Rightarrow> actor option \<Rightarrow> call \<Rightarrow> handling option" where
  "mountAuth s r act (Auth_Register m pw) =
     Some (present (\<lambda>u. An_AuthUser (publicAuthUser u)) (Register (policy_of s ''auth.register'' r) m pw))"
| "mountAuth s r act (Auth_Login m pw) =
     Some (bindW (service (Login (sv_Auth s) (policy_of s ''auth.login'' r) m pw)) (\<lambda>pair. returnW (tokens s pair)))"
| "mountAuth s r act (Auth_Refresh t) = Some (bindW (liftW (refreshTokenFrom s r t)) (\<lambda>raw.
     bindW (service (Refresh (sv_Auth s) (policy_of s ''auth.refresh'' r) raw)) (\<lambda>pair. returnW (tokens s pair))))"
| "mountAuth s r act (Auth_Logout t) = Some (bindW (liftW (refreshTokenFrom s r t)) (\<lambda>raw.
     bindW (service (Logout (policy_of s ''auth.logout'' r) raw)) (\<lambda>_. returnW (NoData, clearRefreshCookie s))))"
| "mountAuth s r act Auth_Me = Some (as_user act (\<lambda>a. present (\<lambda>u. An_AuthUser (publicAuthUser u)) (Me a)))"
| "mountAuth s r act _ = None"

fun mountUsers :: "server \<Rightarrow> http_request \<Rightarrow> actor option \<Rightarrow> call \<Rightarrow> handling option" where
  "mountUsers s r act (List_Users pg n search sortBy orderBy names) =
     Some (bindW (service (User_List pg n search sortBy orderBy)) (\<lambda>(vs, meta).
     bindW (liftW (projectUsers vs names)) (\<lambda>rows. returnW (An_Users rows meta, None))))"
| "mountUsers s r act (Get_User i) = Some (present (\<lambda>u. An_User (publicUser u)) (User_Get i))"
| "mountUsers s r act (Create_User m pw ro) =
     Some (present (\<lambda>u. An_User (publicUser u)) (User_Create (policy_of s ''user.create'' r) act m pw ro))"
| "mountUsers s r act (Update_User i m ro) =
     Some (present (\<lambda>u. An_User (publicUser u)) (User_Update (policy_of s ''user.update'' r) act i m ro))"
| "mountUsers s r act (Delete_User i) =
     Some (as_user act (\<lambda>a. present (\<lambda>_. NoData) (User_Delete (policy_of s ''user.delete'' r) a i)))"
| "mountUsers s r act _ = None"

fun mountRoles :: "server \<Rightarrow> http_request \<Rightarrow> actor option \<Rightarrow> call \<Rightarrow> handling option" where
  "mountRoles s r act List_Roles = Some (present An_Roles Role_List)"
| "mountRoles s r act (Get_Role i) = Some (present An_Role (Role_Get i))"
| "mountRoles s r act (Create_Role n) =
     Some (present (\<lambda>x. An_BaseRole (baseRole x)) (Role_Create (policy_of s ''role.create'' r) act n))"
| "mountRoles s r act (Update_Role i n) =
     Some (present (\<lambda>x. An_BaseRole (baseRole x)) (Role_Update (policy_of s ''role.update'' r) act i n))"
| "mountRoles s r act (Delete_Role i) = Some (present (\<lambda>_. NoData) (Role_Delete (policy_of s ''role.delete'' r) act i))"
| "mountRoles s r act (Assign_Permissions i ids) =
     Some (present An_Role (Role_Assign (policy_of s ''role.assignPermissions'' r) act i ids))"
| "mountRoles s r act _ = None"

fun mountPermissions :: "server \<Rightarrow> http_request \<Rightarrow> actor option \<Rightarrow> call \<Rightarrow> handling option" where
  "mountPermissions s r act List_Permissions = Some (present An_Permissions Permission_List)"
| "mountPermissions s r act (Get_Permission i) = Some (present An_Permission (Permission_Get i))"
| "mountPermissions s r act (Create_Permission n) =
     Some (present An_Permission (Permission_Create (policy_of s ''permission.create'' r) act n))"
| "mountPermissions s r act (Update_Permission i n) =
     Some (present An_Permission (Permission_Update (policy_of s ''permission.update'' r) act i n))"
| "mountPermissions s r act (Delete_Permission i) =
     Some (present (\<lambda>_. NoData) (Permission_Delete (policy_of s ''permission.delete'' r) act i))"
| "mountPermissions s r act _ = None"

fun mountUploads :: "server \<Rightarrow> http_request \<Rightarrow> actor option \<Rightarrow> call \<Rightarrow> handling option" where
  "mountUploads s r act (Create_Upload f) = Some (create_upload s (policy_of s ''upload.create'' r) act f)"
| "mountUploads s r act (Get_Upload i) = Some (present An_File (Upload_Get act i))"
| "mountUploads s r act _ = None"

fun mountNotifications :: "server \<Rightarrow> http_request \<Rightarrow> actor option \<Rightarrow> call \<Rightarrow> handling option" where
  "mountNotifications s r act (Create_Notification n) =
     Some (create_notification s (policy_of s ''notification.create'' r) act n)"
| "mountNotifications s r act (List_Notifications c) = Some (list_notifications act c)"
| "mountNotifications s r act (Read_Notification i) = Some (as_user act (\<lambda>a.
     mapW (\<lambda>x. if Is x ErrItem then notFound else x)
       (present An_Item (Notification_Read (policy_of s ''notification.read'' r) a i))))"
| "mountNotifications s r act _ = None"

text \<open>All that \<open>mount\<close> registers; every call is one of it.\<close>

definition mounted_handlers :: "server \<Rightarrow> http_request \<Rightarrow> actor option \<Rightarrow> call \<Rightarrow> handling option list" where
  "mounted_handlers s r act c = [mountSystem s c, mountAuth s r act c, mountUsers s r act c, mountRoles s r act c,
     mountPermissions s r act c, mountUploads s r act c, mountNotifications s r act c]"

definition handler :: "server \<Rightarrow> http_request \<Rightarrow> actor option \<Rightarrow> call \<Rightarrow> handling" where
  "handler s r act c = (case find (\<lambda>h. \<not> Option.is_none h) (mounted_handlers s r act c) of
     Some (Some h) \<Rightarrow> h | _ \<Rightarrow> failW internal)"

lemma handler_mounted: "\<exists>h. Some h \<in> set (mounted_handlers s r act c) \<and> handler s r act c = h"
  by (cases c) (simp_all add: handler_def mounted_handlers_def Option.is_none_def)

subsection \<open>The way of a request\<close>

definition endpoint_of :: "server \<Rightarrow> call \<Rightarrow> endpoint" where
  "endpoint_of s c = (case map_of (sv_Policies s) (endpoint_id c) of
     Some ep \<Rightarrow> ep | None \<Rightarrow> endpoint.make [] [] [] [] [] [] False [] [] [] 0 [])"

text \<open>The list of notifications is registered without \<open>register\<close>: it is not cached.\<close>

definition run_handler :: "(answer \<Rightarrow> bytes option) \<Rightarrow> (bytes \<Rightarrow> answer option) \<Rightarrow> server \<Rightarrow> http_request \<Rightarrow>
    actor option \<Rightarrow> call \<Rightarrow> (api_error, answer option \<times> set_cookie option) wop" where
  "run_handler enc dec s r act c = (case c of
     List_Notifications cursor \<Rightarrow> mapW apiError (bindW (list_notifications act cursor) (\<lambda>(result, cookie).
       bindW (service (Read (policy_of s (endpoint_id c) r) act [])) (\<lambda>_. returnW (Some result, cookie))))
   | _ \<Rightarrow> register enc dec s (endpoint_of s c) r act (handler s r act c))"

text \<open>Huma reads and validates the request after the middleware; \<open>rejected\<close> is what it objects to.\<close>

definition serve :: "(answer \<Rightarrow> bytes option) \<Rightarrow> (bytes \<Rightarrow> answer option) \<Rightarrow> server \<Rightarrow> http_request \<Rightarrow>
    api_error option \<Rightarrow> call \<Rightarrow> (api_error, answer option \<times> set_cookie option) wop" where
  "serve enc dec s r rejected c = bindW (mapW apiError (enforce s (endpoint_of s c) r)) (\<lambda>act.
     case rejected of Some x \<Rightarrow> failW x | None \<Rightarrow> run_handler enc dec s r act c)"

end
