(* ===== verification/ApiSafety.thy ===== *)
theory ApiSafety
  imports Api AccessProperties
begin

text \<open>
  What every request does to the database, whatever the endpoint.  \<open>drives R e m\<close> says that a step
  of the HTTP layer changes the database by \<open>R\<close> only; it composes like \<open>evolves\<close> for the services.
  With it the invariants of the services carry over to sequences of requests, and a request can
  only change the database after its caller was let in.
\<close>

definition drives :: "(database \<Rightarrow> database \<Rightarrow> bool) \<Rightarrow> web_env \<Rightarrow> ('x, 'a) wop \<Rightarrow> bool" where
  "drives R e m \<longleftrightarrow> (\<forall>w. R (db (wb_world w)) (db (wb_world (snd (m e w)))))"

lemma drivesI: "(\<And>w r w'. m e w = (r, w') \<Longrightarrow> R (db (wb_world w)) (db (wb_world w'))) \<Longrightarrow> drives R e m"
  unfolding drives_def by (metis prod.collapse)

lemma drivesD: "drives R e m \<Longrightarrow> m e w = (r, w') \<Longrightarrow> R (db (wb_world w)) (db (wb_world w'))"
  unfolding drives_def by (metis snd_conv)

text \<open>An operation that looks at its environment first.\<close>

lemma drives_at: "drives R e m' \<Longrightarrow> m e = m' e \<Longrightarrow> drives R e m"
  by (simp add: drives_def)

context evolution
begin

lemma dr_done: "drives R e (returnW a)" "drives R e (failW x)"
  by (simp_all add: drives_def returnW_def failW_def refl)

lemma dr_bindW:
  assumes "drives R e m" and "\<And>a. drives R e (k a)"
  shows "drives R e (bindW m k)"
proof (rule drivesI)
  fix w r w'
  assume "bindW m k e w = (r, w')"
  then show "R (db (wb_world w)) (db (wb_world w'))"
  proof (cases rule: bindW_cases)
    case (err x)
    from drivesD [OF assms(1) err(1)] show ?thesis .
  next
    case (ok a w1)
    from drivesD [OF assms(1) ok(1)] drivesD [OF assms(2) ok(2)] show ?thesis by (rule trans)
  qed
qed

lemma dr_mapW: "drives R e m \<Longrightarrow> drives R e (mapW h m)"
  by (rule drivesI) (auto simp: mapW_def dest: drivesD split: prod.splits sum.splits)

lemma dr_attemptW: "drives R e m \<Longrightarrow> drives R e (attemptW m)"
  by (rule drivesI) (auto simp: attemptW_def dest: drivesD split: prod.splits)

lemma dr_service: "evolves R (on_env e) m \<Longrightarrow> drives R e (service m)"
  by (rule drivesI) (auto simp: run_service dest: evolvesD)

lemma dr_redis: "drives R e (redis f)"
  by (auto simp: drives_def redis_def refl split: option.splits sum.splits)

lemma dr_store: "drives R e (store_Put st key c)" "drives R e (store_Delete st key)"
  by (rule drivesI, metis store.put_frame store.delete_frame refl)+

lemma dr_ping: "drives R e ping"
  by (simp add: drives_def ping_def refl)

lemma dr_Allow: "drives R e (Allow l grp key rate)"
proof (rule drivesI)
  fix w r w'
  assume run: "Allow l grp key rate e w = (r, w')"
  have "drives R e (bindW (redis f) (\<lambda>count. returnW (count \<le> n)))" for f :: "instant \<Rightarrow> keyspace \<Rightarrow> goerr + int \<times> keyspace" and n
    by (intro dr_bindW dr_redis dr_done)
  from drivesD [OF this] run show "R (db (wb_world w)) (db (wb_world w'))"
    by (fastforce simp: Allow_def Let_def refl split: if_splits prod.splits)
qed

lemma dr_liftW: "drives R e (liftW x)"
  by (cases x) (simp_all add: liftW_def dr_done)

lemma dr_as_user: "(\<And>a. drives R e (f a)) \<Longrightarrow> drives R e (as_user act f)"
  by (cases act) (simp_all add: as_user_def dr_done)

lemma dr_present: "evolves R (on_env e) m \<Longrightarrow> drives R e (present f m)"
  unfolding present_def by (intro dr_bindW dr_service dr_done)

lemmas dr_rules = dr_done dr_bindW dr_mapW dr_attemptW dr_service dr_redis dr_store dr_ping dr_Allow dr_liftW
  dr_as_user dr_present

end

lemma drives_same: "drives (=) e m \<Longrightarrow> evolution R \<Longrightarrow> drives R e m"
  unfolding drives_def by (metis evolution.refl)

subsection \<open>What comes before a handler does not touch the database\<close>

lemma throttle_reads: "drives (=) e (throttle s ep r c)"
proof (cases "ep_ID ep \<in> {''health.get'', ''live.get'', ''ready.get''}")
  case True
  then show ?thesis by (intro drives_at [OF same.dr_done(1)]) (simp add: throttle_def)
next
  case False
  let ?k = "limit_key s ep r c (parse_ip e)"
  let ?m = "bindW (attemptW (Allow (sv_Limiter s) (ep_Rate ep) ?k (rate_of s (ep_Rate ep))))
        (\<lambda>res. case res of
          Inl x \<Rightarrow> if ep_Rate ep = RateAuth then failW (ApiError 503 ''Rate limiter unavailable'' []) else returnW ()
        | Inr allowed \<Rightarrow> if allowed then returnW () else failW (ApiError 429 ''Too many requests'' []))"
  show ?thesis
  proof (rule drives_at [where m' = ?m])
    show "throttle s ep r c e = ?m e" using False by (simp add: throttle_def)
    show "drives (=) e ?m"
      by (intro same.dr_bindW same.dr_attemptW same.dr_Allow) (auto intro: same.dr_done split: sum.splits)
  qed
qed

lemma enforce_reads: "drives (=) e (enforce s ep r)"
proof -
  have "drives (=) e (verify_token s ep r)"
    unfolding verify_token_def by (simp add: same.dr_rules reads)
  moreover have "drives (=) e (load_actor ep c)" for c
    unfolding load_actor_def by (cases c) (simp_all add: same.dr_rules reads)
  ultimately show ?thesis unfolding enforce_def
    by (intro same.dr_bindW throttle_reads) (auto intro: same.dr_done)
qed

lemma cache_lookup_reads: "drives (=) e (cache_lookup dec s ep r act)"
  unfolding cache_lookup_def Cache_Key_def Cache_Get_def
  by (auto intro!: same.dr_rules split: sum.splits option.splits)

lemma cache_store_reads: "drives (=) e (cache_store enc s key result)"
  unfolding cache_store_def Cache_Put_def by (auto intro!: same.dr_rules split: option.splits)

subsection \<open>Every handler is a step of the system\<close>

lemma evolves_discard: "evolves R e (discard m) \<longleftrightarrow> evolves R e m"
  by (simp add: evolves_def discard_def bindE_def returnE_def split: prod.splits sum.splits)
     (metis (mono_tags, lifting) snd_conv old.sum.exhaust prod.collapse)

lemma system_same: "evolves (=) e m \<Longrightarrow> evolves (system_step e') e m"
  by (rule evolves_same [OF _ system.evolution_axioms])

lemma upload_reads [reads]: "evolves (=) e (Upload_Get act i)"
proof -
  have "evolves (=) e (case act of None \<Rightarrow> failE (New Missing ''Not found'')
     | Some a \<Rightarrow> bindE (if f_uploader_id row \<noteq> Some (a_ID a)
           then bindE (Q (IsRootRole (a_RoleID a))) (\<lambda>root. guardE (if root then None else Some (New Missing ''Not found'')))
           else returnE ()) (\<lambda>_. returnE (File row)))" for row
    by (cases act) (auto intro!: same.ev_rules reads)
  then show ?thesis unfolding Upload_Get_def by (intro same.ev_rules reads)
qed

lemma Upload_Create_tx_wf [writes]: "evolves (keeps wf_db) e (Upload_Create_tx kind key inp act)"
  unfolding Upload_Create_tx_def Let_def by (intro keeps.ev_rules writes)

lemma Upload_Mutate_step: "evolves (system_step e') e (Mutate p act a (Upload_Create_tx kind key inp act'))"
proof -
  let ?m = "Mutate p act a (Upload_Create_tx kind key inp act')"
  have "evolves (keeps wf_db) e ?m"
    by (intro kept.ev_Mutate evolves_achieves writes)
  moreover have "evolves (fixed rbac_view) e ?m" "evolves (fixed session_view) e ?m"
    unfolding Upload_Create_tx_def Let_def
    by (intro rbac_fixed.ev_Mutate session_fixed.ev_Mutate evolves_achieves fixed.ev_rules frames)+
  ultimately show ?thesis by (simp add: system_both view_step sess_view rbac_user_ids)
qed

text \<open>The services, by the requests of the system they are.\<close>

lemma service_steps:
  "evolves (system_step e) e (Register p m pw)" "evolves (system_step e) e (Login s p m pw)"
  "evolves (system_step e) e (Refresh s p raw)" "evolves (system_step e) e (Logout p raw)"
  "evolves (system_step e) e (Role_Create p act n)" "evolves (system_step e) e (Role_Update p act i nm)"
  "evolves (system_step e) e (Role_Delete p act i)" "evolves (system_step e) e (Role_Assign p act i ids)"
  "evolves (system_step e) e (Permission_Create p act n)" "evolves (system_step e) e (Permission_Update p act i nm)"
  "evolves (system_step e) e (Permission_Delete p act i)" "evolves (system_step e) e (User_Create p act m pw r)"
  "evolves (system_step e) e (User_Update p act i mo ro)" "evolves (system_step e) e (User_Delete p a i)"
  "evolves (system_step e) e (Notification_Create sm p a inp)" "evolves (system_step e) e (Notification_Read p a i)"
  "evolves (system_step e) e (Read p act i)" "evolves (system_step e) e (Cleanup c ap)"
  "evolves (system_step e) e (run_once c send ticks)"
  by (simp_all add: system_both auth_rbac Refresh_sess Logout_sess auth_sess outbox_rbac outbox_sess Cleanup_sess
    services_sess Role_Create_step Role_Update_step Role_Delete_step Role_Assign_step Permission_Create_step
    Permission_Update_step Permission_Delete_step User_Create_step User_Update_step User_Delete_step
    rbac.ev_Read sess.ev_Read)

lemma Upload_Create_step: "drives (system_step (on_env e)) e (Upload_Create u p act inp)"
proof (cases "up_Storage u")
  case None
  then show ?thesis by (simp add: Upload_Create_def system.dr_done)
next
  case (Some st)
  then show ?thesis unfolding Upload_Create_def
    by (auto intro!: system.dr_rules Upload_Mutate_step system.ev_clocks split: sum.splits)
qed

lemma create_upload_step: "drives (system_step (on_env e)) e (create_upload s p act f)"
proof (rule drivesI)
  fix w r w'
  assume run: "create_upload s p act f e w = (r, w')"
  have "drives (system_step (on_env e)) e (bindW (Upload_Create (sv_Uploads s) p act inp) (\<lambda>file. returnW (An_File file, None :: set_cookie option)))" for inp
    by (intro system.dr_bindW Upload_Create_step system.dr_done)
  from drivesD [OF this] run show "system_step (on_env e) (db (wb_world w)) (db (wb_world w'))"
    by (auto simp: create_upload_def failW_def Let_def system.refl split: if_splits)
qed

lemma create_notification_step: "drives (system_step (on_env e)) e (create_notification s p act inp)"
proof (rule drivesI)
  fix w r w'
  assume run: "create_notification s p act inp e w = (r, w')"
  have "drives (system_step (on_env e)) e (as_user act (\<lambda>a. mapW h (present An_Item (Notification_Create sm p a inp))))" for h sm
    by (intro system.dr_rules service_steps)
  from drivesD [OF this] run show "system_step (on_env e) (db (wb_world w)) (db (wb_world w'))"
    by (auto simp: create_notification_def failW_def Let_def system.refl split: if_splits)
qed

lemma list_notifications_step: "drives (system_step (on_env e)) e (list_notifications act cursor)"
  unfolding list_notifications_def
  by (auto intro!: system.dr_rules system_same notification_reads split: option.splits)

lemma handler_step: "drives (system_step (on_env e)) e (handler s r act c)"
  by (cases c)
     (auto intro!: system.dr_rules service_steps system_same reads Upload_Create_step create_upload_step
       create_notification_step list_notifications_step simp: handler_def mounted_handlers_def Option.is_none_def ready_def)

lemma audit_read_step: "drives (system_step (on_env e)) e (audit_read s i r act)"
proof (rule drives_at)
  let ?m = "service (Read (policy_of s i r) act (ctxEntityID (uuid_parses (on_env e)) r))"
  show "drives (system_step (on_env e)) e ?m" by (intro system.dr_service service_steps)
  show "audit_read s i r act e = ?m e" by (simp add: audit_read_def)
qed

lemmas system_reads = drives_same [OF _ system.evolution_axioms]

lemma register_step:
  assumes "drives (system_step (on_env e)) e h"
  shows "drives (system_step (on_env e)) e (register enc dec s ep r act h)"
proof -
  have "drives (system_step (on_env e)) e (if ep_Method ep \<noteq> ''GET'' then attemptW (Cache_Invalidate (sv_Cache s)) else returnW (Inr ()))"
    unfolding Cache_Invalidate_def by (auto intro!: system.dr_rules)
  moreover have "drives (system_step (on_env e)) e (if ep_Method ep = ''GET'' then audit_read s (ep_ID ep) r act else returnW ())"
    by (auto intro: audit_read_step system.dr_done)
  ultimately show ?thesis unfolding register_def
    by (intro system.dr_mapW system.dr_bindW system_reads [OF cache_lookup_reads])
       (auto intro!: system.dr_bindW assms audit_read_step system.dr_done system_reads [OF cache_store_reads] split: option.splits)
qed

lemma run_handler_step: "drives (system_step (on_env e)) e (run_handler enc dec s r act c)"
proof -
  have "drives (system_step (on_env e)) e (mapW apiError (bindW (list_notifications act cursor) (\<lambda>(result, cookie).
       bindW (service (Read (policy_of s (endpoint_id c) r) act [])) (\<lambda>_. returnW (Some result, cookie)))))" for cursor
    by (intro system.dr_mapW system.dr_bindW list_notifications_step) (auto intro!: system.dr_rules service_steps)
  moreover have "drives (system_step (on_env e)) e (register enc dec s (endpoint_of s c) r act (handler s r act c))"
    by (intro register_step handler_step)
  ultimately show ?thesis unfolding run_handler_def
    by (cases c) (simp_all del: endpoint_id.simps)
qed

lemma serve_step: "drives (system_step (on_env e)) e (serve enc dec s r rejected c)"
  unfolding serve_def
  by (intro system.dr_bindW system.dr_mapW system_reads [OF enforce_reads])
     (auto intro!: system.dr_done run_handler_step split: option.splits)

lemma cleanup_uploads_step: "drives (system_step (on_env e)) e (cleanup_uploads c kind hours ap)"
proof -
  have list: "drives (=) e (ListOlder before)" for before
    by (auto simp: drives_def ListOlder_def split: option.splits)
  have sweep: "drives (=) e (sweep st kind batch ap n keys)" for st batch n keys
    by (rule drivesI) (simp add: swept_def sweep_swept [THEN swept_def [THEN iffD1], THEN conjunct1])
  show ?thesis unfolding cleanup_uploads_def
    by (intro system.dr_rules service_steps system.ev_clocks system_reads [OF list] system_reads [OF sweep])
qed

subsection \<open>Who is let in\<close>

text \<open>The access rules of the interface: which calls need no account, and the permission of the others.\<close>

fun anonymous :: "call \<Rightarrow> bool" where
  "anonymous Health = True" | "anonymous Live = True" | "anonymous Ready = True"
| "anonymous (Auth_Register m pw) = True" | "anonymous (Auth_Login m pw) = True"
| "anonymous (Auth_Refresh t) = True" | "anonymous (Auth_Logout t) = True"
| "anonymous _ = False"

fun needs :: "call \<Rightarrow> bytes" where
  "needs (List_Users pg n s b d f) = ''manage_users''" | "needs (Get_User i) = ''manage_users''"
| "needs (Create_User m pw r) = ''manage_users''" | "needs (Update_User i m r) = ''manage_users''"
| "needs (Delete_User i) = ''manage_users''"
| "needs List_Roles = ''manage_roles''" | "needs (Get_Role i) = ''manage_roles''"
| "needs (Create_Role n) = ''manage_roles''" | "needs (Update_Role i n) = ''manage_roles''"
| "needs (Delete_Role i) = ''manage_roles''" | "needs (Assign_Permissions i ids) = ''manage_roles''"
| "needs List_Permissions = ''manage_permissions''" | "needs (Get_Permission i) = ''manage_permissions''"
| "needs (Create_Permission n) = ''manage_permissions''" | "needs (Update_Permission i n) = ''manage_permissions''"
| "needs (Delete_Permission i) = ''manage_permissions''"
| "needs (Create_Upload f) = ''manage_uploads''" | "needs (Get_Upload i) = ''manage_uploads''"
| "needs (Create_Notification n) = ''manage_notifications''"
| "needs _ = []"

text \<open>The table agrees, whatever the configuration overrides.\<close>

lemma table_access: "case map_of (map (\<lambda>b. (ep_ID b, b)) Definitions) (endpoint_id c) of None \<Rightarrow> False
    | Some b \<Rightarrow> ep_Public b = anonymous c \<and> ep_Permission b = needs c"
  by (cases c; simp only: endpoint_id.simps needs.simps anonymous.simps; code_simp)

lemma map_of_same_access:
  "list_all2 (\<lambda>b x. modes_ok x \<and> same_access b x \<and> G x) bs xs \<Longrightarrow> map_of (map (\<lambda>b. (ep_ID b, b)) bs) i = Some b \<Longrightarrow>
   \<exists>x. map_of (map (\<lambda>x. (ep_ID x, x)) xs) i = Some x \<and> same_access b x"
  by (induction bs xs rule: list_all2_induct) (auto simp: same_access_ID split: if_splits)

lemma resolved_access:
  assumes "Resolve rates policies = Inr (sv_Policies s)"
  shows "ep_Public (endpoint_of s c) = anonymous c" "ep_Permission (endpoint_of s c) = needs c"
proof -
  from assms have "resolve_loop rates policies Definitions [] [] = Inr (sv_Policies s)"
    by (force simp: Resolve_def split: option.splits)
  from resolve_loop_ok [OF this Definitions_modes] obtain xs where xs: "sv_Policies s = map (\<lambda>x. (ep_ID x, x)) xs"
    "list_all2 (\<lambda>b x. modes_ok x \<and> same_access b x \<and> map_of rates (ep_Rate x) \<noteq> None) Definitions xs"
    by auto
  from table_access [of c] obtain b where b: "map_of (map (\<lambda>b. (ep_ID b, b)) Definitions) (endpoint_id c) = Some b"
    "ep_Public b = anonymous c" "ep_Permission b = needs c" by (auto split: option.splits)
  from map_of_same_access [OF xs(2) b(1)] obtain x where "map_of (sv_Policies s) (endpoint_id c) = Some x" "same_access b x"
    by (auto simp: xs(1))
  then show "ep_Public (endpoint_of s c) = anonymous c" "ep_Permission (endpoint_of s c) = needs c"
    using same_access_fields [of b x] b by (simp_all add: endpoint_of_def)
qed

text \<open>A request that gets past \<open>enforce\<close> has passed its checks, in this order.\<close>

lemma service_bind:
  assumes "bindW (service m) k e w = (Inr b, w')"
  obtains a w1 where "m (on_env e) (wb_world w) = (Inr a, wb_world w1)" "k a e w1 = (Inr b, w')"
proof -
  from assms obtain a w1 where "service m e w = (Inr a, w1)" "k a e w1 = (Inr b, w')" by (auto simp: run_bindW)
  then show thesis by (intro that [of a w1]) (auto simp: run_service)
qed

lemma enforce_passed:
  assumes "enforce s ep r e w = (Inr act, w')" and "\<not> ep_Public ep"
  obtains c a and w1 w2 w3 w4 :: web where "VerifyAccessToken (sv_Auth s) (rq_header r ''Authorization'') (on_env e) (wb_world w) = (Inr c, wb_world w1)"
    "LoadActor c (on_env e) (wb_world w2) = (Inr a, wb_world w3)"
    "Authorize a (ep_Permission ep) (on_env e) (wb_world w3) = (Inr (), wb_world w4)" "act = Some a"
    "db (wb_world w2) = db (wb_world w)" "db (wb_world w3) = db (wb_world w)"
proof -
  obtain claims w1 w2 w4 where ver: "verify_token s ep r e w = (Inr claims, w1)" and thr: "throttle s ep r claims e w1 = (Inr (), w2)"
    and load: "load_actor ep claims e w2 = (Inr act, w4)"
    using assms(1) by (auto simp: enforce_def run_bindW failW_def returnW_def split: if_splits)
  from ver assms(2) have "bindW (service (VerifyAccessToken (sv_Auth s) (rq_header r ''Authorization''))) (\<lambda>c. returnW (Some c)) e w
      = (Inr claims, w1)" by (simp add: verify_token_def)
  then obtain c where c: "VerifyAccessToken (sv_Auth s) (rq_header r ''Authorization'') (on_env e) (wb_world w) = (Inr c, wb_world w1)"
    "claims = Some c" by (elim service_bind) (auto simp: returnW_def)
  from load c(2) have "bindW (service (LoadActor c)) (\<lambda>act. bindW (service (Authorize act (ep_Permission ep))) (\<lambda>_. returnW (Some act))) e w2
      = (Inr act, w4)" by (simp add: load_actor_def)
  then obtain a w3 where a: "LoadActor c (on_env e) (wb_world w2) = (Inr a, wb_world w3)"
    "bindW (service (Authorize a (ep_Permission ep))) (\<lambda>_. returnW (Some a)) e w3 = (Inr act, w4)"
    by (rule service_bind)
  from a(2) have auth: "Authorize a (ep_Permission ep) (on_env e) (wb_world w3) = (Inr (), wb_world w4)" "act = Some a"
    by (auto elim!: service_bind simp: returnW_def)
  have "db (wb_world w1) = db (wb_world w)" using VerifyAccessToken_run [OF c(1)] by simp
  moreover have "db (wb_world w2) = db (wb_world w1)" using drivesD [OF throttle_reads thr] by simp
  moreover have "db (wb_world w3) = db (wb_world w2)" using LoadActor_run [OF a(1)] by simp
  ultimately show thesis using that [OF c(1) a(1) auth] by simp
qed

text \<open>C3. Nobody reads or changes anything without the rights for it.  If a call that needs an account
  is answered with a result or changes the database, then, for every configuration \<open>Resolve\<close>
  accepts, the request carried a token the JWT library accepts with the service's secret, issuer and
  audience, meant for access; its subject is an active user of the database the request found; and
  that user's present role has the permission the call needs.\<close>

theorem serve_authorized:
  assumes "uuid_laws (on_env e)" and "Resolve rates policies = Inr (sv_Policies s)"
    and "distinct (map u_id (users (db (wb_world w))))" and "\<not> anonymous c"
    and "serve enc dec s r rejected c e w = (x, w')"
    and "db (wb_world w') \<noteq> db (wb_world w) \<or> (\<exists>a. x = Inr a)"
  shows "\<exists>token now cl u. rq_header r ''Authorization'' = ''Bearer '' @ token
    \<and> jwt_parse (on_env e) (s_Secret (sv_Auth s)) (s_Issuer (sv_Auth s)) (s_Audience (sv_Auth s)) now token = Some cl
    \<and> cl_TokenUse cl = ''access'' \<and> u \<in> set (users (db (wb_world w)))
    \<and> uuid_in (on_env e) (cl_ID cl) = Some (u_id u) \<and> u_deleted_at u = None
    \<and> (needs c = [] \<or> holds_permission (db (wb_world w)) u (needs c))"
proof -
  let ?ep = "endpoint_of s c"
  note ep = resolved_access [OF assms(2), of c]
  obtain r1 w1 where enf: "enforce s ?ep r e w = (r1, w1)" by fastforce
  have db1: "db (wb_world w1) = db (wb_world w)" using drivesD [OF enforce_reads enf] by simp
  have "\<exists>act. r1 = Inr act"
  proof (cases r1)
    case (Inl y)
    with assms(5) enf have "x = Inl (apiError y)" "w' = w1" by (simp_all add: serve_def bindW_def mapW_def)
    with assms(6) db1 show ?thesis by simp
  qed simp
  with enf obtain act where "enforce s ?ep r e w = (Inr act, w1)" by blast
  then show ?thesis
  proof (rule enforce_passed)
    show "\<not> ep_Public ?ep" using ep(1) assms(4) by simp
  next
    fix cl a and v1 v2 v3 v4 :: web
    assume ver: "VerifyAccessToken (sv_Auth s) (rq_header r ''Authorization'') (on_env e) (wb_world w) = (Inr cl, wb_world v1)"
      and load: "LoadActor cl (on_env e) (wb_world v2) = (Inr a, wb_world v3)"
      and auth: "Authorize a (ep_Permission ?ep) (on_env e) (wb_world v3) = (Inr (), wb_world v4)"
      and dbs: "db (wb_world v2) = db (wb_world w)" "db (wb_world v3) = db (wb_world w)"
    from admitted [OF assms(1) ver load auth dbs assms(3)] ep(2) show ?thesis by auto
  qed
qed

definition sample_server :: server where
  "sample_server = \<lparr>sv_Auth = sample_service, sv_Cache = sample_cache, sv_Limiter = sample_limiter True,
     sv_Policies = map (\<lambda>b. (ep_ID b, b)) Definitions, sv_Rates = sample_groups, sv_TrustProxyHops = 0,
     sv_RateStore = ''redis'', sv_RefreshTransport = ''cookie'', sv_CookieName = ''refresh_token'', sv_CookieDomain = [],
     sv_CookieSecure = True, sv_CookieSameSite = ''lax'', sv_UploadEnabled = True, sv_UploadMaxBytes = 1000,
     sv_UploadAllowedMIME = [''text/plain''], sv_Uploads = sample_uploads, sv_SMTPEnabled = False,
     sv_Production = False, sv_DocsDisabled = False, sv_CORSOrigins = []\<rparr>"

definition sample_request :: http_request where
  "sample_request = \<lparr>rq_RemoteAddr = ''10.0.0.1:99'',
     rq_header = (\<lambda>_. [])(''Authorization'' := ''Bearer jwt'', ''Content-Type'' := ''application/json''),
     rq_cookie = \<lambda>_. None, rq_Path = ''/api/roles'', rq_URI = ''/api/roles'', rq_NoBody = False,
     rq_ContentLength = 20, rq_ID = ''q1''\<rparr>"

definition role_created :: "(api_error + answer option \<times> set_cookie option) \<times> web" where
  "role_created = serve (\<lambda>_. None) (\<lambda>_. None) sample_server sample_request None (Create_Role ''editor'') sample_web_env sample_web"

theorem serve_authorized_witness:
  "\<exists>u \<in> set (users sample_db). u_id u = ''u1'' \<and> holds_permission sample_db u ''manage_roles''"
proof -
  have "\<not> isl (fst role_created)" by code_simp
  then obtain a w' where "serve (\<lambda>_. None) (\<lambda>_. None) sample_server sample_request None (Create_Role ''editor'')
      sample_web_env sample_web = (Inr a, w')"
    unfolding role_created_def by (metis isl_def prod.collapse sum.exhaust)
  moreover have "case Resolve sample_groups [] of Inl x \<Rightarrow> False | Inr pols \<Rightarrow> pols = sv_Policies sample_server" by code_simp
  then have "Resolve sample_groups [] = Inr (sv_Policies sample_server)" by (auto split: sum.splits)
  moreover have "uuid_laws (on_env sample_web_env)" using sample_laws by (simp add: sample_web_env_def)
  moreover have "distinct (map u_id (users (db (wb_world sample_web))))"
    by (simp add: sample_web_def sample_world_def sample_db_def sample_user_def)
  ultimately have "\<exists>token now cl u. jwt_parse (on_env sample_web_env) (s_Secret (sv_Auth sample_server))
      (s_Issuer (sv_Auth sample_server)) (s_Audience (sv_Auth sample_server)) now token = Some cl
    \<and> u \<in> set (users (db (wb_world sample_web))) \<and> uuid_in (on_env sample_web_env) (cl_ID cl) = Some (u_id u)
    \<and> holds_permission (db (wb_world sample_web)) u ''manage_roles''"
    using serve_authorized [where c = "Create_Role ''editor''" and s = sample_server and e = sample_web_env and w = sample_web]
    by fastforce
  then show ?thesis
    by (auto simp: sample_web_env_def sample_env_def sample_web_def sample_world_def sample_claims_def split: if_splits)
qed

subsection \<open>Sequences of requests\<close>

text \<open>
  The program at work: servers answer requests, whatever their configuration, the worker takes
  jobs, and the cleanup runs; every operation may fail in all the ways the environment has.
\<close>

inductive api_run :: "web_env \<Rightarrow> operations \<Rightarrow> web \<Rightarrow> web \<Rightarrow> bool" for e :: web_env and ops :: operations where
  idle: "api_run e ops w w"
| request: "api_run e ops w v \<Longrightarrow> serve enc dec s r rejected c e v = (x, v') \<Longrightarrow> api_run e ops w v'"
| worker: "api_run e ops w v \<Longrightarrow> service (run_once ops send ticks) e v = (y, v') \<Longrightarrow> api_run e ops w v'"
| cleanup: "api_run e ops w v \<Longrightarrow> cleanup_uploads ops kind hours ap e v = (z, v') \<Longrightarrow> api_run e ops w v'"

lemma api_run_step: "api_run e ops w v \<Longrightarrow> system_step (on_env e) (db (wb_world w)) (db (wb_world v))"
proof (induction rule: api_run.induct)
  case (idle w)
  show ?case by (rule system.refl)
next
  case (request w v enc dec s r rejected c x v')
  from system.trans [OF request.IH drivesD [OF serve_step request.hyps(2)]] show ?case .
next
  case (worker w v send ticks y v')
  have "drives (system_step (on_env e)) e (service (run_once ops send ticks))"
    by (intro system.dr_service service_steps)
  from system.trans [OF worker.IH drivesD [OF this worker.hyps(2)]] show ?case .
next
  case (cleanup w v kind hours ap z v')
  from system.trans [OF cleanup.IH drivesD [OF cleanup_uploads_step cleanup.hyps(2)]] show ?case .
qed

text \<open>C4. The promises of the services hold for the whole program.  After any sequence of HTTP requests,
  worker rounds and cleanups, a system permission that an active user held is held by an active
  user, the system roles and permissions are what they were, and the sessions are sound.\<close>

theorem api_run_safe:
  assumes "sound (on_env e) (db (wb_world w))" and "sess_sound (on_env e) (db (wb_world w))"
    and "api_run e ops w v" and "name \<in> set SystemPermissions"
    and "u \<in> set (users (db (wb_world w)))" "u_deleted_at u = None" "holds_permission (db (wb_world w)) u name"
  shows "(\<exists>u' \<in> set (users (db (wb_world v))). u_deleted_at u' = None \<and> holds_permission (db (wb_world v)) u' name)
    \<and> system_rows (db (wb_world v)) = system_rows (db (wb_world w)) \<and> sess_sound (on_env e) (db (wb_world v))"
proof -
  have "still_held (db (wb_world w)) (db (wb_world v))" "system_rows (db (wb_world v)) = system_rows (db (wb_world w))"
    "sess_sound (on_env e) (db (wb_world v))"
    using api_run_step [OF assms(3)] assms(1,2) by (simp_all add: system_step_def rbac_step_def sess_step_def)
  moreover have "active_holders (db (wb_world w)) name > 0" using assms(5-7) holders_exist by blast
  ultimately show ?thesis using assms(4) holders_exist by (auto simp: still_held_def)
qed

lemma role_created_run: "api_run sample_web_env sample_operations sample_web (snd role_created)"
  unfolding role_created_def by (rule api_run.request [OF api_run.idle]) (rule prod.collapse [symmetric])

theorem api_run_safe_witness:
  "\<exists>u' \<in> set (users (db (wb_world (snd role_created)))). u_deleted_at u' = None
    \<and> holds_permission (db (wb_world (snd role_created))) u' ''manage_users''"
proof -
  have u: "sample_user ''u1'' ''root@example.com'' ''r1'' \<in> set (users (db (wb_world sample_web)))"
    and h: "holds_permission (db (wb_world sample_web)) (sample_user ''u1'' ''root@example.com'' ''r1'') ''manage_users''"
    by (simp_all add: sample_web_def sample_world_def sample_db_def holds_permission_def sample_user_def sample_permission_def)
  have "sound (on_env sample_web_env) (db (wb_world sample_web))" "sess_sound (on_env sample_web_env) (db (wb_world sample_web))"
    using sample_sound sample_sess by (simp_all add: sample_web_env_def sample_web_def)
  from api_run_safe [OF this role_created_run _ u _ h] show ?thesis
    by (simp add: SystemPermissions_def sample_user_def)
qed

end
