(* ===== verification/HttpProperties.thy ===== *)
theory HttpProperties
  imports ApiSafety
begin

text \<open>
  The client's address behind proxies and the transport of refresh tokens: what a client can and
  cannot do with the headers it controls.
\<close>

subsection \<open>The address a request is limited by\<close>

lemma Split_at: "Split c (a @ c # b) = Split c a @ Split c b"
proof (induction a)
  case Nil
  then show ?case by simp
next
  case (Cons x a)
  then show ?case by (cases "Split c a") auto
qed

lemma nth_from_end: "0 < n \<Longrightarrow> n \<le> length ys \<Longrightarrow> (xs @ ys) ! (length (xs @ ys) - n) = ys ! (length ys - n)"
proof -
  assume "0 < n" "n \<le> length ys"
  then have "length (xs @ ys) - n = length xs + (length ys - n)" by simp
  then show ?thesis by simp
qed

lemma clientIP_appended:
  assumes "rq_header r ''X-Forwarded-For'' = forged @ '','' @ rq_header r' ''X-Forwarded-For''"
    and "rq_RemoteAddr r' = rq_RemoteAddr r"
    and "sv_TrustProxyHops s \<le> int (length (Split (CHR '','') (rq_header r' ''X-Forwarded-For'')))"
  shows "clientIP s r parse = clientIP s r' parse"
proof (cases "0 < sv_TrustProxyHops s")
  case True
  let ?new = "Split (CHR '','') (rq_header r' ''X-Forwarded-For'')" and ?old = "Split (CHR '','') forged"
  have split: "Split (CHR '','') (rq_header r ''X-Forwarded-For'') = ?old @ ?new"
    using assms(1) by (simp add: Split_at)
  have "nat (sv_TrustProxyHops s) \<le> length ?new" "0 < nat (sv_TrustProxyHops s)" using assms(3) True by simp_all
  then have "(?old @ ?new) ! (length (?old @ ?new) - nat (sv_TrustProxyHops s))
      = ?new ! (length ?new - nat (sv_TrustProxyHops s))"
    by (intro nth_from_end)
  then show ?thesis using assms(2,3) True by (auto simp: clientIP_def split Let_def split: option.splits)
next
  case False
  then show ?thesis using assms(2) by (auto simp: clientIP_def split: option.splits)
qed

text \<open>C35. A client cannot choose the bucket it is counted in.  Behind the configured number of proxies
  each of which appends an entry to \<open>X-Forwarded-For\<close>, whatever the client put in front of those
  entries makes no difference; without proxies the header makes none at all; and an internal
  endpoint counts by the subject of the token.\<close>

theorem limit_key_unforgeable:
  assumes "rq_RemoteAddr r' = rq_RemoteAddr r"
    and "sv_TrustProxyHops s \<le> 0
      \<or> (\<exists>forged. rq_header r ''X-Forwarded-For'' = forged @ '','' @ rq_header r' ''X-Forwarded-For''
          \<and> sv_TrustProxyHops s \<le> int (length (Split (CHR '','') (rq_header r' ''X-Forwarded-For''))))"
  shows "limit_key s ep r claims parse = limit_key s ep r' claims parse
    \<and> (\<forall>c. claims = Some c \<and> ep_Rate ep = RateInternal \<longrightarrow> limit_key s ep r claims parse = cl_ID c)"
proof -
  have "clientIP s r parse = clientIP s r' parse"
  proof (cases "sv_TrustProxyHops s \<le> 0")
    case True
    then show ?thesis using assms(1) by (auto simp: clientIP_def split: option.splits)
  next
    case False
    with assms show ?thesis by (auto intro: clientIP_appended)
  qed
  then show ?thesis by (simp add: limit_key_def split: option.splits)
qed

definition proxied_server :: server where
  "proxied_server = sample_server\<lparr>sv_TrustProxyHops := 1\<rparr>"

definition from_client :: "bytes \<Rightarrow> http_request" where
  "from_client forwarded = sample_request\<lparr>rq_header := (\<lambda>_. [])(''X-Forwarded-For'' := forwarded)\<rparr>"

theorem limit_key_unforgeable_witness:
  "clientIP proxied_server (from_client ''203.0.113.9'') Some = ''203.0.113.9''
   \<and> clientIP proxied_server (from_client ''1.2.3.4,203.0.113.9'') Some = ''203.0.113.9''"
proof -
  let ?ep = "endpoint_of proxied_server (Auth_Login [] [])"
  have "limit_key proxied_server ?ep (from_client ''1.2.3.4,203.0.113.9'') None Some
      = limit_key proxied_server ?ep (from_client ''203.0.113.9'') None Some"
    using limit_key_unforgeable [of "from_client ''203.0.113.9''" "from_client ''1.2.3.4,203.0.113.9''" proxied_server
      ?ep None Some]
    by (simp add: from_client_def proxied_server_def exI [of _ "''1.2.3.4''"])
  moreover have "clientIP proxied_server (from_client ''203.0.113.9'') Some = ''203.0.113.9''" by code_simp
  ultimately show ?thesis by (simp add: limit_key_def)
qed

subsection \<open>Refresh tokens in a cookie\<close>

text \<open>C36. With the cookie transport the body of a login holds no refresh token; the token travels in a
  cookie scripts cannot read, comes back from it as it was issued, and is taken from a cookie only if
  the request carries \<open>X-Requested-With\<close>, which a plain cross-site form cannot send.\<close>

theorem cookie_transport:
  assumes "refreshCookieEnabled s" and "tp_refresh_token pair \<noteq> []"
  shows "\<exists>ck. issueTokens s pair = ((tokenResponse pair)\<lparr>tr_RefreshToken := []\<rparr>, Some ck)
    \<and> ck_HttpOnly ck \<and> ck_Path ck = ''/api/auth'' \<and> ck_Secure ck = sv_CookieSecure s
    \<and> (\<forall>r. rq_cookie r (ck_Name ck) = Some (ck_Value ck) \<longrightarrow> refreshTokenFrom s r [] =
        (if rq_header r ''X-Requested-With'' = []
         then Inl (ApiError 403 ''Cookie-based refresh requires the X-Requested-With header'' [])
         else Inr (tp_refresh_token pair)))"
  using assms by (auto simp: issueTokens_def refreshCookie_def refreshTokenFrom_def)

definition sample_pair :: token_pair where
  "sample_pair = \<lparr>tp_access_token = ''jwt'', tp_refresh_token = ''raw'', tp_access_expires_in = 900, tp_refresh_expires_at = 5000\<rparr>"

definition browser_request :: http_request where
  "browser_request = sample_request\<lparr>rq_cookie := (\<lambda>_. None)(''refresh_token'' := Some ''raw''),
     rq_header := (\<lambda>_. [])(''X-Requested-With'' := ''fetch'')\<rparr>"

theorem cookie_transport_witness:
  "tr_RefreshToken (fst (issueTokens sample_server sample_pair)) = []
    \<and> refreshTokenFrom sample_server browser_request [] = Inr ''raw''"
proof -
  have "refreshCookieEnabled sample_server" "tp_refresh_token sample_pair \<noteq> []"
    by (simp_all add: refreshCookieEnabled_def sample_server_def sample_pair_def)
  from cookie_transport [OF this] obtain ck where ck: "snd (issueTokens sample_server sample_pair) = Some ck"
    "fst (issueTokens sample_server sample_pair) = (tokenResponse sample_pair)\<lparr>tr_RefreshToken := []\<rparr>"
    "rq_cookie browser_request (ck_Name ck) = Some (ck_Value ck) \<Longrightarrow> refreshTokenFrom sample_server browser_request [] =
        (if rq_header browser_request ''X-Requested-With'' = []
         then Inl (ApiError 403 ''Cookie-based refresh requires the X-Requested-With header'' [])
         else Inr (tp_refresh_token sample_pair))" by auto
  have "rq_cookie browser_request (ck_Name ck) = Some (ck_Value ck)"
    using ck(1) by (auto simp: issueTokens_def refreshCookieEnabled_def refreshCookie_def sample_server_def browser_request_def sample_pair_def)
  from ck(3) [OF this] ck(2) show ?thesis by (simp add: browser_request_def sample_pair_def)
qed

end
