(* ===== verification/Config.thy ===== *)
theory Config
  imports Registry OutboxWorker
begin

text \<open>
  \<open>internal/config/config.go\<close> and \<open>operations.go\<close>: what the environment variables say, and which
  configurations the program refuses to start with.  The environment is a partial function; what
  the URL parser, the mail-address parser, the JSON decoder and the project marker give are
  parameters.  Of an error of \<open>strconv\<close> the name of the variable is kept, not the library's text, and a
  refused origin is shown without the escapes of \<open>%q\<close>.
\<close>

type_synonym environ = "bytes \<Rightarrow> bytes option"

record url =
  url_Scheme :: bytes
  url_Host :: bytes
  url_User :: "bytes option"    \<comment> \<open>the user name, if there is user information\<close>
  url_Path :: bytes
  url_RawQuery :: bytes
  url_Fragment :: bytes
  url_String :: bytes

datatype marker = No_Marker | Unreadable goerr | Marker "bytes option"  \<comment> \<open>\<open>databaseProvider\<close>, if it decodes\<close>

record parsers =
  parse_url :: "bytes \<Rightarrow> url option"
  parse_address :: "bytes \<Rightarrow> bytes option"
  decode_policies :: "bytes \<Rightarrow> goerr + (bytes \<times> policy_override) list option"  \<comment> \<open>None for \<open>null\<close>\<close>
  project_marker :: marker

record configuration =
  cf_Operations :: operations
  cf_Environment :: bytes
  cf_Port :: int
  cf_DatabaseURL :: bytes
  cf_DatabaseProvider :: bytes
  cf_JWTSecret :: bytes
  cf_JWTIssuer :: bytes
  cf_JWTAudience :: bytes
  cf_RefreshIdleDays :: int
  cf_RefreshAbsoluteDays :: int
  cf_CORSOrigins :: "bytes list"
  cf_RedisURL :: bytes
  cf_RedisNamespace :: bytes
  cf_CacheEnabled :: bool
  cf_RateStore :: bytes
  cf_Rates :: "(bytes \<times> rate) list"
  cf_InstanceCount :: int
  cf_TrustProxyHops :: int
  cf_Policies :: "(bytes \<times> policy_override) list"
  cf_UploadEnabled :: bool
  cf_DocsDisabled :: bool
  cf_RefreshTransport :: bytes
  cf_RefreshCookieName :: bytes
  cf_RefreshCookieSameSite :: bytes
  cf_RefreshCookieDomain :: bytes
  cf_RefreshCookieSecure :: bool
  cf_UploadStorage :: bytes
  cf_UploadLocalDir :: bytes
  cf_UploadMaxBytes :: int
  cf_UploadAllowedMIME :: "bytes list"
  cf_UploadOrphanGraceHours :: int
  cf_S3Endpoint :: bytes
  cf_S3Region :: bytes
  cf_S3Bucket :: bytes
  cf_S3AccessKey :: bytes
  cf_S3SecretKey :: bytes
  cf_S3PathStyle :: bool
  cf_OTelEnabled :: bool
  cf_OTelServiceName :: bytes
  cf_OTelEndpoint :: bytes
  cf_SMTPEnabled :: bool
  cf_SMTPHost :: bytes
  cf_SMTPPort :: int
  cf_SMTPSecure :: bool
  cf_SMTPUser :: bytes
  cf_SMTPPassword :: bytes
  cf_SMTPFrom :: bytes

subsection \<open>Variables\<close>

definition getenv :: "environ \<Rightarrow> bytes \<Rightarrow> bytes \<Rightarrow> bytes" where
  "getenv g key fallback = (case g key of Some v \<Rightarrow> v | None \<Rightarrow> fallback)"

definition integer :: "environ \<Rightarrow> bytes \<Rightarrow> int \<Rightarrow> goerr + int" where
  "integer g key fallback = (case Atoi (getenv g key (FormatInt fallback)) of
     Inl _ \<Rightarrow> Inl (OtherError key) | Inr v \<Rightarrow> Inr v)"

definition boolean :: "environ \<Rightarrow> bytes \<Rightarrow> bool \<Rightarrow> goerr + bool" where
  "boolean g key fallback = (case ParseBool (getenv g key (FormatBool fallback)) of
     Inl _ \<Rightarrow> Inl (OtherError key) | Inr b \<Rightarrow> Inr b)"

definition demand :: "bool \<Rightarrow> bytes \<Rightarrow> goerr + unit" where
  "demand ok message = (if ok then Inr () else Inl (OtherError message))"

text \<open>The regular expressions, all anchored at both ends.\<close>

definition between :: "char \<Rightarrow> char \<Rightarrow> char \<Rightarrow> bool" where
  "between a b c \<longleftrightarrow> byte a \<le> byte c \<and> byte c \<le> byte b"

definition letter :: "char \<Rightarrow> bool" where
  "letter c \<longleftrightarrow> between (CHR ''A'') (CHR ''Z'') c \<or> between (CHR ''a'') (CHR ''z'') c"

definition cookieName :: "bytes \<Rightarrow> bool" where
  "cookieName s \<longleftrightarrow> 1 \<le> length s \<and> length s \<le> 64
     \<and> list_all (\<lambda>c. letter c \<or> digit c \<or> c = CHR ''_'' \<or> c = CHR ''-'') s"

definition cookieDomain :: "bytes \<Rightarrow> bool" where
  "cookieDomain s \<longleftrightarrow> s \<noteq> [] \<and> list_all (\<lambda>c. letter c \<or> digit c \<or> c = CHR ''.'' \<or> c = CHR ''-'') s"

definition sql_identifier :: "bytes \<Rightarrow> bool" where
  "sql_identifier s \<longleftrightarrow> s \<noteq> [] \<and> (letter (hd s) \<or> hd s = CHR ''_'')
     \<and> list_all (\<lambda>c. letter c \<or> digit c \<or> c = CHR ''_'') s"

definition namespace_ok :: "bytes \<Rightarrow> bool" where
  "namespace_ok s \<longleftrightarrow> s \<noteq> [] \<and> length s \<le> 64 \<and> (between (CHR ''a'') (CHR ''z'') (hd s) \<or> digit (hd s))
     \<and> list_all (\<lambda>c. between (CHR ''a'') (CHR ''z'') c \<or> digit c \<or> c = CHR ''_'' \<or> c = CHR ''-'') s"

definition service_name :: "bytes \<Rightarrow> bool" where
  "service_name s \<longleftrightarrow> 1 \<le> length s \<and> length s \<le> 80
     \<and> list_all (\<lambda>c. letter c \<or> digit c \<or> c = CHR ''.'' \<or> c = CHR ''_'' \<or> c = CHR ''-'') s"

subsection \<open>Operations\<close>

text \<open>One entry of the table: the number must be there or have a default, and be in its range.\<close>

definition field :: "environ \<Rightarrow> bytes \<Rightarrow> int \<Rightarrow> int \<Rightarrow> int \<Rightarrow> goerr + int" where
  "field g key fallback lo hi = (case integer g key fallback of
     Inl _ \<Rightarrow> Inl (OtherError (''invalid '' @ key))
   | Inr v \<Rightarrow> if v < lo \<or> v > hi then Inl (OtherError (''invalid '' @ key)) else Inr v)"

definition loadOperations :: "environ \<Rightarrow> goerr + operations" where
  "loadOperations g =
     and_then (field g ''WORKER_CONCURRENCY'' 2 1 16) (\<lambda>concurrency.
     and_then (field g ''WORKER_POLL_SECONDS'' 3 1 300) (\<lambda>poll.
     and_then (field g ''WORKER_LEASE_SECONDS'' 60 30 3600) (\<lambda>lease.
     and_then (field g ''WORKER_RENEW_SECONDS'' 20 1 1800) (\<lambda>renewal.
     and_then (field g ''WORKER_MAX_ATTEMPTS'' 5 1 5) (\<lambda>attempts.
     and_then (field g ''CLEANUP_BATCH_SIZE'' 500 1 5000) (\<lambda>batch.
     and_then (field g ''CLEANUP_SESSION_DAYS'' 30 1 3650) (\<lambda>sessions.
     and_then (field g ''CLEANUP_OUTBOX_DAYS'' 30 1 3650) (\<lambda>outbox.
     and_then (field g ''CLEANUP_AUDIT_DAYS'' 365 1 36500) (\<lambda>audit.
     and_then (boolean g ''CLEANUP_AUDIT_ENABLED'' False) (\<lambda>enabled.
     and_then (demand (\<not> enabled \<or> getenv g ''CLEANUP_AUDIT_DAYS'' [] \<noteq> [])
       ''audit cleanup requires explicit CLEANUP_AUDIT_DAYS'') (\<lambda>_.
     and_then (demand (renewal * 2 < lease) ''lease renewal must be less than half the lease duration'') (\<lambda>_.
     Inr \<lparr>op_Concurrency = concurrency, op_PollSeconds = poll, op_LeaseSeconds = lease, op_RenewSeconds = renewal,
       op_MaxAttempts = attempts, op_BatchSize = batch, op_SessionDays = sessions, op_OutboxDays = outbox,
       op_AuditDays = audit, op_AuditEnabled = enabled\<rparr>))))))))))))"

subsection \<open>The configuration\<close>

definition zero_operations :: operations where
  "zero_operations = \<lparr>op_Concurrency = 0, op_PollSeconds = 0, op_LeaseSeconds = 0, op_RenewSeconds = 0,
     op_MaxAttempts = 0, op_BatchSize = 0, op_SessionDays = 0, op_OutboxDays = 0, op_AuditDays = 0, op_AuditEnabled = False\<rparr>"

text \<open>The variables that are taken as they are.\<close>

definition base_config :: "environ \<Rightarrow> configuration" where
  "base_config g = \<lparr>cf_Operations = zero_operations, cf_Environment = getenv g ''NODE_ENV'' ''development'', cf_Port = 8080,
     cf_DatabaseURL = getenv g ''DATABASE_URL'' [], cf_DatabaseProvider = getenv g ''DB_PROVIDER'' ''postgresql'',
     cf_JWTSecret = getenv g ''JWT_SECRET'' [], cf_JWTIssuer = getenv g ''JWT_ISSUER'' [], cf_JWTAudience = getenv g ''JWT_AUDIENCE'' [],
     cf_RefreshIdleDays = 0, cf_RefreshAbsoluteDays = 0, cf_CORSOrigins = [], cf_RedisURL = getenv g ''REDIS_URL'' [],
     cf_RedisNamespace = getenv g ''REDIS_NAMESPACE'' ''modular-golang'', cf_CacheEnabled = False,
     cf_RateStore = getenv g ''RATE_LIMIT_STORE'' ''memory'', cf_Rates = [], cf_InstanceCount = 0, cf_TrustProxyHops = 0,
     cf_Policies = [], cf_UploadEnabled = False, cf_DocsDisabled = False, cf_RefreshTransport = [], cf_RefreshCookieName = [],
     cf_RefreshCookieSameSite = [], cf_RefreshCookieDomain = [], cf_RefreshCookieSecure = False,
     cf_UploadStorage = getenv g ''UPLOAD_STORAGE'' ''local'', cf_UploadLocalDir = getenv g ''UPLOAD_LOCAL_DIR'' ''./uploads'',
     cf_UploadMaxBytes = 0, cf_UploadAllowedMIME = [], cf_UploadOrphanGraceHours = 0,
     cf_S3Endpoint = getenv g ''S3_ENDPOINT'' [], cf_S3Region = getenv g ''S3_REGION'' [], cf_S3Bucket = getenv g ''S3_BUCKET'' [],
     cf_S3AccessKey = getenv g ''S3_ACCESS_KEY_ID'' [], cf_S3SecretKey = getenv g ''S3_SECRET_ACCESS_KEY'' [],
     cf_S3PathStyle = False, cf_OTelEnabled = False, cf_OTelServiceName = getenv g ''OTEL_SERVICE_NAME'' ''modular-golang'',
     cf_OTelEndpoint = getenv g ''OTEL_EXPORTER_OTLP_ENDPOINT'' ''http://localhost:4318'', cf_SMTPEnabled = False,
     cf_SMTPHost = getenv g ''SMTP_HOST'' [], cf_SMTPPort = 0, cf_SMTPSecure = False, cf_SMTPUser = getenv g ''SMTP_USER'' [],
     cf_SMTPPassword = getenv g ''SMTP_PASSWORD'' [], cf_SMTPFrom = getenv g ''SMTP_FROM'' []\<rparr>"

definition load_smtp :: "environ \<Rightarrow> parsers \<Rightarrow> configuration \<Rightarrow> goerr + configuration" where
  "load_smtp g ps c =
     and_then (integer g ''PORT'' 8080) (\<lambda>port.
     and_then (integer g ''SMTP_PORT'' 587) (\<lambda>smtp_port.
     and_then (boolean g ''SMTP_ENABLED'' False) (\<lambda>enabled.
     and_then (boolean g ''SMTP_SECURE'' False) (\<lambda>secure.
     and_then (demand (\<not> (enabled \<and> (cf_SMTPHost c = [] \<or> cf_SMTPFrom c = [] \<or> smtp_port < 1 \<or> smtp_port > 65535
         \<or> (cf_SMTPUser c = []) \<noteq> (cf_SMTPPassword c = []))))
       ''SMTP requires host, sender, valid port, and matching username/password'') (\<lambda>_.
     and_then (demand (\<not> enabled \<or> parse_address ps (cf_SMTPFrom c) = Some (cf_SMTPFrom c))
       ''SMTP_FROM must be a valid email address'') (\<lambda>_.
     Inr (c\<lparr>cf_Port := port, cf_SMTPPort := smtp_port, cf_SMTPEnabled := enabled, cf_SMTPSecure := secure\<rparr>)))))))"

definition load_numbers :: "environ \<Rightarrow> configuration \<Rightarrow> goerr + configuration" where
  "load_numbers g c =
     and_then (integer g ''APP_INSTANCE_COUNT'' 1) (\<lambda>instances.
     and_then (integer g ''TRUST_PROXY_HOPS'' 0) (\<lambda>hops.
     and_then (integer g ''REFRESH_TOKEN_IDLE_DAYS'' 30) (\<lambda>idle.
     and_then (integer g ''REFRESH_TOKEN_ABSOLUTE_DAYS'' 90) (\<lambda>absolute.
     and_then (demand (\<not> (idle < 1 \<or> absolute > 3650 \<or> absolute < idle))
       ''REFRESH_TOKEN_IDLE_DAYS and REFRESH_TOKEN_ABSOLUTE_DAYS must be 1-3650 with absolute >= idle'') (\<lambda>_.
     and_then (integer g ''UPLOAD_ORPHAN_GRACE_HOURS'' 24) (\<lambda>hours.
     and_then (integer g ''UPLOAD_MAX_BYTES'' 10485760) (\<lambda>maxBytes.
     and_then (boolean g ''CACHE_ENABLED'' False) (\<lambda>cache_on.
     and_then (boolean g ''UPLOAD_ENABLED'' True) (\<lambda>upload_on.
     and_then (boolean g ''DOCS_ENABLED'' (cf_Environment c \<noteq> ''production'')) (\<lambda>docsEnabled.
     Inr (c\<lparr>cf_InstanceCount := instances, cf_TrustProxyHops := hops, cf_RefreshIdleDays := idle,
       cf_RefreshAbsoluteDays := absolute, cf_UploadOrphanGraceHours := hours, cf_UploadMaxBytes := maxBytes,
       cf_CacheEnabled := cache_on, cf_UploadEnabled := upload_on, cf_DocsDisabled := \<not> docsEnabled\<rparr>)))))))))))"

definition load_cookie :: "environ \<Rightarrow> configuration \<Rightarrow> goerr + configuration" where
  "load_cookie g c = (let transport = getenv g ''REFRESH_TOKEN_TRANSPORT'' ''body'';
       name = getenv g ''REFRESH_COOKIE_NAME'' ''refresh_token''; samesite = getenv g ''REFRESH_COOKIE_SAMESITE'' ''lax'';
       domain = getenv g ''REFRESH_COOKIE_DOMAIN'' [] in
     and_then (demand (transport = ''body'' \<or> transport = ''cookie'') ''REFRESH_TOKEN_TRANSPORT must be body or cookie'') (\<lambda>_.
     and_then (demand (cookieName name) ''REFRESH_COOKIE_NAME must match [A-Za-z0-9_-]{1,64}'') (\<lambda>_.
     and_then (demand (samesite = ''lax'' \<or> samesite = ''strict'' \<or> samesite = ''none'')
       ''REFRESH_COOKIE_SAMESITE must be lax, strict or none'') (\<lambda>_.
     and_then (demand (domain = [] \<or> cookieDomain domain) ''REFRESH_COOKIE_DOMAIN is invalid'') (\<lambda>_.
     and_then (boolean g ''REFRESH_COOKIE_SECURE'' True) (\<lambda>secure.
     and_then (demand (\<not> (samesite = ''none'' \<and> \<not> secure)) ''SameSite=None cookies must be Secure'') (\<lambda>_.
     and_then (boolean g ''S3_FORCE_PATH_STYLE'' True) (\<lambda>path_style.
     and_then (boolean g ''OTEL_ENABLED'' False) (\<lambda>otel.
     Inr (c\<lparr>cf_RefreshTransport := transport, cf_RefreshCookieName := name, cf_RefreshCookieSameSite := samesite,
       cf_RefreshCookieDomain := domain, cf_RefreshCookieSecure := secure, cf_S3PathStyle := path_style,
       cf_OTelEnabled := otel\<rparr>))))))))))"

text \<open>The loop over the rate groups, with their defaults.\<close>

fun load_rates :: "environ \<Rightarrow> (bytes \<times> int) list \<Rightarrow> (bytes \<times> rate) list \<Rightarrow> goerr + (bytes \<times> rate) list" where
  "load_rates g [] rates = Inr rates"
| "load_rates g ((grp, dflt) # rest) rates =
     and_then (integer g (''RATE_LIMIT_'' @ grp @ ''_WINDOW_MS'') 900000) (\<lambda>window.
     and_then (integer g (''RATE_LIMIT_'' @ grp @ ''_MAX'') dflt) (\<lambda>maximum.
     and_then (demand (\<not> (window \<le> 0 \<or> maximum \<le> 0)) (''rate '' @ grp @ '' must be positive'')) (\<lambda>_.
     load_rates g rest (put (ToLower grp) \<lparr>rt_WindowMS = window, rt_Max = maximum\<rparr> rates))))"

text \<open>An origin is a scheme and a host and nothing else, written as the URL library writes it.\<close>

definition valid_origin :: "parsers \<Rightarrow> bytes \<Rightarrow> bool" where
  "valid_origin ps origin = (case parse_url ps origin of
     None \<Rightarrow> False
   | Some u \<Rightarrow> \<not> (url_Host u = [] \<or> (url_Scheme u \<noteq> ''http'' \<and> url_Scheme u \<noteq> ''https'') \<or> url_String u \<noteq> origin
       \<or> url_Path u \<noteq> [] \<or> url_RawQuery u \<noteq> [] \<or> url_Fragment u \<noteq> [] \<or> url_User u \<noteq> None))"

fun load_origins :: "parsers \<Rightarrow> bytes list \<Rightarrow> bytes list \<Rightarrow> goerr + bytes list" where
  "load_origins ps [] origins = Inr origins"
| "load_origins ps (item # items) origins = (let origin = TrimSpace item in
     if origin = [] then load_origins ps items origins
     else if valid_origin ps origin then load_origins ps items (List.insert origin origins)
     else Inl (OtherError (''invalid CORS origin '' @ [CHR 0x22] @ origin @ [CHR 0x22])))"

definition load_lists :: "environ \<Rightarrow> parsers \<Rightarrow> configuration \<Rightarrow> goerr + configuration" where
  "load_lists g ps c =
     and_then (load_rates g [(''AUTH'', 20), (''PUBLIC'', 100), (''INTERNAL'', 300)] []) (\<lambda>rates.
     and_then (load_origins ps (Split (CHR '','') (getenv g ''CORS_ORIGINS''
       (if cf_Environment c = ''production'' then [] else ''http://localhost:5173,http://localhost:3000''))) []) (\<lambda>origins.
     and_then (decode_policies ps (getenv g ''ENDPOINT_POLICIES_JSON'' ''{}'')) (\<lambda>policies. case policies of
       None \<Rightarrow> Inl (OtherError ''ENDPOINT_POLICIES_JSON must be an object'')
     | Some pols \<Rightarrow> Inr (c\<lparr>cf_Rates := rates, cf_CORSOrigins := origins,
         cf_UploadAllowedMIME := filter (\<lambda>v. v \<noteq> []) (map TrimSpace (Split (CHR '','')
           (getenv g ''UPLOAD_ALLOWED_MIME'' ''image/png,image/jpeg,application/pdf''))),
         cf_Policies := pols\<rparr>))))"

definition check_secrets :: "parsers \<Rightarrow> configuration \<Rightarrow> goerr + unit" where
  "check_secrets ps c =
     and_then (demand (\<not> (cf_Port c < 1 \<or> cf_Port c > 65535 \<or> cf_InstanceCount c < 1 \<or> cf_TrustProxyHops c < 0
       \<or> cf_UploadMaxBytes c < 1 \<or> cf_UploadMaxBytes c > 104857600 \<or> cf_UploadOrphanGraceHours c < 1))
       ''invalid numeric configuration'') (\<lambda>_.
     and_then (demand (\<not> (cf_DatabaseURL c = [] \<or> length (cf_JWTSecret c) < 32))
       ''DATABASE_URL and JWT_SECRET (minimum 32 characters) are required'') (\<lambda>_.
     and_then (demand (\<not> (cf_Environment c = ''production'' \<and> Contains (ToLower (cf_JWTSecret c)) ''replace''))
       ''JWT_SECRET must be a generated secret in production'') (\<lambda>_.
     demand (\<not> (cf_DatabaseProvider c \<noteq> ''postgresql'' \<and> cf_DatabaseProvider c \<noteq> ''mysql''))
       ''DB_PROVIDER must be postgresql or mysql'')))"

definition maximum_user :: "bytes \<Rightarrow> nat" where
  "maximum_user provider = (if provider = ''mysql'' then 32 else 63)"

definition maximum_database :: "bytes \<Rightarrow> nat" where
  "maximum_database provider = (if provider = ''mysql'' then 64 else 63)"

definition check_database :: "parsers \<Rightarrow> configuration \<Rightarrow> goerr + unit" where
  "check_database ps c = (let provider = cf_DatabaseProvider c in case parse_url ps (cf_DatabaseURL c) of
     None \<Rightarrow> Inl (OtherError ''DATABASE_URL does not match DB_PROVIDER'')
   | Some u \<Rightarrow>
       and_then (demand (\<not> (provider = ''mysql'' \<and> url_Scheme u \<noteq> ''mysql''
           \<or> provider = ''postgresql'' \<and> url_Scheme u \<noteq> ''postgresql'' \<and> url_Scheme u \<noteq> ''postgres''))
         ''DATABASE_URL does not match DB_PROVIDER'') (\<lambda>_.
       let username = (case url_User u of None \<Rightarrow> [] | Some n \<Rightarrow> n); databaseName = TrimPrefix (url_Path u) ''/'' in
       and_then (demand (sql_identifier username \<and> length username \<le> maximum_user provider)
         (provider @ '' username must be an ASCII SQL identifier (maximum '' @ Itoa (maximum_user provider) @ '' characters)'')) (\<lambda>_.
       demand (sql_identifier databaseName \<and> length databaseName \<le> maximum_database provider)
         (provider @ '' database must be an ASCII SQL identifier (maximum '' @ Itoa (maximum_database provider) @ '' characters)''))))"

definition check_marker :: "parsers \<Rightarrow> configuration \<Rightarrow> goerr + unit" where
  "check_marker ps c = (case project_marker ps of
     No_Marker \<Rightarrow> Inr ()
   | Unreadable x \<Rightarrow> Inl x
   | Marker p \<Rightarrow> demand (p = Some (cf_DatabaseProvider c)) ''DB_PROVIDER does not match generated project'')"

definition check_services :: "parsers \<Rightarrow> configuration \<Rightarrow> goerr + unit" where
  "check_services ps c =
     and_then (demand (\<not> (cf_Environment c \<noteq> ''development'' \<and> cf_Environment c \<noteq> ''production'' \<and> cf_Environment c \<noteq> ''test''))
       ''NODE_ENV must be development, production, or test'') (\<lambda>_.
     and_then (demand (\<not> (cf_Environment c = ''production'' \<and> cf_CORSOrigins c = [])) ''CORS_ORIGINS is required in production'') (\<lambda>_.
     and_then (demand (namespace_ok (cf_RedisNamespace c)) ''invalid REDIS_NAMESPACE'') (\<lambda>_.
     and_then (demand (\<not> (cf_RateStore c \<noteq> ''memory'' \<and> cf_RateStore c \<noteq> ''redis'')) ''RATE_LIMIT_STORE must be memory or redis'') (\<lambda>_.
     and_then (demand (\<not> (cf_InstanceCount c > 1 \<and> cf_RateStore c = ''memory''))
       ''Redis rate store is required for multiple app instances'') (\<lambda>_.
     and_then (demand (\<not> ((cf_CacheEnabled c \<or> cf_RateStore c = ''redis'') \<and> cf_RedisURL c = []))
       ''REDIS_URL is required when Redis is enabled'') (\<lambda>_.
     and_then (demand (\<not> (cf_UploadStorage c \<noteq> ''local'' \<and> cf_UploadStorage c \<noteq> ''s3'')) ''UPLOAD_STORAGE must be local or s3'') (\<lambda>_.
     and_then (demand (\<not> (cf_UploadEnabled c \<and> cf_UploadStorage c = ''s3'' \<and> (cf_S3Region c = [] \<or> cf_S3Bucket c = []
         \<or> cf_S3AccessKey c = [] \<or> cf_S3SecretKey c = []))) ''S3 region, bucket and credentials are required'') (\<lambda>_.
     if \<not> cf_OTelEnabled c then Inr ()
     else and_then (demand (service_name (cf_OTelServiceName c)) ''Invalid OTEL_SERVICE_NAME'') (\<lambda>_.
       demand (case parse_url ps (cf_OTelEndpoint c) of None \<Rightarrow> False
         | Some u \<Rightarrow> \<not> (url_Host u = [] \<or> url_User u \<noteq> None \<or> url_RawQuery u \<noteq> [] \<or> url_Fragment u \<noteq> []
             \<or> (url_Scheme u \<noteq> ''http'' \<and> url_Scheme u \<noteq> ''https'')))
         ''OTEL_EXPORTER_OTLP_ENDPOINT must be an HTTP URL when OTel is enabled'')))))))))"

definition Load :: "environ \<Rightarrow> parsers \<Rightarrow> goerr + configuration" where
  "Load g ps =
     and_then (load_smtp g ps (base_config g)) (\<lambda>c1.
     and_then (load_numbers g c1) (\<lambda>c2.
     and_then (load_cookie g c2) (\<lambda>c3.
     and_then (load_lists g ps c3) (\<lambda>c.
     and_then (check_secrets ps c) (\<lambda>_.
     and_then (check_database ps c) (\<lambda>_.
     and_then (check_marker ps c) (\<lambda>_.
     and_then (check_services ps c) (\<lambda>_.
     and_then (loadOperations g) (\<lambda>ops. Inr (c\<lparr>cf_Operations := ops\<rparr>))))))))))"

end
