(* ===== verification/Startup.thy ===== *)
theory Startup
  imports Config ApiSafety
begin

text \<open>
  From the configuration to a running server: \<open>app.New\<close>, \<open>httpapi.NewServer\<close> and what
  \<open>cmd/api\<close> puts together.  The property says what the checks of \<open>Load\<close> buy at run time.
\<close>

definition days :: "int \<Rightarrow> int" where
  "days n = n * 24 * 3600 * 1000"

definition new_auth :: "configuration \<Rightarrow> auth_service" where
  "new_auth c = \<lparr>s_Secret = cf_JWTSecret c, s_Issuer = cf_JWTIssuer c, s_Audience = cf_JWTAudience c,
     s_RefreshIdle = days (cf_RefreshIdleDays c), s_RefreshAbsolute = days (cf_RefreshAbsoluteDays c)\<rparr>"

definition new_uploads :: "configuration \<Rightarrow> storage option \<Rightarrow> upload_service" where
  "new_uploads c store = \<lparr>up_Storage = store, up_Kind = cf_UploadStorage c\<rparr>"

text \<open>What is handed to Huma for an endpoint; a panic while the routes are set up is an error of the start.\<close>

record operation =
  hu_OperationID :: bytes
  hu_Method :: bytes
  hu_Path :: bytes
  hu_Summary :: bytes
  hu_Tags :: "bytes list"
  hu_DefaultStatus :: int
  hu_MaxBodyBytes :: int
  hu_Bearer :: bool

definition operation_of :: "int \<Rightarrow> endpoint \<Rightarrow> operation" where
  "operation_of max_upload ep = \<lparr>hu_OperationID = ep_ID ep, hu_Method = ep_Method ep, hu_Path = ep_Path ep,
     hu_Summary = ep_Summary ep, hu_Tags = [ep_Module ep], hu_DefaultStatus = ep_Status ep,
     hu_MaxBodyBytes = (if ep_ID ep = ''upload.create'' then max_upload + 1048576 else 1048576),
     hu_Bearer = (\<not> ep_Public ep)\<rparr>"

text \<open>The identifiers in the order the \<open>mount\<close> functions register them.\<close>

definition mounted :: "bytes list" where
  "mounted = [''health.get'', ''live.get'', ''ready.get'', ''docs.ui'', ''docs.spec'', ''docs.moduleSpec'',
     ''auth.register'', ''auth.login'', ''auth.refresh'', ''auth.logout'', ''auth.me'',
     ''user.list'', ''user.get'', ''user.create'', ''user.update'', ''user.delete'',
     ''role.list'', ''role.get'', ''role.create'', ''role.update'', ''role.delete'', ''role.assignPermissions'',
     ''permission.list'', ''permission.get'', ''permission.create'', ''permission.update'', ''permission.delete'',
     ''upload.create'', ''upload.get'',
     ''notification.create'', ''notification.list'', ''notification.read'', ''notification.stream'']"

fun mount :: "(bytes \<times> endpoint) list \<Rightarrow> int \<Rightarrow> bytes list \<Rightarrow> operation list \<Rightarrow> goerr + operation list" where
  "mount policies max_upload [] registered = Inr registered"
| "mount policies max_upload (i # rest) registered = (case map_of policies i of
     None \<Rightarrow> Inl (OtherError (''unregistered endpoint: '' @ i))
   | Some ep \<Rightarrow> if i \<in> hu_OperationID ` set registered then Inl (OtherError (''duplicate endpoint: '' @ i))
       else mount policies max_upload rest (registered @ [operation_of max_upload ep]))"

text \<open>\<open>client\<close> says whether there is a Redis client.\<close>

definition NewServer :: "configuration \<Rightarrow> bool \<Rightarrow> upload_service \<Rightarrow> goerr + server" where
  "NewServer c client uploads = and_then (Resolve (cf_Rates c) (cf_Policies c)) (\<lambda>policies.
     and_then (mount policies (cf_UploadMaxBytes c) mounted []) (\<lambda>registered.
     and_then (demand (length registered = length Definitions) ''registry coverage'') (\<lambda>_. Inr
     \<lparr>sv_Auth = new_auth c,
      sv_Cache = \<lparr>ca_client = client, ca_enabled = cf_CacheEnabled c, ca_namespace = cf_RedisNamespace c\<rparr>,
      sv_Limiter = \<lparr>lm_redis = (if cf_RateStore c = ''redis'' then client else False), lm_namespace = cf_RedisNamespace c\<rparr>,
      sv_Policies = policies, sv_Rates = cf_Rates c, sv_TrustProxyHops = cf_TrustProxyHops c,
      sv_RateStore = cf_RateStore c, sv_RefreshTransport = cf_RefreshTransport c, sv_CookieName = cf_RefreshCookieName c,
      sv_CookieDomain = cf_RefreshCookieDomain c, sv_CookieSecure = cf_RefreshCookieSecure c,
      sv_CookieSameSite = cf_RefreshCookieSameSite c, sv_UploadEnabled = cf_UploadEnabled c,
      sv_UploadMaxBytes = cf_UploadMaxBytes c, sv_UploadAllowedMIME = cf_UploadAllowedMIME c, sv_Uploads = uploads,
      sv_SMTPEnabled = cf_SMTPEnabled c, sv_Production = (cf_Environment c = ''production''),
      sv_DocsDisabled = cf_DocsDisabled c, sv_CORSOrigins = cf_CORSOrigins c\<rparr>)))"

text \<open>\<open>cmd/api\<close>, once it is connected: the Redis client and the file store it makes.\<close>

definition start_server :: "environ \<Rightarrow> parsers \<Rightarrow> goerr + configuration \<times> server" where
  "start_server g ps = and_then (Load g ps) (\<lambda>c.
     let client = (cf_CacheEnabled c \<or> cf_RateStore c = ''redis'');
         store = (if cf_UploadEnabled c then Some (if cf_UploadStorage c = ''s3'' then S3 else Local) else None)
     in and_then (NewServer c client (new_uploads c store)) (\<lambda>s. Inr (c, s)))"

subsection \<open>What \<open>Load\<close> guarantees\<close>

lemma demand_Inr [simp]: "demand b m = Inr u \<longleftrightarrow> b"
  by (simp add: demand_def)

definition operations_ok :: "operations \<Rightarrow> bool" where
  "operations_ok x \<longleftrightarrow> 1 \<le> op_Concurrency x \<and> op_Concurrency x \<le> 16 \<and> 1 \<le> op_MaxAttempts x \<and> op_MaxAttempts x \<le> 5
     \<and> 1 \<le> op_RenewSeconds x \<and> op_RenewSeconds x * 2 < op_LeaseSeconds x \<and> op_LeaseSeconds x \<le> 3600
     \<and> 1 \<le> op_BatchSize x \<and> op_BatchSize x \<le> 5000 \<and> 1 \<le> op_SessionDays x \<and> 1 \<le> op_OutboxDays x \<and> 1 \<le> op_AuditDays x"

lemma field_range: "field g key d lo hi = Inr v \<Longrightarrow> lo \<le> v \<and> v \<le> hi"
  by (auto simp: field_def split: sum.splits if_splits)

lemma loadOperations_ok: "loadOperations g = Inr x \<Longrightarrow> operations_ok x"
  by (auto simp: loadOperations_def operations_ok_def dest!: field_range)

definition positive_rates :: "(bytes \<times> rate) list \<Rightarrow> bool" where
  "positive_rates rates \<longleftrightarrow> list_all (\<lambda>(k, r). 0 < rt_WindowMS r \<and> 0 < rt_Max r) rates"

lemma positive_nil: "positive_rates []"
  by (simp add: positive_rates_def)

lemma positive_put: "positive_rates m \<Longrightarrow> 0 < a \<Longrightarrow> 0 < b \<Longrightarrow> positive_rates (put k \<lparr>rt_WindowMS = a, rt_Max = b\<rparr> m)"
  by (induction m) (auto simp: positive_rates_def)

lemma load_rates_positive: "load_rates g gs rates = Inr rs \<Longrightarrow> positive_rates rates \<Longrightarrow> positive_rates rs"
  by (induction g gs rates rule: load_rates.induct) (auto simp: not_le intro: positive_put)

lemma positive_lookup: "positive_rates m \<Longrightarrow> map_of m k = Some r \<Longrightarrow> 0 < rt_WindowMS r \<and> 0 < rt_Max r"
  by (auto simp: positive_rates_def list_all_iff dest: map_of_SomeD)

text \<open>What each phase adds; a phase leaves what the earlier ones have set.\<close>

lemma load_numbers_ok: "load_numbers g c = Inr c' \<Longrightarrow> 1 \<le> cf_RefreshIdleDays c' \<and> cf_RefreshIdleDays c' \<le> cf_RefreshAbsoluteDays c'
    \<and> cf_RefreshAbsoluteDays c' \<le> 3650"
  by (auto simp: load_numbers_def)

lemma load_cookie_ok: "load_cookie g c = Inr c' \<Longrightarrow> (cf_RefreshCookieSameSite c' = ''none'' \<longrightarrow> cf_RefreshCookieSecure c')
    \<and> (cf_RefreshTransport c' = ''body'' \<or> cf_RefreshTransport c' = ''cookie'') \<and> cookieName (cf_RefreshCookieName c')
    \<and> cf_RefreshIdleDays c' = cf_RefreshIdleDays c \<and> cf_RefreshAbsoluteDays c' = cf_RefreshAbsoluteDays c"
  by (auto simp: load_cookie_def Let_def)

lemma load_lists_ok: "load_lists g ps c = Inr c' \<Longrightarrow> positive_rates (cf_Rates c')
    \<and> cf_RefreshIdleDays c' = cf_RefreshIdleDays c \<and> cf_RefreshAbsoluteDays c' = cf_RefreshAbsoluteDays c
    \<and> cf_RefreshCookieSameSite c' = cf_RefreshCookieSameSite c \<and> cf_RefreshCookieSecure c' = cf_RefreshCookieSecure c
    \<and> cf_RefreshTransport c' = cf_RefreshTransport c \<and> cf_RefreshCookieName c' = cf_RefreshCookieName c"
  by (auto simp: load_lists_def split: option.splits simp del: load_rates.simps
      dest!: load_rates_positive [OF _ positive_nil])

lemma namespace_colon_free:
  assumes "namespace_ok s"
  shows "CHR '':'' \<notin> set s"
proof
  assume "CHR '':'' \<in> set s"
  with assms have "between (CHR ''a'') (CHR ''z'') (CHR '':'') \<or> digit (CHR '':'')"
    by (auto simp: namespace_ok_def list_all_iff)
  then show False by (simp add: between_def digit_def byte_def)
qed

lemma mount_total:
  assumes "list_all (\<lambda>i. \<exists>ep. map_of policies i = Some ep \<and> ep_ID ep = i) ids"
    and "distinct ids" "set ids \<inter> hu_OperationID ` set registered = {}"
  shows "\<exists>ops. mount policies m ids registered = Inr (registered @ ops) \<and> map hu_OperationID ops = ids
    \<and> list_all (\<lambda>x. \<exists>ep. map_of policies (hu_OperationID x) = Some ep \<and> x = operation_of m ep) ops"
  using assms
proof (induction ids arbitrary: registered)
  case (Cons i ids)
  then obtain ep where ep: "map_of policies i = Some ep" "ep_ID ep = i" by auto
  let ?x = "operation_of m ep"
  have "\<exists>ops. mount policies m ids (registered @ [?x]) = Inr ((registered @ [?x]) @ ops) \<and> map hu_OperationID ops = ids
    \<and> list_all (\<lambda>x. \<exists>ep. map_of policies (hu_OperationID x) = Some ep \<and> x = operation_of m ep) ops"
    using Cons.prems ep by (intro Cons.IH) (auto simp: operation_of_def)
  then obtain ops where "mount policies m ids (registered @ [?x]) = Inr ((registered @ [?x]) @ ops)" "map hu_OperationID ops = ids"
    "list_all (\<lambda>x. \<exists>ep. map_of policies (hu_OperationID x) = Some ep \<and> x = operation_of m ep) ops" by blast
  then show ?case using Cons.prems ep by (intro exI [of _ "?x # ops"]) (auto simp: operation_of_def)
qed simp

lemma mounted_table: "mounted = map ep_ID Definitions"
  by code_simp

lemma resolved_lookup:
  assumes "map ep_ID xs = ids" "i \<in> set ids" "distinct ids"
  shows "\<exists>ep. map_of (map (\<lambda>x. (ep_ID x, x)) xs) i = Some ep \<and> ep_ID ep = i"
proof -
  from assms obtain ep where "ep \<in> set xs" "ep_ID ep = i" by auto
  moreover have "distinct (map fst (map (\<lambda>x. (ep_ID x, x)) xs))" using assms by (simp add: comp_def)
  ultimately show ?thesis by (intro exI [of _ ep]) (force simp: map_of_eq_Some_iff)
qed

text \<open>Setting up the routes never panics and covers the whole table.\<close>

lemma resolved_ids:
  assumes "Resolve rates pols = Inr policies"
  shows "\<exists>xs. policies = map (\<lambda>x. (ep_ID x, x)) xs \<and> map ep_ID xs = map ep_ID Definitions"
proof -
  from assms have "resolve_loop rates pols Definitions [] [] = Inr policies"
    by (cases "find (\<lambda>(i, po). map_of policies i = None) pols"; force simp: Resolve_def split: option.splits)
  from resolve_loop_ok [OF this Definitions_modes] obtain xs where
    "policies = map (\<lambda>x. (ep_ID x, x)) xs" and two: "list_all2 (\<lambda>b x. modes_ok x \<and> same_access b x \<and> map_of rates (ep_Rate x) \<noteq> None) Definitions xs"
    by auto
  with list_all2_guarded [OF two Definitions_guarded] show ?thesis by blast
qed

lemma mount_resolved:
  assumes "Resolve rates pols = Inr policies"
  shows "\<exists>ops. mount policies m mounted [] = Inr ops \<and> map hu_OperationID ops = map ep_ID Definitions
    \<and> list_all (\<lambda>x. \<exists>ep. map_of policies (hu_OperationID x) = Some ep \<and> x = operation_of m ep) ops"
proof -
  from resolved_ids [OF assms] obtain xs where xs: "policies = map (\<lambda>x. (ep_ID x, x)) xs" "map ep_ID xs = map ep_ID Definitions" by blast
  have "list_all (\<lambda>i. \<exists>ep. map_of policies i = Some ep \<and> ep_ID ep = i) mounted"
    unfolding mounted_table list_all_iff xs(1)
    by (rule ballI, rule resolved_lookup [OF xs(2) _ Definitions_distinct])
  from mount_total [OF this, of "[]" m] show ?thesis using Definitions_distinct by (simp add: mounted_table)
qed

text \<open>C38. A server that starts is fit to run, whatever the environment variables say.  Its registry is
  resolved and every endpoint of the table is registered once, with room for its body; every rate group has a positive window and maximum; several instances share Redis;
  refresh tokens expire, the idle limit within the absolute one; cookies that cross sites are
  secure; uploads have a store; keys cannot be confused, as the namespace has no colon; in
  production the JWT secret is no placeholder and the origins are listed; and the worker renews a
  lease at least twice before it ends, with batches that fit 32 bits.\<close>

theorem started_server_sound:
  assumes "start_server g ps = Inr (c, s)"
  shows "Resolve (cf_Rates c) (cf_Policies c) = Inr (sv_Policies s)
    \<and> (\<exists>ops. mount (sv_Policies s) (sv_UploadMaxBytes s) mounted [] = Inr ops
        \<and> map hu_OperationID ops = map ep_ID Definitions \<and> list_all (\<lambda>x. 1048576 \<le> hu_MaxBodyBytes x) ops)
    \<and> (\<forall>k r. map_of (sv_Rates s) k = Some r \<longrightarrow> 0 < rt_WindowMS r \<and> 0 < rt_Max r)
    \<and> (cf_InstanceCount c > 1 \<longrightarrow> lm_redis (sv_Limiter s))
    \<and> 0 < s_RefreshIdle (sv_Auth s) \<and> s_RefreshIdle (sv_Auth s) \<le> s_RefreshAbsolute (sv_Auth s)
    \<and> s_RefreshAbsolute (sv_Auth s) \<le> days 3650
    \<and> (sv_CookieSameSite s = ''none'' \<longrightarrow> sv_CookieSecure s) \<and> (sv_RefreshTransport s \<in> {''body'', ''cookie''})
    \<and> (sv_UploadEnabled s \<longrightarrow> up_Storage (sv_Uploads s) \<noteq> None)
    \<and> CHR '':'' \<notin> set (lm_namespace (sv_Limiter s)) \<and> CHR '':'' \<notin> set (ca_namespace (sv_Cache s))
    \<and> 32 \<le> length (s_Secret (sv_Auth s))
    \<and> (sv_Production s \<longrightarrow> \<not> Contains (ToLower (s_Secret (sv_Auth s))) ''replace'' \<and> sv_CORSOrigins s \<noteq> [])
    \<and> operations_ok (cf_Operations c)"
proof -
  let ?client = "cf_CacheEnabled c \<or> cf_RateStore c = ''redis''"
  let ?store = "if cf_UploadEnabled c then Some (if cf_UploadStorage c = ''s3'' then S3 else Local) else None"
  from assms have load: "Load g ps = Inr c" and server: "NewServer c ?client (new_uploads c ?store) = Inr s"
    by (auto simp: start_server_def Let_def)
  from load obtain c1 c2 c3 c4 ops where phases: "load_numbers g c1 = Inr c2" "load_cookie g c2 = Inr c3"
    "load_lists g ps c3 = Inr c4" and checks: "check_secrets ps c4 = Inr ()" "check_services ps c4 = Inr ()"
    and ops: "loadOperations g = Inr ops" and c: "c = c4\<lparr>cf_Operations := ops\<rparr>"
    by (auto simp: Load_def)
  from server obtain policies where pol: "Resolve (cf_Rates c) (cf_Policies c) = Inr policies"
    and s: "sv_Policies s = policies" "sv_Rates s = cf_Rates c" "sv_Auth s = new_auth c"
      "lm_redis (sv_Limiter s) = (cf_RateStore c = ''redis'')" "lm_namespace (sv_Limiter s) = cf_RedisNamespace c"
      "ca_namespace (sv_Cache s) = cf_RedisNamespace c" "sv_CookieSameSite s = cf_RefreshCookieSameSite c"
      "sv_CookieSecure s = cf_RefreshCookieSecure c" "sv_RefreshTransport s = cf_RefreshTransport c"
      "sv_UploadEnabled s = cf_UploadEnabled c" "up_Storage (sv_Uploads s) = ?store"
      "sv_Production s = (cf_Environment c = ''production'')" "sv_CORSOrigins s = cf_CORSOrigins c"
      "sv_UploadMaxBytes s = cf_UploadMaxBytes c"
    by (auto simp: NewServer_def new_uploads_def)
  note numbers = load_numbers_ok [OF phases(1)] and cookie = load_cookie_ok [OF phases(2)]
    and lists = load_lists_ok [OF phases(3)]
  have secrets: "1 \<le> cf_UploadMaxBytes c4" "32 \<le> length (cf_JWTSecret c4)"
    "cf_Environment c4 = ''production'' \<Longrightarrow> \<not> Contains (ToLower (cf_JWTSecret c4)) ''replace''"
    using checks(1) by (auto simp: check_secrets_def)
  have services: "cf_Environment c4 = ''production'' \<Longrightarrow> cf_CORSOrigins c4 \<noteq> []" "namespace_ok (cf_RedisNamespace c4)"
    "cf_InstanceCount c4 > 1 \<Longrightarrow> cf_RateStore c4 = ''redis''"
    using checks(2) by (auto simp: check_services_def)
  have rates: "map_of (sv_Rates s) k = Some r \<Longrightarrow> 0 < rt_WindowMS r \<and> 0 < rt_Max r" for k r
    using lists positive_lookup [of "cf_Rates c4" k r] by (simp add: s c)
  from mount_resolved [OF pol, of "cf_UploadMaxBytes c"] obtain operations where
    table: "mount policies (cf_UploadMaxBytes c) mounted [] = Inr operations" "map hu_OperationID operations = map ep_ID Definitions"
    and each: "list_all (\<lambda>x. \<exists>ep. map_of policies (hu_OperationID x) = Some ep \<and> x = operation_of (cf_UploadMaxBytes c) ep) operations"
    by blast
  have "list_all (\<lambda>x. 1048576 \<le> hu_MaxBodyBytes x) operations"
    using each secrets(1) by (auto simp: list_all_iff operation_of_def c)
  with table have mounts: "\<exists>ops. mount (sv_Policies s) (sv_UploadMaxBytes s) mounted [] = Inr ops
      \<and> map hu_OperationID ops = map ep_ID Definitions \<and> list_all (\<lambda>x. 1048576 \<le> hu_MaxBodyBytes x) ops"
    by (simp add: s)
  show ?thesis
    using pol mounts rates numbers cookie lists secrets services loadOperations_ok [OF ops] namespace_colon_free [OF services(2)]
    by (simp add: s c new_auth_def days_def)
qed

subsection \<open>A configuration that starts\<close>

definition sample_environ :: environ where
  "sample_environ = (\<lambda>_. None)(''DATABASE_URL'' := Some ''postgresql://backend:pw@db:5432/app'',
     ''JWT_SECRET'' := Some ''0123456789abcdef0123456789abcdef'', ''CORS_ORIGINS'' := Some [],
     ''UPLOAD_ALLOWED_MIME'' := Some ''text/plain'')"

definition sample_parsers :: parsers where
  "sample_parsers = \<lparr>parse_url = (\<lambda>_. None)(''postgresql://backend:pw@db:5432/app'' := Some
       \<lparr>url_Scheme = ''postgresql'', url_Host = ''db:5432'', url_User = Some ''backend'', url_Path = ''/app'', url_RawQuery = [],
        url_Fragment = [], url_String = ''postgresql://backend:pw@db:5432/app''\<rparr>),
     parse_address = Some, decode_policies = \<lambda>_. Inr (Some []), project_marker = No_Marker\<rparr>"

text \<open>Every variable that is not set has its default.\<close>

lemma integer_default: "g key = None \<Longrightarrow> - (2 ^ 63) \<le> d \<Longrightarrow> d < 2 ^ 63 \<Longrightarrow> integer g key d = Inr d"
  by (simp add: integer_def getenv_def Atoi_FormatInt)

lemma boolean_default: "g key = None \<Longrightarrow> boolean g key b = Inr b"
  by (simp add: boolean_def getenv_def ParseBool_FormatBool)

lemma and_then_simp [simp]: "and_then (Inr a) f = f a" "and_then (Inl x) f = Inl x"
  by (simp_all add: and_then_def)

lemmas load_defaults = integer_default boolean_default getenv_def sample_environ_def sample_parsers_def demand_def

lemma sample_operations_load: "\<exists>x. loadOperations sample_environ = Inr x"
  by (simp add: loadOperations_def field_def load_defaults)

lemma sample_rates_load: "load_rates sample_environ [(''AUTH'', 20), (''PUBLIC'', 100), (''INTERNAL'', 300)] []
   = Inr [(''auth'', \<lparr>rt_WindowMS = 900000, rt_Max = 20\<rparr>), (''public'', \<lparr>rt_WindowMS = 900000, rt_Max = 100\<rparr>),
       (''internal'', \<lparr>rt_WindowMS = 900000, rt_Max = 300\<rparr>)]"
proof -
  have "ToLower ''AUTH'' = ''auth''" "ToLower ''PUBLIC'' = ''public''" "ToLower ''INTERNAL'' = ''internal''" by code_simp+
  then show ?thesis by (simp add: load_defaults)
qed

lemma sample_strings: "cookieName ''refresh_token''" "namespace_ok ''modular-golang''" "sql_identifier ''backend''"
  "sql_identifier ''app''" "TrimPrefix ''/app'' ''/'' = ''app''" "TrimSpace [] = []"
  "Contains (ToLower ''0123456789abcdef0123456789abcdef'') ''replace'' = False"
  by code_simp+

lemma sample_start: "\<exists>c s. start_server sample_environ sample_parsers = Inr (c, s)"
proof -
  have "case Resolve [(''auth'', \<lparr>rt_WindowMS = 900000, rt_Max = 20\<rparr>), (''public'', \<lparr>rt_WindowMS = 900000, rt_Max = 100\<rparr>),
       (''internal'', \<lparr>rt_WindowMS = 900000, rt_Max = 300\<rparr>)] [] of Inl x \<Rightarrow> False | Inr _ \<Rightarrow> True" by code_simp
  then obtain pols where pols: "Resolve [(''auth'', \<lparr>rt_WindowMS = 900000, rt_Max = 20\<rparr>), (''public'', \<lparr>rt_WindowMS = 900000, rt_Max = 100\<rparr>),
       (''internal'', \<lparr>rt_WindowMS = 900000, rt_Max = 300\<rparr>)] [] = Inr pols" by (auto split: sum.splits)
  from sample_operations_load obtain ops where ops: "loadOperations sample_environ = Inr ops" ..
  let ?g = sample_environ and ?ps = sample_parsers
  obtain c1 where c1: "load_smtp ?g ?ps (base_config ?g) = Inr c1" and b1: "cf_Port c1 = 8080"
    "cf_Environment c1 = ''development''" "cf_DatabaseProvider c1 = ''postgresql''" "cf_RedisNamespace c1 = ''modular-golang''"
    "cf_DatabaseURL c1 = ''postgresql://backend:pw@db:5432/app''" "cf_JWTSecret c1 = ''0123456789abcdef0123456789abcdef''"
    "cf_RateStore c1 = ''memory''" "cf_UploadStorage c1 = ''local''"
    by (simp add: load_smtp_def base_config_def load_defaults)
  obtain c2 where c2: "load_numbers ?g c1 = Inr c2" and b2: "cf_Port c2 = 8080" "cf_InstanceCount c2 = 1" "cf_TrustProxyHops c2 = 0"
    "cf_UploadMaxBytes c2 = 10485760" "cf_UploadOrphanGraceHours c2 = 24" "\<not> cf_CacheEnabled c2" 
    "cf_Environment c2 = ''development''" "cf_DatabaseProvider c2 = ''postgresql''" "cf_RedisNamespace c2 = ''modular-golang''"
    "cf_DatabaseURL c2 = ''postgresql://backend:pw@db:5432/app''" "cf_JWTSecret c2 = ''0123456789abcdef0123456789abcdef''"
    "cf_RateStore c2 = ''memory''" "cf_UploadStorage c2 = ''local''"
    using b1 by (simp add: load_numbers_def load_defaults)
  obtain c3 where c3: "load_cookie ?g c2 = Inr c3" and b3: "c3 = c2\<lparr>cf_RefreshTransport := ''body'', cf_RefreshCookieName := ''refresh_token'',
      cf_RefreshCookieSameSite := ''lax'', cf_RefreshCookieDomain := [], cf_RefreshCookieSecure := True, cf_S3PathStyle := True,
      cf_OTelEnabled := False\<rparr>"
    by (simp add: load_cookie_def sample_strings Let_def load_defaults)
  have mime: "TrimSpace ''text/plain'' = ''text/plain''" by code_simp
  have get: "getenv ?g ''CORS_ORIGINS'' d = []" "getenv ?g ''UPLOAD_ALLOWED_MIME'' d = ''text/plain''" for d
    by (simp_all add: getenv_def sample_environ_def)
  have pol: "decode_policies ?ps d = Inr (Some [])" for d by (simp add: sample_parsers_def)
  obtain c4 where c4: "load_lists ?g ?ps c3 = Inr c4" and b4: "c4 = c3\<lparr>cf_Rates := [(''auth'', \<lparr>rt_WindowMS = 900000, rt_Max = 20\<rparr>),
       (''public'', \<lparr>rt_WindowMS = 900000, rt_Max = 100\<rparr>), (''internal'', \<lparr>rt_WindowMS = 900000, rt_Max = 300\<rparr>)],
      cf_CORSOrigins := [], cf_UploadAllowedMIME := [''text/plain''], cf_Policies := []\<rparr>"
    by (simp add: load_lists_def sample_rates_load sample_strings mime get pol del: load_rates.simps)
  have "check_secrets ?ps c4 = Inr ()" using b2 by (simp add: check_secrets_def b3 b4 demand_def)
  moreover have "check_database ?ps c4 = Inr ()"
    using b2 by (simp add: check_database_def b3 b4 sample_parsers_def sample_strings maximum_user_def maximum_database_def demand_def)
  moreover have "check_marker ?ps c4 = Inr ()" by (simp add: check_marker_def sample_parsers_def)
  moreover have "check_services ?ps c4 = Inr ()" using b2 by (simp add: check_services_def b3 b4 sample_strings demand_def)
  ultimately have "Load ?g ?ps = Inr (c4\<lparr>cf_Operations := ops\<rparr>)" using c1 c2 c3 c4 ops by (simp add: Load_def)
  moreover from mount_resolved [OF pols, of "cf_UploadMaxBytes c3"] obtain operations where
    "mount pols (cf_UploadMaxBytes c3) mounted [] = Inr operations" "length operations = length Definitions"
    by (metis length_map)
  ultimately show ?thesis using pols by (simp add: start_server_def NewServer_def b4 Let_def demand_def)
qed

theorem started_server_sound_witness:
  "\<exists>c s. start_server sample_environ sample_parsers = Inr (c, s) \<and> 0 < s_RefreshIdle (sv_Auth s)
    \<and> op_RenewSeconds (cf_Operations c) * 2 < op_LeaseSeconds (cf_Operations c)"
proof -
  from sample_start obtain c s where run: "start_server sample_environ sample_parsers = Inr (c, s)" by blast
  from started_server_sound [OF run] have "0 < s_RefreshIdle (sv_Auth s)" "operations_ok (cf_Operations c)" by blast+
  with run show ?thesis by (auto simp: operations_ok_def)
qed

end
