(* ===== verification/Docs.thy ===== *)
theory Docs
  imports Startup
begin

text \<open>
  The documentation endpoints of \<open>internal/httpapi/system.go\<close>, which are registered with \<open>raw\<close>, and the
  errors Huma makes by itself.  The OpenAPI document is what Huma keeps of the registered operations:
  a list of paths with an operation per method.  Its JSON text and the page are parameters.
\<close>

record path_item =
  pi_Get :: "operation option"
  pi_Post :: "operation option"
  pi_Patch :: "operation option"
  pi_Delete :: "operation option"

type_synonym open_api = "(bytes \<times> path_item) list"

datatype raw_output = Raw bytes bytes  \<comment> \<open>content type and body\<close>

datatype docs_call = Docs_UI | Docs_Spec | Docs_Module bytes

fun docs_id :: "docs_call \<Rightarrow> bytes" where
  "docs_id Docs_UI = ''docs.ui''"
| "docs_id Docs_Spec = ''docs.spec''"
| "docs_id (Docs_Module m) = ''docs.moduleSpec''"

text \<open>An operation of the module, if there is one.\<close>

definition tagged :: "bytes \<Rightarrow> operation option \<Rightarrow> operation option" where
  "tagged module entry = (case entry of None \<Rightarrow> None
     | Some x \<Rightarrow> if module \<in> set (hu_Tags x) then Some x else None)"

definition select_item :: "bytes \<Rightarrow> path_item \<Rightarrow> path_item" where
  "select_item module item = \<lparr>pi_Get = tagged module (pi_Get item), pi_Post = tagged module (pi_Post item),
     pi_Patch = tagged module (pi_Patch item), pi_Delete = tagged module (pi_Delete item)\<rparr>"

definition no_operation :: "path_item \<Rightarrow> bool" where
  "no_operation item \<longleftrightarrow> pi_Get item = None \<and> pi_Post item = None \<and> pi_Patch item = None \<and> pi_Delete item = None"

definition module_spec :: "open_api \<Rightarrow> bytes \<Rightarrow> goerr + open_api" where
  "module_spec spec name = (let module = TrimSuffix name ''.json'';
       paths = filter (\<lambda>(path, item). \<not> no_operation item) (map (\<lambda>(path, item). (path, select_item module item)) spec)
     in if paths = [] then Inl notFound else Inr paths)"

text \<open>The three handlers; \<open>marshal\<close> may fail.\<close>

definition docs_handler :: "bytes \<Rightarrow> (open_api \<Rightarrow> goerr + bytes) \<Rightarrow> open_api \<Rightarrow> docs_call \<Rightarrow> goerr + raw_output" where
  "docs_handler page marshal spec c = (case c of
     Docs_UI \<Rightarrow> Inr (Raw ''text/html; charset=utf-8'' page)
   | Docs_Spec \<Rightarrow> and_then (marshal spec) (\<lambda>data. Inr (Raw ''application/json'' data))
   | Docs_Module name \<Rightarrow> and_then (module_spec spec name) (\<lambda>selected.
       and_then (marshal selected) (\<lambda>data. Inr (Raw ''application/json'' data))))"

text \<open>\<open>raw\<close>: no cache, and the audit of the read without an actor.\<close>

definition raw_endpoint :: "server \<Rightarrow> http_request \<Rightarrow> bytes \<Rightarrow> goerr + raw_output \<Rightarrow> (api_error, raw_output) wop" where
  "raw_endpoint s r i h = mapW apiError (bindW (liftW h) (\<lambda>out.
     bindW (service (Read (policy_of s i r) None [])) (\<lambda>_. returnW out)))"

text \<open>The whole way of a request, after the middleware, which answers 404 when the documentation is off.\<close>

definition serve_docs :: "bytes \<Rightarrow> (open_api \<Rightarrow> goerr + bytes) \<Rightarrow> open_api \<Rightarrow> server \<Rightarrow> http_request \<Rightarrow> docs_call \<Rightarrow>
    (api_error, raw_output) wop" where
  "serve_docs page marshal spec s r c = (case map_of (sv_Policies s) (docs_id c) of
     None \<Rightarrow> failW (apiError notFound)
   | Some ep \<Rightarrow> bindW (mapW apiError (enforce s ep r)) (\<lambda>_. raw_endpoint s r (docs_id c) (docs_handler page marshal spec c)))"

text \<open>The factory of Huma's own errors.\<close>

definition NewError :: "nat \<Rightarrow> bytes \<Rightarrow> (bytes \<times> bytes) option list \<Rightarrow> api_error" where
  "NewError status message causes = \<lparr>ae_Status = (if status = 422 then 400 else status), ae_Message = message,
     ae_Errors = concat (map (\<lambda>d. case d of Some (location, text) \<Rightarrow> [location @ '': '' @ text] | None \<Rightarrow> []) causes)\<rparr>"

subsection \<open>The specification of a module\<close>

definition item_operations :: "path_item \<Rightarrow> operation list" where
  "item_operations item = concat (map (\<lambda>x. case x of Some y \<Rightarrow> [y] | None \<Rightarrow> [])
     [pi_Get item, pi_Post item, pi_Patch item, pi_Delete item])"

definition spec_operations :: "open_api \<Rightarrow> (bytes \<times> operation) list" where
  "spec_operations spec = concat (map (\<lambda>(path, item). map (Pair path) (item_operations item)) spec)"

lemma select_operations: "item_operations (select_item module item) = filter (\<lambda>x. module \<in> set (hu_Tags x)) (item_operations item)"
  by (auto simp: item_operations_def select_item_def tagged_def split: option.splits)

lemma no_operation_iff: "no_operation item \<longleftrightarrow> item_operations item = []"
  by (auto simp: no_operation_def item_operations_def split: option.splits)

lemma spec_operations_Cons: "spec_operations ((path, item) # spec) = map (Pair path) (item_operations item) @ spec_operations spec"
  by (simp add: spec_operations_def)

lemma kept_operations:
  "spec_operations (filter (\<lambda>(path, item). \<not> no_operation item) (map (\<lambda>(path, item). (path, select_item module item)) spec))
   = filter (\<lambda>(path, x). module \<in> set (hu_Tags x)) (spec_operations spec)"
proof (induction spec)
  case Nil
  then show ?case by (simp add: spec_operations_def)
next
  case (Cons entry spec)
  obtain path item where entry: "entry = (path, item)" by fastforce
  have "filter (\<lambda>(path, x). module \<in> set (hu_Tags x)) (map (Pair path) (item_operations item))
      = map (Pair path) (item_operations (select_item module item))"
    by (simp add: select_operations filter_map comp_def)
  then show ?case using Cons by (simp add: entry spec_operations_Cons no_operation_iff)
qed

text \<open>The specification of a module has exactly the operations of that module, at their paths, and is
  not found if there is none.\<close>

theorem module_spec_operations:
  "(case module_spec spec name of
      Inl x \<Rightarrow> x = notFound \<and> filter (\<lambda>(path, x). TrimSuffix name ''.json'' \<in> set (hu_Tags x)) (spec_operations spec) = []
    | Inr selected \<Rightarrow> spec_operations selected
        = filter (\<lambda>(path, x). TrimSuffix name ''.json'' \<in> set (hu_Tags x)) (spec_operations spec))"
proof -
  let ?module = "TrimSuffix name ''.json''"
  let ?kept = "filter (\<lambda>(path, item). \<not> no_operation item) (map (\<lambda>(path, item). (path, select_item ?module item)) spec)"
  have "spec_operations ?kept = filter (\<lambda>(path, x). ?module \<in> set (hu_Tags x)) (spec_operations spec)" by (rule kept_operations)
  then show ?thesis by (cases "?kept = []") (simp_all add: module_spec_def Let_def, simp add: spec_operations_def)
qed

text \<open>The documentation is part of the system: reading it changes no more than the audit log.\<close>

lemma serve_docs_step: "drives (system_step (on_env e)) e (serve_docs page marshal spec s r c)"
  unfolding serve_docs_def raw_endpoint_def
  by (auto intro!: system.dr_rules service_steps system_reads [OF enforce_reads] split: option.splits)

end
