(* ===== verification/Mailer.thy ===== *)
theory Mailer
  imports Config
begin

text \<open>
  How the worker sends a mail (\<open>notification.Service.Send\<close>): the client it asks the mail library for, and
  the message.  The library is a parameter: it may refuse the client, an address or the delivery.
\<close>

datatype encryption = Implicit_TLS | Mandatory_StartTLS

record mail_client =
  ml_Host :: bytes
  ml_Port :: int
  ml_Timeout :: int
  ml_Encryption :: encryption
  ml_Login :: "(bytes \<times> bytes) option"    \<comment> \<open>\<open>SMTPAuthPlain\<close> with a name and a password\<close>

definition mail_options :: "configuration \<Rightarrow> mail_client" where
  "mail_options c = \<lparr>ml_Host = cf_SMTPHost c, ml_Port = cf_SMTPPort c, ml_Timeout = 25000,
     ml_Encryption = (if cf_SMTPSecure c then Implicit_TLS else Mandatory_StartTLS),
     ml_Login = (if cf_SMTPUser c \<noteq> [] then Some (cf_SMTPUser c, cf_SMTPPassword c) else None)\<rparr>"

record mail_message =
  mm_From :: bytes
  mm_To :: bytes
  mm_Subject :: bytes
  mm_Body :: bytes

record mail_library =
  new_client :: "mail_client \<Rightarrow> goerr option"
  bad_address :: "bytes \<Rightarrow> goerr option"
  dial_and_send :: "mail_client \<Rightarrow> mail_message \<Rightarrow> goerr option"

definition fails :: "goerr option \<Rightarrow> goerr + unit" where
  "fails x = (case x of Some y \<Rightarrow> Inl y | None \<Rightarrow> Inr ())"

definition Send :: "mail_library \<Rightarrow> configuration \<Rightarrow> bytes \<Rightarrow> bytes \<Rightarrow> bytes \<Rightarrow> goerr + unit" where
  "Send lib c recipient title body =
     and_then (fails (new_client lib (mail_options c))) (\<lambda>_.
     and_then (fails (bad_address lib (cf_SMTPFrom c))) (\<lambda>_.
     and_then (fails (bad_address lib recipient)) (\<lambda>_.
     fails (dial_and_send lib (mail_options c)
       \<lparr>mm_From = cf_SMTPFrom c, mm_To = recipient, mm_Subject = title, mm_Body = body\<rparr>))))"

text \<open>The sender of \<open>cmd/worker\<close>, as the worker sees it.\<close>

definition worker_send :: "mail_library \<Rightarrow> configuration \<Rightarrow> payload \<Rightarrow> bool" where
  "worker_send lib c p = (case Send lib c (py_Recipient p) (py_Title p) (py_Body p) of Inl _ \<Rightarrow> False | Inr _ \<Rightarrow> True)"

subsection \<open>The mail settings of a configuration that loads\<close>

lemma load_smtp_settings:
  assumes "load_smtp g ps c = Inr c'" and "cf_SMTPEnabled c'"
  shows "cf_SMTPHost c' \<noteq> [] \<and> parse_address ps (cf_SMTPFrom c') = Some (cf_SMTPFrom c') \<and> 1 \<le> cf_SMTPPort c' \<and> cf_SMTPPort c' \<le> 65535
    \<and> (cf_SMTPUser c' = []) = (cf_SMTPPassword c' = [])"
  using assms by (auto simp: load_smtp_def demand_def split: if_splits)

definition smtp_view :: "configuration \<Rightarrow> bool \<times> bytes \<times> int \<times> bool \<times> bytes \<times> bytes \<times> bytes" where
  "smtp_view c = (cf_SMTPEnabled c, cf_SMTPHost c, cf_SMTPPort c, cf_SMTPSecure c, cf_SMTPUser c, cf_SMTPPassword c, cf_SMTPFrom c)"

lemma later_phases_keep_smtp:
  "load_numbers g c = Inr c' \<Longrightarrow> smtp_view c' = smtp_view c"
  "load_cookie g c = Inr c' \<Longrightarrow> smtp_view c' = smtp_view c"
  "load_lists g ps c = Inr c' \<Longrightarrow> smtp_view c' = smtp_view c"
  by (auto simp: load_numbers_def load_cookie_def load_lists_def smtp_view_def Let_def
      split: option.splits simp del: load_rates.simps)

text \<open>When mails are on, a loaded configuration names a host and a port, its sender is an address as the
  parser writes it, and a password is sent if and only if it is set, with a name.\<close>

theorem loaded_mailer:
  assumes "Load g ps = Inr c" and "cf_SMTPEnabled c"
  shows "ml_Host (mail_options c) \<noteq> [] \<and> 1 \<le> ml_Port (mail_options c) \<and> ml_Port (mail_options c) \<le> 65535
    \<and> parse_address ps (cf_SMTPFrom c) = Some (cf_SMTPFrom c)
    \<and> (\<forall>n pw. ml_Login (mail_options c) = Some (n, pw) \<longrightarrow> n \<noteq> [] \<and> pw \<noteq> [])
    \<and> (ml_Login (mail_options c) = None \<longrightarrow> cf_SMTPPassword c = [])"
proof -
  from assms(1) obtain c1 c2 c3 c4 ops where
    phases: "load_smtp g ps (base_config g) = Inr c1" "load_numbers g c1 = Inr c2" "load_cookie g c2 = Inr c3"
      "load_lists g ps c3 = Inr c4" and c: "c = c4\<lparr>cf_Operations := ops\<rparr>"
    by (auto simp: Load_def)
  have "smtp_view c = smtp_view c1"
    using later_phases_keep_smtp(1) [OF phases(2)] later_phases_keep_smtp(2) [OF phases(3)] later_phases_keep_smtp(3) [OF phases(4)]
    by (simp add: c smtp_view_def)
  then have same: "cf_SMTPEnabled c1 = cf_SMTPEnabled c" "cf_SMTPHost c1 = cf_SMTPHost c" "cf_SMTPPort c1 = cf_SMTPPort c"
    "cf_SMTPUser c1 = cf_SMTPUser c" "cf_SMTPPassword c1 = cf_SMTPPassword c" "cf_SMTPFrom c1 = cf_SMTPFrom c"
    by (simp_all add: smtp_view_def)
  with load_smtp_settings [OF phases(1)] assms(2) show ?thesis by (simp add: mail_options_def)
qed

end
