(* ===== verification/Dotenv.thy ===== *)
theory Dotenv
  imports Config Upload
begin

text \<open>
  \<open>internal/config/dotenv.go\<close> and the part of \<open>cmd/initproject\<close> that writes the file it reads: values
  are written as quoted literals, and \<open>LoadEnvironment\<close> reads them without interpreting dollars or
  backslashes.  \<open>godotenv\<close> is a parameter.  The JSON strings are those of \<open>encoding/json\<close>: a text is a
  list of runes, each with its bytes.
\<close>

subsection \<open>JSON strings\<close>

definition ascii :: "bytes \<Rightarrow> (nat \<times> bytes) list" where
  "ascii s = map (\<lambda>c. (byte c, [c])) s"

definition hex_char :: "nat \<Rightarrow> char" where
  "hex_char n = char_of (if n < 10 then 48 + n else 87 + n)"

text \<open>How \<open>json.Marshal\<close> writes a rune of a string.\<close>

definition esc :: "nat \<times> bytes \<Rightarrow> (nat \<times> bytes) list" where
  "esc p = (let c = fst p in
     if c = 34 then ascii [CHR 0x5C, CHR 0x22]
     else if c = 92 then ascii [CHR 0x5C, CHR 0x5C]
     else if c = 8 then ascii [CHR 0x5C, CHR ''b'']
     else if c = 12 then ascii [CHR 0x5C, CHR ''f'']
     else if c = 10 then ascii [CHR 0x5C, CHR ''n'']
     else if c = 13 then ascii [CHR 0x5C, CHR ''r'']
     else if c = 9 then ascii [CHR 0x5C, CHR ''t'']
     else if c < 32 \<or> c = 60 \<or> c = 62 \<or> c = 38 then ascii ([CHR 0x5C] @ ''u00'' @ [hex_char (c div 16), hex_char (c mod 16)])
     else if c = 8232 then ascii (CHR 0x5C # ''u2028'')
     else if c = 8233 then ascii (CHR 0x5C # ''u2029'')
     else if c = 65533 \<and> length (snd p) = 1 then ascii (CHR 0x5C # ''ufffd'')
     else [p])"

definition marshal_string :: "bytes \<Rightarrow> bytes" where
  "marshal_string s = CHR 0x22 # concat (map snd (concat (map esc (runes s)))) @ [CHR 0x22]"

definition hex_value :: "nat \<Rightarrow> nat option" where
  "hex_value c = (if 48 \<le> c \<and> c \<le> 57 then Some (c - 48)
     else if 97 \<le> c \<and> c \<le> 102 then Some (c - 87)
     else if 65 \<le> c \<and> c \<le> 70 then Some (c - 55) else None)"

text \<open>Four hexadecimal digits, and what follows them.\<close>

fun hex4 :: "(nat \<times> bytes) list \<Rightarrow> (nat \<times> (nat \<times> bytes) list) option" where
  "hex4 ((a, _) # (b, _) # (c, _) # (d, _) # rest) = (case (hex_value a, hex_value b, hex_value c, hex_value d) of
     (Some w, Some x, Some y, Some z) \<Rightarrow> Some (w * 4096 + x * 256 + y * 16 + z, rest)
   | _ \<Rightarrow> None)"
| "hex4 _ = None"

text \<open>\<open>utf8.EncodeRune\<close>.\<close>

definition encode_rune :: "nat \<Rightarrow> bytes" where
  "encode_rune v = (if v < 128 then [char_of v]
     else if v < 2048 then [char_of (192 + v div 64), char_of (128 + v mod 64)]
     else if 55296 \<le> v \<and> v < 57344 \<or> 1114112 \<le> v then [CHR 0xEF, CHR 0xBF, CHR 0xBD]
     else if v < 65536 then [char_of (224 + v div 4096), char_of (128 + v div 64 mod 64), char_of (128 + v mod 64)]
     else [char_of (240 + v div 262144), char_of (128 + v div 4096 mod 64), char_of (128 + v div 64 mod 64), char_of (128 + v mod 64)])"

definition simple_escape :: "nat \<Rightarrow> bytes option" where
  "simple_escape d = (if d = 34 \<or> d = 92 \<or> d = 47 then Some [char_of d]
     else if d = 98 then Some [char_of (8 :: nat)] else if d = 102 then Some [char_of (12 :: nat)]
     else if d = 110 then Some [char_of (10 :: nat)] else if d = 114 then Some [char_of (13 :: nat)]
     else if d = 116 then Some [char_of (9 :: nat)] else None)"

text \<open>The second half of a surrogate pair, if it follows.\<close>

definition low_surrogate :: "(nat \<times> bytes) list \<Rightarrow> (nat \<times> (nat \<times> bytes) list) option" where
  "low_surrogate rest = (case rest of (c, _) # (d, _) # rest' \<Rightarrow>
       if c = 92 \<and> d = 117 then (case hex4 rest' of Some (w, r) \<Rightarrow> if 56320 \<le> w \<and> w < 57344 then Some (w, r) else None
         | None \<Rightarrow> None) else None
     | _ \<Rightarrow> None)"

lemma hex4_length: "hex4 rest = Some (v, r) \<Longrightarrow> length r < length rest"
  by (cases rest rule: hex4.cases) (auto split: option.splits)

lemma low_surrogate_length: "low_surrogate rest = Some (v, r) \<Longrightarrow> length r < length rest"
  by (auto simp: low_surrogate_def split: list.splits if_splits option.splits dest!: hex4_length)

text \<open>What follows the opening quote, as \<open>json.Unmarshal\<close> reads it; the closing quote ends the text.\<close>

function unquote :: "(nat \<times> bytes) list \<Rightarrow> bytes option" where
  "unquote [] = None"
| "unquote ((c, b) # rest) = (if c = 34 then (if rest = [] then Some [] else None)
     else if c = 92 then (case rest of [] \<Rightarrow> None
       | (d, _) # rest' \<Rightarrow>
           if d = 117 then (case hex4 rest' of None \<Rightarrow> None
             | Some (v, r) \<Rightarrow>
                 if 55296 \<le> v \<and> v < 56320 then (case low_surrogate r of
                     Some (w, r') \<Rightarrow> map_option (append (encode_rune (65536 + (v - 55296) * 1024 + (w - 56320)))) (unquote r')
                   | None \<Rightarrow> map_option (append (encode_rune 65533)) (unquote r))
                 else map_option (append (encode_rune v)) (unquote r))
           else (case simple_escape d of None \<Rightarrow> None | Some x \<Rightarrow> map_option (append x) (unquote rest')))
     else if c < 32 then None
     else map_option (append (rune_text (c, b))) (unquote rest))"
  by pat_completeness auto
termination
  by (relation "measure length") (auto dest!: hex4_length low_surrogate_length)

declare unquote.simps(2) [simp del]

definition unmarshal_string :: "bytes \<Rightarrow> bytes option" where
  "unmarshal_string raw = (case raw of [] \<Rightarrow> None | q # s \<Rightarrow> if q = CHR 0x22 then unquote (runes s) else None)"

subsection \<open>Lines of the file\<close>

text \<open>\<open>strings.ReplaceAll(s, q, "\q")\<close> and back, for a one-byte \<open>q\<close>.\<close>

definition escape_char :: "char \<Rightarrow> bytes \<Rightarrow> bytes" where
  "escape_char q s = concat (map (\<lambda>c. if c = q then [CHR 0x5C, q] else [c]) s)"

fun unescape_char :: "char \<Rightarrow> bytes \<Rightarrow> bytes" where
  "unescape_char q (c # d # s) = (if c = CHR 0x5C \<and> d = q then q # unescape_char q s else c # unescape_char q (d # s))"
| "unescape_char q s = s"

fun crlf :: "bytes \<Rightarrow> bytes" where
  "crlf (c # d # s) = (if c = CHR 0x0D \<and> d = CHR 0x0A then d # crlf s else c # crlf (d # s))"
| "crlf s = s"

text \<open>\<open>strings.Cut\<close> at a byte; \<open>SplitN(line, sep, 2)\<close> has two parts in the same cases.\<close>

definition Cut :: "char \<Rightarrow> bytes \<Rightarrow> (bytes \<times> bytes) option" where
  "Cut c s = (if c \<in> set s then Some (takeWhile (\<lambda>x. x \<noteq> c) s, tl (dropWhile (\<lambda>x. x \<noteq> c) s)) else None)"

definition quoted :: "char \<Rightarrow> bytes \<Rightarrow> bool" where
  "quoted q raw \<longleftrightarrow> length raw \<ge> 2 \<and> HasPrefix raw [q] \<and> HasSuffix raw [q]"

definition placeholder :: bytes where
  "placeholder = ''=CLI_LITERAL_VALUE''"

definition scan_line :: "bytes \<Rightarrow> goerr + bytes \<times> (bytes \<times> bytes) option" where
  "scan_line line = (case Cut (CHR ''='') line of
     None \<Rightarrow> Inr (line, None)
   | Some (k, v) \<Rightarrow> (let key = TrimSpace k; raw = TrimSpace v in
       if quoted (CHR 0x22) raw then
         (case unmarshal_string (unescape_char (CHR ''$'') raw) of
            None \<Rightarrow> Inl (OtherError ''invalid quoted environment assignment'')
          | Some decoded \<Rightarrow> Inr (key @ placeholder, Some (key, decoded)))
       else if quoted (CHR 0x27) raw then
         Inr (key @ placeholder, Some (key, unescape_char (CHR 0x27) (butlast (tl raw))))
       else Inr (line, None)))"

fun scan_lines :: "bytes list \<Rightarrow> (bytes \<times> bytes) list \<Rightarrow> goerr + bytes list \<times> (bytes \<times> bytes) list" where
  "scan_lines [] literals = Inr ([], literals)"
| "scan_lines (line # rest) literals = and_then (scan_line line) (\<lambda>(line', lit).
     and_then (scan_lines rest (case lit of None \<Rightarrow> literals | Some (k, v) \<Rightarrow> put k v literals)) (\<lambda>(rest', literals').
     Inr (line' # rest', literals')))"

subsection \<open>Loading\<close>

datatype env_file = Absent | Unreadable_File | Content bytes

text \<open>\<open>os.Setenv\<close> refuses a name that is empty or has \<open>=\<close> or NUL in it, and a value with NUL.\<close>

definition Setenv :: "bytes \<Rightarrow> bytes \<Rightarrow> environ \<Rightarrow> goerr + environ" where
  "Setenv k v g = (if k = [] \<or> CHR ''='' \<in> set k \<or> CHR 0x00 \<in> set k \<or> CHR 0x00 \<in> set v
     then Inl (OtherError ''invalid environment assignment'') else Inr (g(k \<mapsto> v)))"

fun assign_all :: "(bytes \<times> bytes) list \<Rightarrow> environ \<Rightarrow> goerr + environ" where
  "assign_all [] g = Inr g"
| "assign_all ((k, v) # rest) g =
     (if g k \<noteq> None then assign_all rest g else and_then (Setenv k v g) (assign_all rest))"

definition with_literals :: "(bytes \<times> bytes) list \<Rightarrow> (bytes \<times> bytes) list \<Rightarrow> (bytes \<times> bytes) list" where
  "with_literals literals vals = map (\<lambda>(k, v). (k, case map_of literals k of Some x \<Rightarrow> x | None \<Rightarrow> v)) vals"

definition LoadEnvironment :: "(bytes \<Rightarrow> (bytes \<times> bytes) list option) \<Rightarrow> env_file \<Rightarrow> environ \<Rightarrow> goerr + environ" where
  "LoadEnvironment dotenv file g = (case file of
     Absent \<Rightarrow> Inr g
   | Unreadable_File \<Rightarrow> Inl (OtherError ''unable to read environment file'')
   | Content s \<Rightarrow> and_then (scan_lines (Split (CHR 0x0A) (crlf s)) []) (\<lambda>(lines, literals).
       case dotenv (join (CHR 0x0A) lines) of
         None \<Rightarrow> Inl (OtherError ''invalid environment file'')
       | Some vals \<Rightarrow> assign_all (with_literals literals vals) g))"

subsection \<open>Writing the file of a new project\<close>

definition serializeEnv :: "bytes \<Rightarrow> bytes" where
  "serializeEnv v = (if Contains v [CHR 0x5C] then escape_char (CHR ''$'') (marshal_string v)
     else CHR 0x27 # escape_char (CHR 0x27) v @ [CHR 0x27])"

text \<open>The loop over the template: a key that is replaced is taken out of the replacements.\<close>

fun render_env :: "bytes list \<Rightarrow> (bytes \<times> bytes) list \<Rightarrow> bytes list \<times> (bytes \<times> bytes) list" where
  "render_env [] repl = ([], repl)"
| "render_env (line # rest) repl =
     (let key = (case Cut (CHR ''='') line of Some (k, _) \<Rightarrow> Some k | None \<Rightarrow> None) in
      case (case key of None \<Rightarrow> None | Some k \<Rightarrow> map_option (Pair k) (map_of repl k)) of
        None \<Rightarrow> (case render_env rest repl of (ls, r) \<Rightarrow> (line # ls, r))
      | Some (k, v) \<Rightarrow> (case render_env rest (filter (\<lambda>(k', _). k' \<noteq> k) repl) of
          (ls, r) \<Rightarrow> ((k @ ''='' @ serializeEnv v) # ls, r)))"

definition write_env :: "bytes \<Rightarrow> (bytes \<times> bytes) list \<Rightarrow> goerr + bytes" where
  "write_env template repl = (case render_env (Split (CHR 0x0A) template) repl of
     (lines, []) \<Rightarrow> Inr (join (CHR 0x0A) lines)
   | _ \<Rightarrow> Inl (OtherError ''template env is incomplete''))"

subsection \<open>Runes of a text\<close>

lemma runes_ascii: "byte c < 128 \<Longrightarrow> runes (c # s) = (byte c, [c]) # runes s"
  by (simp add: runes.simps [of "c # s"] decode_rune_def)

text \<open>A rune with its bytes, as read from some valid text.\<close>

definition rune_ok :: "nat \<times> bytes \<Rightarrow> bool" where
  "rune_ok p \<longleftrightarrow> (\<exists>u. u \<noteq> [] \<and> decode_rune u = (fst p, length (snd p)) \<and> take (length (snd p)) u = snd p
     \<and> (fst p \<noteq> 65533 \<or> length (snd p) = 3))"

definition valid_utf8 :: "bytes \<Rightarrow> bool" where
  "valid_utf8 s \<longleftrightarrow> list_all (\<lambda>(c, b). c \<noteq> 65533 \<or> length b = 3) (runes s)"

lemma valid_runes: "valid_utf8 s \<Longrightarrow> list_all rune_ok (runes s)"
proof (induction s rule: runes.induct)
  case (1 s)
  show ?case
  proof (cases "s = []")
    case False
    let ?n = "snd (decode_rune s)"
    have n: "length (take ?n s) = ?n" using decode_rune_width [OF False] by simp
    have all: "runes s = (fst (decode_rune s), take ?n s) # runes (drop ?n s)"
      using False by (simp add: runes.simps [of s])
    with 1(2) have "valid_utf8 (drop ?n s)" "fst (decode_rune s) \<noteq> 65533 \<or> ?n = 3"
      using n by (auto simp: valid_utf8_def)
    moreover have "rune_ok (fst (decode_rune s), take ?n s)"
      unfolding rune_ok_def using False n calculation(2) by (intro exI [of _ s]) auto
    ultimately show ?thesis using all 1(1) [OF False] by simp
  qed simp
qed

text \<open>Decoding looks at the bytes of the rune only.\<close>

lemma decode_prefix:
  assumes "decode_rune u = (c, n)" "u \<noteq> []" "c \<noteq> 65533 \<or> n = 3"
  shows "decode_rune (take n u @ t) = (c, n)"
proof -
  obtain c0 u' where u: "u = c0 # u'" using assms(2) by (cases u) auto
  show ?thesis
    using assms(1,3) unfolding u decode_rune_def Let_def
    by (auto split: if_splits list.splits)
qed

lemma rune_ok_runes:
  assumes "rune_ok p"
  shows "runes (snd p @ t) = p # runes t"
proof -
  obtain c b where p: "p = (c, b)" by fastforce
  from assms obtain u where u: "u \<noteq> []" "decode_rune u = (c, length b)" "take (length b) u = b" "c \<noteq> 65533 \<or> length b = 3"
    by (auto simp: rune_ok_def p)
  then have d: "decode_rune (b @ t) = (c, length b)" using decode_prefix [OF u(2,1)] by simp
  moreover have "b \<noteq> []" using decode_rune_width [OF u(1)] u(2) by auto
  ultimately show ?thesis by (simp add: p runes.simps [of "b @ t"])
qed

lemma runes_ok_concat: "list_all rune_ok ps \<Longrightarrow> runes (concat (map snd ps) @ t) = ps @ runes t"
  by (induction ps) (simp_all add: rune_ok_runes)

lemma ascii_ok: "list_all (\<lambda>c. byte c < 128) s \<Longrightarrow> list_all rune_ok (ascii s)"
  by (induction s) (auto simp: ascii_def rune_ok_def decode_rune_def Let_def)

lemma hex_char_ascii: "n < 16 \<Longrightarrow> byte (hex_char n) < 128 \<and> hex_value (byte (hex_char n)) = Some n"
  by (auto simp: hex_char_def hex_value_def byte_def)

lemma esc_ok: "rune_ok p \<Longrightarrow> list_all rune_ok (esc p)"
  by (auto simp: esc_def Let_def intro!: ascii_ok simp: hex_char_ascii [unfolded byte_def] byte_def)

text \<open>Which bytes a rune has.\<close>

lemma decode_ascii:
  assumes "decode_rune u = (c, n)" "c < 128"
  shows "n = 1 \<and> (\<exists>t. u = char_of c # t) \<or> c = 65533"
proof (cases u)
  case Nil
  with assms show ?thesis by (simp add: decode_rune_def)
next
  case (Cons c0 t)
  show ?thesis
  proof (cases "byte c0 < 128")
    case True
    with assms Cons have "c = byte c0" "n = 1" by (auto simp: decode_rune_def)
    then show ?thesis using Cons by (simp add: byte_def)
  next
    case False
    have "128 \<le> c"
      using assms False unfolding Cons decode_rune_def Let_def
      by (auto simp: is_cont_def in_range_def second_lo_def split: if_splits list.splits)
    with assms(2) show ?thesis by simp
  qed
qed

lemma three_digits:
  assumes "c = x * 4096 + y * 64 + (z :: nat)" "y < 64" "z < 64"
  shows "x = c div 4096 \<and> y = c div 64 mod 64 \<and> z = c mod 64"
proof -
  have base: "(a * 64 + z) div 64 = a \<and> (a * 64 + z) mod 64 = z" for a using assms(3) by simp
  have "c = (x * 64 + y) * 64 + z" using assms(1) by simp
  then have c64: "c div 64 = x * 64 + y" "c mod 64 = z" using base [of "x * 64 + y"] by simp_all
  have "c div 4096 = c div 64 div 64" by (simp add: div_mult2_eq [symmetric])
  then show ?thesis using c64 assms(2) by simp
qed

definition three_bytes :: "nat \<Rightarrow> bytes" where
  "three_bytes c = [char_of (224 + c div 4096), char_of (128 + c div 64 mod 64), char_of (128 + c mod 64)]"

lemma decode_three:
  assumes dec: "decode_rune u = (c, n)" and c: "2048 \<le> c" "c < 65536" "c \<noteq> 65533 \<or> n = 3"
  shows "n = 3 \<and> (\<exists>t. u = three_bytes c @ t)"
proof -
  obtain c0 u1 where u: "u = c0 # u1" using dec c by (cases u) (auto simp: decode_rune_def)
  let ?b = "byte c0"
  have range: "224 \<le> ?b \<and> ?b \<le> 239"
  proof (rule ccontr)
    assume "\<not> (224 \<le> ?b \<and> ?b \<le> 239)"
    then show False using dec c unfolding u decode_rune_def Let_def
      by (auto simp: is_cont_def in_range_def second_lo_def split: if_splits list.splits)
  qed
  then obtain c1 c2 t where u1: "u1 = c1 # c2 # t" and n: "n = 3"
    and in1: "in_range (second_lo ?b) (second_hi ?b) c1" and in2: "is_cont c2"
    and val: "(?b - 224) * 4096 + (byte c1 - 128) * 64 + (byte c2 - 128) = c"
    using dec c unfolding u decode_rune_def Let_def by (auto split: if_splits list.splits)
  have low: "128 \<le> byte c1" "byte c1 \<le> 191" "128 \<le> byte c2" "byte c2 \<le> 191"
    using in1 in2 by (auto simp: in_range_def is_cont_def second_lo_def second_hi_def split: if_splits)
  have "?b - 224 = c div 4096 \<and> byte c1 - 128 = c div 64 mod 64 \<and> byte c2 - 128 = c mod 64"
    by (rule three_digits [OF val [symmetric]]) (use low in auto)
  then have "?b = 224 + c div 4096" "byte c1 = 128 + c div 64 mod 64" "byte c2 = 128 + c mod 64"
    using range low by linarith+
  then have "c0 = char_of (224 + c div 4096)" "c1 = char_of (128 + c div 64 mod 64)" "c2 = char_of (128 + c mod 64)"
    by (metis byte_def char_of_char)+
  then show ?thesis using n by (simp add: u u1 three_bytes_def)
qed

text \<open>Which bytes a rune has.\<close>

lemma rune_bytes:
  assumes "rune_ok (c, b)"
  shows "c < 128 \<Longrightarrow> b = [char_of c]" and "2048 \<le> c \<Longrightarrow> c < 65536 \<Longrightarrow> b = three_bytes c"
proof -
  from assms obtain u where u: "decode_rune u = (c, length b)" "take (length b) u = b" "c \<noteq> 65533 \<or> length b = 3"
    by (auto simp: rune_ok_def)
  show "b = [char_of c]" if "c < 128"
    using decode_ascii [OF u(1) that] u(2) that by auto
  show "b = three_bytes c" if "2048 \<le> c" "c < 65536"
  proof -
    from decode_three [OF u(1) that u(3)] u(2)
    have "\<exists>t. length b = 3 \<and> take 3 (three_bytes c @ t) = b" by auto
    moreover have "length (three_bytes c) = 3" by (simp add: three_bytes_def)
    ultimately show ?thesis by auto
  qed
qed

text \<open>A rune that was written is read.\<close>

lemma ascii_Cons: "ascii (c # s) = (byte c, [c]) # ascii s"
  by (simp add: ascii_def)

lemma replacement_bytes: "three_bytes 65533 = [CHR 0xEF, CHR 0xBF, CHR 0xBD]"
proof -
  have "CHR 0xEF = char_of (239 :: nat)" "CHR 0xBF = char_of (191 :: nat)" "CHR 0xBD = char_of (189 :: nat)"
    by code_simp+
  then show ?thesis by (simp add: three_bytes_def)
qed

lemma unquote_ascii: "unquote (ascii (CHR 0x5C # d # s) @ rest) = (if byte d = 117 then
     (case hex4 (ascii s @ rest) of None \<Rightarrow> None
      | Some (v, r) \<Rightarrow>
          if 55296 \<le> v \<and> v < 56320 then (case low_surrogate r of
              Some (w, r') \<Rightarrow> map_option (append (encode_rune (65536 + (v - 55296) * 1024 + (w - 56320)))) (unquote r')
            | None \<Rightarrow> map_option (append (encode_rune 65533)) (unquote r))
          else map_option (append (encode_rune v)) (unquote r))
   else (case simple_escape (byte d) of None \<Rightarrow> None | Some x \<Rightarrow> map_option (append x) (unquote (ascii s @ rest))))"
  by (simp add: ascii_Cons unquote.simps(2) byte_def)

lemma unquote_control:
  assumes "c < 128"
  shows "unquote (ascii ([CHR 0x5C] @ ''u00'' @ [hex_char (c div 16), hex_char (c mod 16)]) @ rest)
    = map_option (append [char_of c]) (unquote rest)"
proof -
  have "hex_value 48 = Some 0" by (simp add: hex_value_def)
  moreover have "c div 16 * 16 + c mod 16 = c" by simp
  moreover have "hex_value (byte (hex_char (c div 16))) = Some (c div 16)" "hex_value (byte (hex_char (c mod 16))) = Some (c mod 16)"
    using assms hex_char_ascii [of "c div 16"] hex_char_ascii [of "c mod 16"] by auto
  ultimately have "hex4 (ascii (''00'' @ [hex_char (c div 16), hex_char (c mod 16)]) @ rest) = Some (c, rest)"
    by (simp add: ascii_def byte_def)
  then show ?thesis using assms
    using unquote_ascii [of "CHR ''u''" "''00'' @ [hex_char (c div 16), hex_char (c mod 16)]" rest]
    by (simp add: encode_rune_def byte_def)
qed

lemma unquote_esc:
  assumes "rune_ok (c, b)"
  shows "unquote (esc (c, b) @ rest) = map_option (append b) (unquote rest)"
proof -
  note low = rune_bytes(1) [OF assms] and sep = rune_bytes(2) [OF assms]
  consider (short) "c \<in> {34, 92, 8, 12, 10, 13, 9}"
    | (control) "c \<notin> {34, 92, 8, 12, 10, 13, 9}" "c < 32 \<or> c = 60 \<or> c = 62 \<or> c = 38"
    | (separator) "c = 8232 \<or> c = 8233"
    | (plain) "c \<notin> {34, 92, 8, 12, 10, 13, 9, 60, 62, 38, 8232, 8233}" "32 \<le> c"
    by force
  then show ?thesis
  proof cases
    case short
    then show ?thesis using low
      by (auto simp: esc_def unquote_ascii simple_escape_def byte_def ascii_def [of "[]"])
  next
    case control
    then have "esc (c, b) = ascii ([CHR 0x5C] @ ''u00'' @ [hex_char (c div 16), hex_char (c mod 16)])"
      by (auto simp: esc_def)
    moreover have "c < 128" using control by auto
    ultimately show ?thesis using unquote_control [of c rest] low by (simp del: append_Cons)
  next
    case separator
    then have "hex4 (ascii (if c = 8232 then ''2028'' else ''2029'') @ rest) = Some (c, rest)"
      by (auto simp: ascii_def byte_def hex_value_def)
    moreover have "b = encode_rune c" using separator sep by (auto simp: encode_rune_def three_bytes_def)
    ultimately show ?thesis using separator by (auto simp: esc_def unquote_ascii byte_def)
  next
    case plain
    have "length b \<noteq> 1" if "c = 65533" using assms that by (auto simp: rune_ok_def)
    with plain have "esc (c, b) = [(c, b)]" by (auto simp: esc_def)
    moreover have "rune_text (c, b) = b"
    proof (cases "c = 65533")
      case True
      with sep show ?thesis by (simp add: rune_text_def replacement_bytes)
    next
      case False
      then show ?thesis by (simp add: rune_text_def)
    qed
    ultimately show ?thesis using plain by (simp add: unquote.simps(2))
  qed
qed

lemma unquote_all: "list_all rune_ok ps \<Longrightarrow> unquote (concat (map esc ps) @ ascii [CHR 0x22]) = Some (concat (map snd ps))"
proof (induction ps)
  case Nil
  then show ?case by (simp add: ascii_def unquote.simps(2) byte_def)
next
  case (Cons p ps)
  obtain c b where "p = (c, b)" by fastforce
  with Cons show ?case by (simp add: unquote_esc)
qed

lemma escaped_ok: "list_all rune_ok ps \<Longrightarrow> list_all rune_ok (concat (map esc ps))"
  by (induction ps) (simp_all add: esc_ok)

text \<open>JSON strings: what is marshalled is unmarshalled.\<close>

lemma unmarshal_marshal:
  assumes "valid_utf8 s"
  shows "unmarshal_string (marshal_string s) = Some s"
proof -
  note ok = valid_runes [OF assms]
  have "runes (concat (map snd (concat (map esc (runes s)))) @ [CHR 0x22]) = concat (map esc (runes s)) @ ascii [CHR 0x22]"
    using runes_ok_concat [OF escaped_ok [OF ok], of "[CHR 0x22]"] by (simp add: runes_ascii ascii_def byte_def)
  then show ?thesis using unquote_all [OF ok]
    by (simp add: unmarshal_string_def marshal_string_def runes_bytes)
qed

subsection \<open>Lines that were written are read\<close>

lemma escape_char_hd: "q \<noteq> CHR 0x5C \<Longrightarrow> escape_char q s = d # t \<Longrightarrow> d \<noteq> q"
  by (cases s) (auto simp: escape_char_def split: if_splits)

lemma unescape_escape: "q \<noteq> CHR 0x5C \<Longrightarrow> unescape_char q (escape_char q s) = s"
proof (induction s)
  case Nil
  then show ?case by (simp add: escape_char_def)
next
  case (Cons c s)
  have step: "escape_char q (c # s) = (if c = q then [CHR 0x5C, q] else [c]) @ escape_char q s"
    by (simp add: escape_char_def)
  show ?case
  proof (cases "c = q")
    case True
    with Cons step show ?thesis by simp
  next
    case False
    show ?thesis
    proof (cases "escape_char q s")
      case Nil
      with Cons step False show ?thesis by (cases s) (auto simp: escape_char_def split: if_splits)
    next
      case (Cons d t)
      with Cons.IH Cons.prems step False escape_char_hd [OF Cons.prems Cons] show ?thesis by simp
    qed
  qed
qed

lemma unescape_quotes: "q \<noteq> CHR 0x5C \<Longrightarrow> c \<noteq> CHR 0x5C \<Longrightarrow> unescape_char q (c # s) = c # unescape_char q s"
  by (cases s) auto

lemma decode_rune_snoc: "byte q < 128 \<Longrightarrow> s \<noteq> [] \<Longrightarrow> decode_rune (s @ [q]) = decode_rune s"
  by (cases s) (auto simp: decode_rune_def Let_def is_cont_def in_range_def second_lo_def split: list.splits if_splits)

lemma runes_snoc: "byte q < 128 \<Longrightarrow> runes (s @ [q]) = runes s @ [(byte q, [q])]"
proof (induction s rule: runes.induct)
  case (1 s)
  show ?case
  proof (cases "s = []")
    case True
    then show ?thesis using 1(2) by (simp add: runes_ascii)
  next
    case False
    have "snd (decode_rune s) \<le> length s" using decode_rune_width [OF False] by simp
    with 1 False show ?thesis
      by (simp add: runes.simps [of "s @ [q]"] runes.simps [of s] decode_rune_snoc)
  qed
qed

lemma TrimSpace_quoted:
  assumes "q = CHR 0x22 \<or> q = CHR 0x27"
  shows "TrimSpace (q # s @ [q]) = q # s @ [q]"
proof -
  have q: "byte q < 128" "\<not> IsSpace (byte q)" using assms by (auto simp: byte_def IsSpace_def)
  then have "runes (q # s @ [q]) = (byte q, [q]) # runes s @ [(byte q, [q])]"
    by (simp add: runes_ascii runes_snoc)
  with q show ?thesis by (simp add: TrimSpace_def runes_bytes)
qed

lemma serializeEnv_shape:
  obtains (json) m where "serializeEnv v = CHR 0x22 # m @ [CHR 0x22]" "serializeEnv v = escape_char (CHR ''$'') (marshal_string v)"
  | (literal) "serializeEnv v = CHR 0x27 # escape_char (CHR 0x27) v @ [CHR 0x27]"
proof (cases "Contains v [CHR 0x5C]")
  case True
  then show thesis by (intro json) (simp_all add: serializeEnv_def marshal_string_def escape_char_def)
next
  case False
  then show thesis by (intro literal) (simp add: serializeEnv_def)
qed

lemma quoted_shape: "quoted q (q # m @ [q])" "q \<noteq> d \<Longrightarrow> \<not> quoted d (q # m @ [q])"
  by (auto simp: quoted_def HasPrefix_def HasSuffix_def)

lemma Cut_assignment: "c \<notin> set k \<Longrightarrow> Cut c (k @ c # v) = Some (k, v)"
  by (induction k) (auto simp: Cut_def split: if_splits)

lemma scan_serialized:
  assumes "CHR ''='' \<notin> set k" "TrimSpace k = k" "valid_utf8 v"
  shows "scan_line (k @ ''='' @ serializeEnv v) = Inr (k @ placeholder, Some (k, v))"
proof (cases rule: serializeEnv_shape [of v])
  case (json m)
  have "TrimSpace (serializeEnv v) = serializeEnv v" using json(1) TrimSpace_quoted [of "CHR 0x22" m] by simp
  moreover have "unmarshal_string (unescape_char (CHR ''$'') (serializeEnv v)) = Some v"
    using json(2) unescape_escape [of "CHR ''$''" "marshal_string v"] unmarshal_marshal [OF assms(3)] by simp
  moreover have "quoted (CHR 0x22) (serializeEnv v)" using json(1) quoted_shape(1) [of "CHR 0x22" m] by simp
  ultimately show ?thesis using assms by (simp add: scan_line_def Cut_assignment Let_def)
next
  case literal
  let ?e = "escape_char (CHR 0x27) v"
  have "TrimSpace (serializeEnv v) = serializeEnv v" using literal TrimSpace_quoted [of "CHR 0x27" ?e] by simp
  moreover have "\<not> quoted (CHR 0x22) (serializeEnv v)" "quoted (CHR 0x27) (serializeEnv v)"
    using literal quoted_shape(1) [of "CHR 0x27" ?e] quoted_shape(2) [of "CHR 0x27" "CHR 0x22" ?e] by auto
  moreover have "unescape_char (CHR 0x27) (butlast (tl (serializeEnv v))) = v"
    using literal unescape_escape [of "CHR 0x27" v] by simp
  ultimately show ?thesis using assms by (simp add: scan_line_def Cut_assignment Let_def)
qed

subsection \<open>The whole file\<close>

text \<open>The key a line assigns, as the loader sees it.\<close>

definition key_of :: "bytes \<Rightarrow> bytes option" where
  "key_of line = map_option (\<lambda>p. TrimSpace (fst p)) (Cut (CHR ''='') line)"

lemma Cut_Some: "Cut c s = Some (k, v) \<Longrightarrow> c \<notin> set k"
  by (auto simp: Cut_def dest: set_takeWhileD split: if_splits)

lemma scan_line_key: "scan_line line = Inr (line', Some (k, v)) \<Longrightarrow> key_of line = Some k"
  by (auto simp: scan_line_def key_of_def Let_def split: option.splits if_splits)

lemma scan_lines_other:
  "scan_lines ls lits = Inr (ls', lits') \<Longrightarrow> Some k \<notin> set (map key_of ls) \<Longrightarrow> map_of lits' k = map_of lits k"
proof (induction ls lits arbitrary: ls' lits' rule: scan_lines.induct)
  case (1 lits)
  then show ?case by simp
next
  case (2 line rest lits)
  then obtain line' lit ls1 where line: "scan_line line = Inr (line', lit)"
    and rest: "scan_lines rest (case lit of None \<Rightarrow> lits | Some (k, v) \<Rightarrow> put k v lits) = Inr (ls1, lits')"
    by auto
  from 2(1) [OF rest] 2(3)
  have "map_of lits' k = map_of (case lit of None \<Rightarrow> lits | Some (k, v) \<Rightarrow> put k v lits) k" by simp
  then show ?case using scan_line_key line 2(3) by (auto simp: map_of_put split: option.splits)
qed

lemma scan_lines_literal:
  "scan_lines ls lits = Inr (ls', lits') \<Longrightarrow> distinct (filter (\<lambda>k. k \<noteq> None) (map key_of ls)) \<Longrightarrow> l \<in> set ls \<Longrightarrow>
   scan_line l = Inr (l', Some (k, v)) \<Longrightarrow> l' \<in> set ls' \<and> map_of lits' k = Some v"
proof (induction ls lits arbitrary: ls' lits' rule: scan_lines.induct)
  case (1 lits)
  then show ?case by simp
next
  case (2 line rest lits)
  then obtain line' lit ls1 where line: "scan_line line = Inr (line', lit)"
    and rest: "scan_lines rest (case lit of None \<Rightarrow> lits | Some (k, v) \<Rightarrow> put k v lits) = Inr (ls1, lits')"
    and ls': "ls' = line' # ls1" by auto
  show ?case
  proof (cases "l = line")
    case True
    with line 2(5) have lit: "lit = Some (k, v)" "line' = l'" by simp_all
    have "key_of line = Some k" using scan_line_key line lit by simp
    then have "Some k \<notin> set (map key_of rest)" using 2(3) by auto
    from scan_lines_other [OF rest this] show ?thesis by (simp add: lit ls' map_of_put)
  next
    case False
    with 2(4) have "l \<in> set rest" by simp
    from 2(1) [OF rest _ this 2(5)] 2(3) show ?thesis by (auto simp: ls' split: if_splits)
  qed
qed

lemma render_env_lines:
  "render_env lines repl = (ls, r) \<Longrightarrow> list_all (\<lambda>(k, v). TrimSpace k = k) repl \<Longrightarrow> map key_of ls = map key_of lines
    \<and> (\<forall>l \<in> set ls. l \<in> set lines \<or> (\<exists>k v. (k, v) \<in> set repl \<and> l = k @ ''='' @ serializeEnv v))
    \<and> (\<forall>k v. map_of repl k = Some v \<longrightarrow> map_of r k = Some v \<or> k @ ''='' @ serializeEnv v \<in> set ls)"
proof (induction lines repl arbitrary: ls r rule: render_env.induct)
  case (1 repl)
  then show ?case by simp
next
  case (2 line rest repl)
  let ?key = "case Cut (CHR ''='') line of Some (k, _) \<Rightarrow> Some k | None \<Rightarrow> None"
  show ?case
  proof (cases "case ?key of None \<Rightarrow> None | Some k \<Rightarrow> map_option (Pair k) (map_of repl k)")
    case None
    obtain ls1 where rec: "render_env rest repl = (ls1, r)" and ls: "ls = line # ls1"
      using 2(3) None by (auto simp: Let_def split: prod.splits)
    from 2(1) [OF refl None rec 2(4)] show ?thesis by (auto simp: ls)
  next
    case (Some p)
    obtain k v where p: "p = (k, v)" by fastforce
    let ?repl = "filter (\<lambda>(k', _). k' \<noteq> k) repl"
    obtain ls1 where rec: "render_env rest ?repl = (ls1, r)" and ls: "ls = (k @ ''='' @ serializeEnv v) # ls1"
      using 2(3) Some p by (auto simp: Let_def split: prod.splits)
    from Some p obtain w where cut: "Cut (CHR ''='') line = Some (k, w)" and v: "map_of repl k = Some v"
      by (auto split: option.splits)
    have key: "key_of (k @ ''='' @ serializeEnv v) = key_of line"
      using Cut_Some [OF cut] by (simp add: key_of_def cut Cut_assignment)
    have "list_all (\<lambda>(k, v). TrimSpace k = k) ?repl" using 2(4) by (auto simp: list_all_iff)
    note IH = 2(2) [OF refl Some p [symmetric] rec this]
    have "map key_of ls = map key_of (line # rest)" using IH key by (simp add: ls)
    moreover have "l \<in> set (line # rest) \<or> (\<exists>k v. (k, v) \<in> set repl \<and> l = k @ ''='' @ serializeEnv v)"
      if "l \<in> set ls" for l
      using that IH map_of_SomeD [OF v] by (auto simp: ls)
    moreover have "map_of r k' = Some v' \<or> k' @ ''='' @ serializeEnv v' \<in> set ls" if "map_of repl k' = Some v'" for k' v'
    proof (cases "k' = k")
      case True
      with that v show ?thesis by (simp add: ls)
    next
      case False
      with that have "map_of ?repl k' = Some v'" by (simp add: map_of_filter_key)
      with IH show ?thesis by (auto simp: ls)
    qed
    ultimately show ?thesis by blast
  qed
qed

lemma crlf_id: "CHR 0x0D \<notin> set s \<Longrightarrow> crlf s = s"
  by (induction s rule: crlf.induct) auto

lemma Split_join: "ls \<noteq> [] \<Longrightarrow> list_all (\<lambda>l. c \<notin> set l) ls \<Longrightarrow> Split c (join c ls) = ls"
proof (induction c ls rule: join.induct)
  case (3 c p p' ps)
  then show ?case by (simp add: Split_append)
qed (simp_all add: Split_id)

lemma set_join: "set (join c ls) \<subseteq> insert c (\<Union> (set ` set ls))"
  by (induction c ls rule: join.induct) auto

lemma set_in_join: "p \<in> set ls \<Longrightarrow> set p \<subseteq> set (join c ls)"
  by (induction c ls rule: join.induct) auto

lemma set_Split: "p \<in> set (Split c s) \<Longrightarrow> set p \<subseteq> set s"
  using set_in_join [of p "Split c s" c] by (simp add: join_Split)

definition one_line :: "bytes \<Rightarrow> bool" where
  "one_line s \<longleftrightarrow> CHR 0x0A \<notin> set s \<and> CHR 0x0D \<notin> set s"

lemma hex_char_line: "n < 16 \<Longrightarrow> hex_char n \<noteq> CHR 0x0A \<and> hex_char n \<noteq> CHR 0x0D"
proof -
  assume "n < 16"
  then have "48 \<le> byte (hex_char n)" by (auto simp: hex_char_def byte_def)
  then show ?thesis by (auto simp: byte_def)
qed

lemma one_line_ascii: "one_line s \<Longrightarrow> one_line (concat (map snd (ascii s)))"
  by (induction s) (auto simp: ascii_def one_line_def)

lemma one_line_esc: "one_line (snd p) \<Longrightarrow> one_line (concat (map snd (esc p)))"
  unfolding esc_def Let_def
  by (auto simp: ascii_def one_line_def hex_char_line [THEN conjunct1] hex_char_line [THEN conjunct1, THEN not_sym]
      hex_char_line [THEN conjunct2] hex_char_line [THEN conjunct2, THEN not_sym] split: if_splits)

lemma one_line_escape: "one_line s \<Longrightarrow> q \<noteq> CHR 0x0A \<Longrightarrow> q \<noteq> CHR 0x0D \<Longrightarrow> one_line (escape_char q s)"
  by (auto simp: one_line_def escape_char_def split: if_splits)

lemma one_line_marshal:
  assumes "one_line v"
  shows "one_line (marshal_string v)"
proof -
  have "one_line (snd p)" if "p \<in> set (runes v)" for p
  proof -
    have "set (snd p) \<subseteq> set (concat (map snd (runes v)))" using that by auto
    then show ?thesis using assms by (auto simp: one_line_def runes_bytes)
  qed
  then have each: "one_line (concat (map snd (esc p)))" if "p \<in> set (runes v)" for p
    using one_line_esc that by blast
  have "one_line (concat (map snd (concat (map esc ps))))" if "set ps \<subseteq> set (runes v)" for ps
    using that
  proof (induction ps)
    case Nil
    show ?case by (simp add: one_line_def)
  next
    case (Cons p ps)
    then have "one_line (concat (map snd (esc p)))" "one_line (concat (map snd (concat (map esc ps))))" using each by simp_all
    then show ?case by (simp add: one_line_def del: set_concat set_map)
  qed
  then have "one_line (concat (map snd (concat (map esc (runes v)))))" by blast
  then show ?thesis by (simp add: marshal_string_def one_line_def del: set_concat set_map)
qed

lemma one_line_serialized: "one_line v \<Longrightarrow> one_line (serializeEnv v)"
  using one_line_escape [OF one_line_marshal, of v "CHR ''$''"] one_line_escape [of v "CHR 0x27"]
  by (auto simp: serializeEnv_def one_line_def)

lemma assign_all_keeps: "assign_all vals g = Inr g' \<Longrightarrow> g k = Some x \<Longrightarrow> g' k = Some x"
proof (induction vals g rule: assign_all.induct)
  case (2 k' v' rest g)
  then show ?case by (cases "k = k'") (auto simp: Setenv_def split: if_splits)
qed simp

lemma assign_all_value:
  "assign_all vals g = Inr g' \<Longrightarrow> distinct (map fst vals) \<Longrightarrow> (k, v) \<in> set vals \<Longrightarrow> g k = None \<Longrightarrow> g' k = Some v"
proof (induction vals g rule: assign_all.induct)
  case (1 g)
  then show ?case by simp
next
  case (2 k' v' rest g)
  show ?case
  proof (cases "g k' = None")
    case True
    with 2(3) obtain g1 where g1: "Setenv k' v' g = Inr g1" "assign_all rest g1 = Inr g'" by auto
    then have up: "g1 = g(k' \<mapsto> v')" by (auto simp: Setenv_def split: if_splits)
    show ?thesis
    proof (cases "k = k'")
      case True
      then have "v = v'" using 2(4,5) by force
      with True assign_all_keeps [OF g1(2), of k v'] show ?thesis by (simp add: up)
    next
      case False
      with 2(5,6) up have "(k, v) \<in> set rest" "g1 k = None" by auto
      with 2(2) [OF _ g1(2)] True 2(4) show ?thesis by auto
    qed
  next
    case False
    with 2(3-6) have "assign_all rest g = Inr g'" "(k, v) \<in> set rest" by auto
    with 2(1) False 2(4,6) show ?thesis by auto
  qed
qed

text \<open>
  What is asked of \<open>godotenv\<close>: its result is a map, and the line \<open>KEY=CLI_LITERAL_VALUE\<close> of a key in
  question defines that key.
\<close>

definition dotenv_laws :: "(bytes \<Rightarrow> (bytes \<times> bytes) list option) \<Rightarrow> bytes list \<Rightarrow> bool" where
  "dotenv_laws dotenv ks \<longleftrightarrow> (\<forall>ls vals. dotenv (join (CHR 0x0A) ls) = Some vals \<longrightarrow> distinct (map fst vals)
     \<and> (\<forall>k \<in> set ks. k @ placeholder \<in> set ls \<longrightarrow> k \<in> fst ` set vals))"

definition good_entry :: "bytes \<times> bytes \<Rightarrow> bool" where
  "good_entry p \<longleftrightarrow> CHR ''='' \<notin> set (fst p) \<and> TrimSpace (fst p) = fst p \<and> one_line (fst p)
     \<and> valid_utf8 (snd p) \<and> one_line (snd p)"

lemma written_lines:
  assumes "write_env template repl = Inr content" and "list_all good_entry repl" and "CHR 0x0D \<notin> set template"
  obtains ls where "content = join (CHR 0x0A) ls" "Split (CHR 0x0A) (crlf content) = ls"
    "map key_of ls = map key_of (Split (CHR 0x0A) template)"
    "\<And>k v. map_of repl k = Some v \<Longrightarrow> k @ ''='' @ serializeEnv v \<in> set ls"
proof -
  obtain ls where run: "render_env (Split (CHR 0x0A) template) repl = (ls, [])" and content: "content = join (CHR 0x0A) ls"
    using assms(1) by (auto simp: write_env_def split: prod.splits list.splits)
  have "list_all (\<lambda>(k, v). TrimSpace k = k) repl" using assms(2) by (auto simp: list_all_iff good_entry_def)
  note lines = render_env_lines [OF run this]
  have one: "one_line l" if "l \<in> set ls" for l
  proof -
    from lines that consider "l \<in> set (Split (CHR 0x0A) template)" | k v where "(k, v) \<in> set repl" "l = k @ ''='' @ serializeEnv v"
      by blast
    then show ?thesis
    proof cases
      case 1
      then show ?thesis using assms(3) set_Split [of l] Split_no_sep [of "CHR 0x0A" template] by (auto simp: one_line_def)
    next
      case 2
      then have "one_line k" "one_line (serializeEnv v)"
        using assms(2) one_line_serialized by (auto simp: list_all_iff good_entry_def)
      then show ?thesis by (simp add: 2 one_line_def)
    qed
  qed
  have "ls \<noteq> []" using lines by (metis Split_nonempty list.map_disc_iff)
  moreover have "CHR 0x0D \<notin> set content" using one set_join [of "CHR 0x0A" ls] by (fastforce simp: content one_line_def)
  ultimately have "Split (CHR 0x0A) (crlf content) = ls"
    using one by (simp add: crlf_id content Split_join list_all_iff one_line_def)
  with content lines show thesis by (intro that [of ls]) auto
qed


subsection \<open>A project file\<close>

text \<open>A simple reader of assignments satisfies the laws.\<close>

definition assign_line :: "(bytes \<times> bytes) list \<Rightarrow> bytes \<Rightarrow> (bytes \<times> bytes) list" where
  "assign_line m line = (case Cut (CHR ''='') line of None \<Rightarrow> m | Some (k, v) \<Rightarrow> put k v m)"

definition plain_dotenv :: "bytes \<Rightarrow> (bytes \<times> bytes) list option" where
  "plain_dotenv text = Some (foldl assign_line [] (Split (CHR 0x0A) text))"

lemma put_set: "fst ` set (put k v m) = insert k (fst ` set m)"
  by (induction k v m rule: put.induct) auto

lemma put_distinct: "distinct (map fst m) \<Longrightarrow> distinct (map fst (put k v m))"
proof (induction k v m rule: put.induct)
  case (2 k v k' v' m)
  then show ?case using put_set [of k v m] by auto
qed simp

lemmas put_keys = put_distinct put_set

lemma foldl_assign: "distinct (map fst m) \<Longrightarrow> distinct (map fst (foldl assign_line m ls))"
  "line \<in> set ls \<and> Cut (CHR ''='') line = Some (k, v) \<or> k \<in> fst ` set m \<Longrightarrow> k \<in> fst ` set (foldl assign_line m ls)"
proof (induction ls arbitrary: m)
  case (Cons l ls)
  {
    case 1
    then have "distinct (map fst (assign_line m l))" by (auto simp: assign_line_def put_keys split: option.splits)
    then show ?case using Cons(1) by simp
  next
    case 2
    then have "line \<in> set ls \<and> Cut (CHR ''='') line = Some (k, v) \<or> k \<in> fst ` set (assign_line m l)"
      by (auto simp: assign_line_def put_keys split: option.splits)
    then show ?case using Cons(2) by simp
  }
qed auto

lemma Split_glue: "Split c (a @ c # b) = Split c a @ Split c b"
proof (induction a)
  case Nil
  then show ?case by simp
next
  case (Cons x a)
  then show ?case by (cases "Split c a") auto
qed

lemma Split_join_pieces: "ls \<noteq> [] \<Longrightarrow> Split c (join c ls) = concat (map (Split c) ls)"
  by (induction c ls rule: join.induct) (simp_all add: Split_glue)

lemma plain_dotenv_laws:
  assumes "list_all (\<lambda>k. CHR ''='' \<notin> set k \<and> CHR 0x0A \<notin> set k) ks"
  shows "dotenv_laws plain_dotenv ks"
  unfolding dotenv_laws_def
proof (intro allI impI conjI ballI)
  fix ls vals
  assume parse: "plain_dotenv (join (CHR 0x0A) ls) = Some vals"
  then show "distinct (map fst vals)" by (auto simp: plain_dotenv_def intro: foldl_assign)
  fix k
  assume k: "k \<in> set ks" and line: "k @ placeholder \<in> set ls"
  have "CHR 0x0A \<notin> set (k @ placeholder)" "CHR ''='' \<notin> set k"
    using assms k by (auto simp: list_all_iff placeholder_def)
  then have "Split (CHR 0x0A) (k @ placeholder) = [k @ placeholder]" "Cut (CHR ''='') (k @ placeholder) = Some (k, ''CLI_LITERAL_VALUE'')"
    using Cut_assignment [of "CHR ''=''" k "''CLI_LITERAL_VALUE''"] by (simp_all add: Split_id placeholder_def)
  moreover have "ls \<noteq> []" using line by auto
  moreover have "set (Split (CHR 0x0A) (k @ placeholder)) \<subseteq> set (concat (map (Split (CHR 0x0A)) ls))" using line by auto
  ultimately have "k @ placeholder \<in> set (Split (CHR 0x0A) (join (CHR 0x0A) ls))" by (simp add: Split_join_pieces)
  with parse \<open>Cut _ _ = _\<close> show "k \<in> fst ` set vals"
    by (auto simp: plain_dotenv_def intro: foldl_assign(2))
qed

text \<open>A password with a quote, a dollar and a backslash.\<close>

definition sample_template :: bytes where
  "sample_template = ''PORT=8080'' @ [CHR 0x0A] @ ''POSTGRES_PASSWORD=change-me'' @ [CHR 0x0A]"

definition sample_password :: bytes where
  "sample_password = ''a'' @ [CHR 0x27, CHR 0x22, CHR 0x5C] @ ''$b''"

lemma sample_entry: "list_all good_entry [(''POSTGRES_PASSWORD'', sample_password)]"
proof -
  have "valid_utf8 sample_password" by (simp add: valid_utf8_def sample_password_def runes_ascii byte_def)
  moreover have "TrimSpace ''POSTGRES_PASSWORD'' = ''POSTGRES_PASSWORD''" by code_simp
  ultimately show ?thesis by (simp add: good_entry_def one_line_def sample_password_def)
qed

lemma sample_lines: "Split (CHR 0x0A) sample_template = [''PORT=8080'', ''POSTGRES_PASSWORD=change-me'', []]"
  by code_simp

lemma sample_write: "write_env sample_template [(''POSTGRES_PASSWORD'', sample_password)]
   = Inr (join (CHR 0x0A) [''PORT=8080'', ''POSTGRES_PASSWORD'' @ ''='' @ serializeEnv sample_password, []])"
proof -
  have "Cut (CHR ''='') ''PORT=8080'' = Some (''PORT'', ''8080'')"
    "Cut (CHR ''='') ''POSTGRES_PASSWORD=change-me'' = Some (''POSTGRES_PASSWORD'', ''change-me'')"
    "Cut (CHR ''='') [] = None" by code_simp+
  then show ?thesis unfolding write_env_def sample_lines by (simp add: Let_def)
qed


end

