(* ===== verification/InitProject.thy ===== *)
theory InitProject
  imports Dotenv
begin

text \<open>
  \<open>cmd/initproject\<close>: the answers it accepts, the variables it writes, and which files of the template it
  copies.  The terminal is the list of lines that are typed, a directory is a tree, and the random
  secrets, \<open>url.URL.String\<close> and \<open>filepath.Abs\<close> are parameters.  Creating directories and running the Go
  tool are I/O.
\<close>

subsection \<open>Questions\<close>

text \<open>A line that is empty, or the end of the input, takes the default.\<close>

fun ask :: "bytes list \<Rightarrow> bytes \<Rightarrow> bytes \<times> bytes list" where
  "ask [] defaultValue = (defaultValue, [])"
| "ask (text # rest) defaultValue = ((if TrimSpace text \<noteq> [] then TrimSpace text else defaultValue), rest)"

text \<open>\<open>filepath.Base\<close>.\<close>

definition Base :: "bytes \<Rightarrow> bytes" where
  "Base s = (if s = [] then ''.''
     else let t = rev (dropWhile (\<lambda>c. c = CHR 0x2F) (rev s)) in if t = [] then ''/'' else last (Split (CHR 0x2F) t))"

definition module_char :: "char \<Rightarrow> bool" where
  "module_char c \<longleftrightarrow> letter c \<or> digit c \<or> c = CHR ''.'' \<or> c = CHR ''_'' \<or> c = CHR ''~'' \<or> c = CHR ''-''"

definition validModulePath :: "bytes \<Rightarrow> bool" where
  "validModulePath s \<longleftrightarrow> length (Split (CHR 0x2F) s) \<ge> 2
     \<and> list_all (\<lambda>part. part \<noteq> [] \<and> (letter (hd part) \<or> digit (hd part)) \<and> list_all module_char part) (Split (CHR 0x2F) s)"

record answers =
  an_Provider :: bytes
  an_Name :: bytes
  an_Module :: bytes
  an_Port :: bytes
  an_DbName :: bytes
  an_DbUser :: bytes
  an_DbPassword :: bytes
  an_Redis :: bool
  an_Storage :: bytes

definition database_maximum :: "bytes \<Rightarrow> nat" where
  "database_maximum provider = (if provider = ''mysql'' then 64 else 63)"

definition username_maximum :: "bytes \<Rightarrow> nat" where
  "username_maximum provider = (if provider = ''mysql'' then 32 else 63)"

text \<open>From the flags to the last question.  \<open>random\<close> is the password that is drawn when none is set.\<close>

definition questions :: "bytes \<Rightarrow> bytes option \<Rightarrow> bytes list \<Rightarrow> environ \<Rightarrow> bytes \<Rightarrow> goerr + answers" where
  "questions provider arg lines g random =
     and_then (demand (provider = ''postgresql'' \<or> provider = ''mysql'') ''database must be postgresql or mysql'') (\<lambda>_.
     let (name, lines) = (case arg of Some a \<Rightarrow> (a, lines) | None \<Rightarrow> ask lines ''my-api'') in
     and_then (demand (\<not> (name = [] \<or> name = ''.'' \<or> name = ''..'')) ''project directory name is required'') (\<lambda>_.
     let (module, lines) = ask lines (''example.com/'' @ Base name) in
     and_then (demand (validModulePath module \<and> \<not> Contains module ''..'') ''invalid Go module path'') (\<lambda>_.
     let (port, lines) = ask lines ''8080'' in
     and_then (demand (case Atoi port of Inl _ \<Rightarrow> False | Inr n \<Rightarrow> 1 \<le> n \<and> n \<le> 65535) ''invalid HTTP port'') (\<lambda>_.
     let (dbName, lines) = ask lines (map (\<lambda>c. if c = CHR ''-'' then CHR ''_'' else c) (Base name));
         (dbUser, lines) = ask lines ''backend'' in
     and_then (demand (length dbName \<le> database_maximum provider)
       (provider @ '' database name exceeds '' @ Itoa (database_maximum provider) @ '' characters'')) (\<lambda>_.
     and_then (demand (length dbUser \<le> username_maximum provider)
       (provider @ '' username exceeds '' @ Itoa (username_maximum provider) @ '' characters'')) (\<lambda>_.
     let dbPassword = (if getenv g ''RIDHUAN_DB_PASSWORD'' [] = [] then random else getenv g ''RIDHUAN_DB_PASSWORD'' []) in
     and_then (demand (sql_identifier dbName \<and> sql_identifier dbUser
         \<and> list_all (\<lambda>c. c \<noteq> CHR 0x0D \<and> c \<noteq> CHR 0x0A \<and> c \<noteq> CHR 0x00) dbPassword)
       ''database name/user must be SQL identifiers; password cannot contain newline or NUL'') (\<lambda>_.
     let (redis, lines) = ask lines ''n''; (storage, lines) = ask lines ''local'' in
     and_then (demand (ToLower storage = ''local'' \<or> ToLower storage = ''s3'') ''upload storage must be local or s3'') (\<lambda>_.
     and_then (demand (\<not> (provider = ''mysql'' \<and> ToLower dbUser = ''root'')) ''use a dedicated MySQL application user'') (\<lambda>_.
     Inr \<lparr>an_Provider = provider, an_Name = name, an_Module = module, an_Port = port, an_DbName = dbName,
       an_DbUser = dbUser, an_DbPassword = dbPassword, an_Redis = (ToLower redis = ''y'' \<or> ToLower redis = ''yes''),
       an_Storage = ToLower storage\<rparr>)))))))))"

text \<open>The destination must not be the source or lie in it; both are absolute paths.\<close>

definition outside :: "bytes \<Rightarrow> bytes \<Rightarrow> goerr + unit" where
  "outside source destination = demand (\<not> (destination = source \<or> HasPrefix destination (source @ ''/'')))
     ''project destination must be outside template source''"

subsection \<open>Variables\<close>

record secrets =
  se_JWT :: bytes
  se_Admin :: bytes
  se_User :: bytes
  se_S3 :: bytes
  se_Root :: bytes

text \<open>The URL of the database, as the library writes it.\<close>

definition makeURL :: "(bytes \<Rightarrow> bytes \<Rightarrow> bytes \<Rightarrow> bytes \<Rightarrow> bytes \<Rightarrow> bytes \<Rightarrow> bytes) \<Rightarrow> answers \<Rightarrow> bytes \<Rightarrow> bytes" where
  "makeURL url_text a host = url_text (an_Provider a) (an_DbUser a) (an_DbPassword a)
     (host @ '':'' @ (if an_Provider a = ''mysql'' then ''3306'' else ''5432'')) (''/'' @ an_DbName a) ''sslmode=disable''"

definition replacements :: "(bytes \<Rightarrow> bytes \<Rightarrow> bytes \<Rightarrow> bytes \<Rightarrow> bytes \<Rightarrow> bytes \<Rightarrow> bytes) \<Rightarrow> answers \<Rightarrow> secrets \<Rightarrow> (bytes \<times> bytes) list" where
  "replacements url_text a se =
     [(''PORT'', an_Port a), (''APP_PORT'', an_Port a)]
     @ (if an_Provider a = ''mysql''
        then [(''MYSQL_DATABASE'', an_DbName a), (''MYSQL_USER'', an_DbUser a), (''MYSQL_PASSWORD'', an_DbPassword a),
          (''MYSQL_ROOT_PASSWORD'', se_Root se)]
        else [(''POSTGRES_DB'', an_DbName a), (''POSTGRES_USER'', an_DbUser a), (''POSTGRES_PASSWORD'', an_DbPassword a)])
     @ [(''DATABASE_URL'', makeURL url_text a ''127.0.0.1''),
        (''DATABASE_URL_DOCKER'', makeURL url_text a (if an_Provider a = ''mysql'' then ''mysql'' else ''postgres'')),
        (''JWT_SECRET'', se_JWT se), (''ADMIN_PASSWORD'', se_Admin se), (''USER_PASSWORD'', se_User se),
        (''REDIS_NAMESPACE'', ToLower (Base (an_Name a))), (''CACHE_ENABLED'', FormatBool (an_Redis a)),
        (''RATE_LIMIT_STORE'', if an_Redis a then ''redis'' else ''memory''), (''UPLOAD_STORAGE'', an_Storage a),
        (''COMPOSE_PROFILES'', join (CHR '','') ((if an_Redis a then [''redis''] else []) @ (if an_Storage a = ''s3'' then [''minio''] else []))),
        (''COMPOSE_PROJECT_NAME'', ToLower (Base (an_Name a))),
        (''S3_ACCESS_KEY_ID'', ''development''), (''S3_SECRET_ACCESS_KEY'', se_S3 se), (''DB_PROVIDER'', an_Provider a)]"

subsection \<open>The copy of the template\<close>

datatype node = A_File bytes bool bytes | A_Dir bytes "node list"  \<comment> \<open>a file: is it regular, and its content\<close>

definition allowed_roots :: "bytes list" where
  "allowed_roots = [''LICENSE'', ''.gitattributes'', ''.github'', ''cmd'', ''contracts'', ''internal'', ''.dockerignore'',
     ''.env.example'', ''.env.mysql.example'', ''compose.mysql.yaml'', ''.gitignore'', ''Dockerfile'', ''compose.yaml'',
     ''compose.override.yaml.example'', ''go.mod'', ''go.sum'', ''README.md'', ''sqlc.yaml'', ''CONTRIBUTING.md'',
     ''SECURITY.md'', ''CHANGELOG.md'', ''scripts'', ''Makefile'', ''docs'']"

text \<open>What the walk passes over: \<open>root\<close> is the first part of a path, \<open>name\<close> the last.  A directory with the
  name of an environment file is walked, but not made, and writing below it fails, which is left out.\<close>

definition skipped_dir :: "bytes \<Rightarrow> bytes \<Rightarrow> bool" where
  "skipped_dir root name \<longleftrightarrow> root \<notin> set allowed_roots \<or> name \<in> {''.git'', ''uploads'', ''bin''}"

definition skipped_file :: "bytes \<Rightarrow> bytes \<Rightarrow> bool" where
  "skipped_file root name \<longleftrightarrow> root \<notin> set allowed_roots
     \<or> root = ''docs'' \<and> name \<notin> {''OPERATIONS.md'', ''module-guide.md'', ''contract-parity.md'', ''testing.md''}
     \<or> name = ''.env'' \<or> HasPrefix name ''.env.'' \<and> name \<noteq> ''.env.example'' \<and> name \<noteq> ''.env.mysql.example''
     \<or> name = ''coverage.out''"

text \<open>\<open>strings.ReplaceAll\<close> for a text that is not empty.\<close>

function replace_all :: "bytes \<Rightarrow> bytes \<Rightarrow> bytes \<Rightarrow> bytes" where
  "replace_all old new s = (if s = [] \<or> old = [] then s
     else if HasPrefix s old then new @ replace_all old new (drop (length old) s)
     else hd s # replace_all old new (tl s))"
  by pat_completeness auto
termination
  by (relation "measure (\<lambda>(old, new, s). length s)") (auto simp: neq_Nil_conv)

declare replace_all.simps [simp del]

definition originalModule :: bytes where
  "originalModule = ''github.com/RidhuanDEV/golang-backend''"

definition copied_content :: "bytes \<Rightarrow> bytes \<Rightarrow> bytes \<Rightarrow> bytes" where
  "copied_content module name content =
     (if HasSuffix name ''.go'' \<or> name = ''go.mod'' then replace_all originalModule module content else content)"

text \<open>The walk below a directory; a path is the list of its parts.\<close>

fun copy_node :: "bytes \<Rightarrow> bytes list \<Rightarrow> node \<Rightarrow> (bytes list \<times> bytes) list" where
  "copy_node module path (A_File name regular content) =
     (if \<not> skipped_file (hd (path @ [name])) name \<and> regular then [(path @ [name], copied_content module name content)] else [])"
| "copy_node module path (A_Dir name entries) =
     (if skipped_dir (hd (path @ [name])) name then [] else concat (map (copy_node module (path @ [name])) entries))"

definition copyTemplate :: "bytes \<Rightarrow> node list \<Rightarrow> (bytes list \<times> bytes) list" where
  "copyTemplate module entries = concat (map (copy_node module []) entries)"

subsection \<open>What a new project gets\<close>

text \<open>No environment file, no history of the repository and no upload is copied.\<close>

definition harmless :: "bytes list \<Rightarrow> bool" where
  "harmless path \<longleftrightarrow> path \<noteq> [] \<and> hd path \<in> set allowed_roots \<and> last path \<noteq> ''.env''
     \<and> (HasPrefix (last path) ''.env.'' \<longrightarrow> last path \<in> {''.env.example'', ''.env.mysql.example''})
     \<and> list_all (\<lambda>part. part \<notin> {''.git'', ''uploads'', ''bin''}) (butlast path)"

lemma copy_node_harmless:
  "list_all (\<lambda>part. part \<notin> {''.git'', ''uploads'', ''bin''}) path \<Longrightarrow>
   list_all (\<lambda>(p, content). harmless p) (copy_node module path n)"
proof (induction module path n rule: copy_node.induct)
  case (1 module path name regular content)
  then show ?case by (auto simp: harmless_def skipped_file_def)
next
  case (2 module path name entries)
  show ?case
  proof (cases "skipped_dir (hd (path @ [name])) name")
    case False
    then have "list_all (\<lambda>part. part \<notin> {''.git'', ''uploads'', ''bin''}) (path @ [name])"
      using 2(2) by (simp add: skipped_dir_def)
    with 2(1) False show ?thesis by (auto simp: list_all_iff)
  qed simp
qed

theorem copyTemplate_harmless: "list_all (\<lambda>(p, content). harmless p) (copyTemplate module entries)"
  unfolding copyTemplate_def list_all_iff using copy_node_harmless [of "[]"] by (auto simp: list_all_iff)

text \<open>Accepted answers fit the checks of \<open>Load\<close> on the port and the database.\<close>

lemma questions_accepted:
  assumes "questions provider arg lines g random = Inr a"
  shows "an_Provider a = provider \<and> (provider = ''postgresql'' \<or> provider = ''mysql'')
    \<and> (\<exists>n. Atoi (an_Port a) = Inr n \<and> 1 \<le> n \<and> n \<le> 65535)
    \<and> sql_identifier (an_DbName a) \<and> length (an_DbName a) \<le> maximum_database provider
    \<and> sql_identifier (an_DbUser a) \<and> length (an_DbUser a) \<le> maximum_user provider
    \<and> list_all (\<lambda>c. c \<noteq> CHR 0x0D \<and> c \<noteq> CHR 0x0A \<and> c \<noteq> CHR 0x00) (an_DbPassword a)
    \<and> (an_Storage a = ''local'' \<or> an_Storage a = ''s3'')"
  using assms
  by (auto simp: questions_def demand_def and_then_def database_maximum_def username_maximum_def maximum_database_def
      maximum_user_def Let_def split: if_splits prod.splits sum.splits)

theorem accepted_database_loads:
  assumes "questions provider arg lines g random = Inr a"
    and "cf_DatabaseProvider c = an_Provider a"
    and "parse_url ps (cf_DatabaseURL c) = Some u" and "url_Scheme u = an_Provider a"
    and "url_User u = Some (an_DbUser a)" and "url_Path u = ''/'' @ an_DbName a"
  shows "check_database ps c = Inr ()"
proof -
  note ok = questions_accepted [OF assms(1)]
  have "TrimPrefix (''/'' @ an_DbName a) ''/'' = an_DbName a" by (simp add: TrimPrefix_def HasPrefix_def)
  then show ?thesis using assms(2-6) ok by (auto simp: check_database_def Let_def demand_def and_then_def)
qed

text \<open>The name of the directory is not checked against the rule for \<open>REDIS_NAMESPACE\<close>: a project in
  \<open>my.api\<close> is created, and does not start.\<close>

theorem namespace_of_new_project_refused:
  "(case questions ''postgresql'' (Some ''my.api'') [[], [], ''app''] (\<lambda>_. None) ''pw'' of
      Inl _ \<Rightarrow> False | Inr a \<Rightarrow> map_of (replacements url_text a se) ''REDIS_NAMESPACE'' = Some ''my.api'')
   \<and> \<not> namespace_ok ''my.api''"
proof -
  have "case questions ''postgresql'' (Some ''my.api'') [[], [], ''app''] (\<lambda>_. None) ''pw'' of
      Inl _ \<Rightarrow> False | Inr a \<Rightarrow> an_Name a = ''my.api'' \<and> an_Provider a = ''postgresql''" by code_simp
  moreover have "ToLower (Base ''my.api'') = ''my.api''" "\<not> namespace_ok ''my.api''" by code_simp+
  ultimately show ?thesis by (auto simp: replacements_def split: sum.splits)
qed

end
