(* ===== verification/Connect.thy ===== *)
theory Connect
  imports Config
begin

text \<open>
  \<open>internal/db/connection.go\<close> and \<open>db.go\<close>: which engine a provider and a URL mean, what is handed to the
  MySQL driver, and what the migration tool is asked to do.  The URL parser, the file of certificates
  and the drivers are parameters; opening a pool and pinging it are one call that may fail.
\<close>

record full_url = url +
  url_Hostname :: bytes
  url_Port :: bytes
  url_Password :: bytes                  \<comment> \<open>empty if there is none\<close>
  url_Query :: "(bytes \<times> bytes) list"    \<comment> \<open>in the order of the URL\<close>

definition query_get :: "full_url \<Rightarrow> bytes \<Rightarrow> bytes" where
  "query_get u k = (case map_of (url_Query u) k of None \<Rightarrow> [] | Some v \<Rightarrow> v)"

definition query_has :: "full_url \<Rightarrow> bytes \<Rightarrow> bool" where
  "query_has u k \<longleftrightarrow> map_of (url_Query u) k \<noteq> None"

text \<open>\<open>net.JoinHostPort\<close>.\<close>

definition JoinHostPort :: "bytes \<Rightarrow> bytes \<Rightarrow> bytes" where
  "JoinHostPort host port = (if CHR '':'' \<in> set host then ''['' @ host @ '']:'' @ port else host @ '':'' @ port)"

text \<open>The fields of \<open>mysql.Config\<close> that are set; \<open>mc_TLS\<close> is the server name and the certificates to trust
  beside those of the system.\<close>

record mysql_config =
  mc_User :: bytes
  mc_Passwd :: bytes
  mc_Net :: bytes
  mc_Addr :: bytes
  mc_DBName :: bytes
  mc_ParseTime :: bool
  mc_Timeout :: int
  mc_ReadTimeout :: int
  mc_WriteTimeout :: int
  mc_Collation :: bytes
  mc_TimeZone :: bytes
  mc_TLS :: "(bytes \<times> bytes option) option"

record certificates =
  read_pem :: "bytes \<Rightarrow> bytes option"    \<comment> \<open>\<open>os.ReadFile\<close>\<close>
  has_certificate :: "bytes \<Rightarrow> bool"      \<comment> \<open>\<open>AppendCertsFromPEM\<close>\<close>

definition mysql_tls :: "certificates \<Rightarrow> full_url \<Rightarrow> goerr + (bytes \<times> bytes option) option" where
  "mysql_tls cs u = (let sslmode = query_get u ''sslmode'' in
     if sslmode = [] \<or> sslmode = ''disable'' then
       (if query_has u ''sslrootcert'' then Inl (OtherError ''sslrootcert requires sslmode=verify-full'') else Inr None)
     else if sslmode = ''verify-full'' then
       (let certificate = query_get u ''sslrootcert'' in
        if certificate = [] then Inr (Some (url_Hostname u, None))
        else (case read_pem cs certificate of
            None \<Rightarrow> Inl (OtherError ''cannot read MySQL CA certificate'')
          | Some pem \<Rightarrow> if has_certificate cs pem then Inr (Some (url_Hostname u, Some pem))
              else Inl (OtherError ''MySQL CA file contains no certificates'')))
     else Inl (OtherError ''MySQL sslmode must be disable or verify-full''))"

definition MySQLConfig :: "(bytes \<Rightarrow> full_url option) \<Rightarrow> certificates \<Rightarrow> bytes \<Rightarrow> goerr + mysql_config" where
  "MySQLConfig parse cs raw = (let refused = Inl (OtherError ''MySQL DATABASE_URL requires mysql:// credentials/host/database'') in
     case parse raw of
       None \<Rightarrow> refused
     | Some u \<Rightarrow> (case url_User u of
           None \<Rightarrow> refused
         | Some user \<Rightarrow>
             if url_Scheme u \<noteq> ''mysql'' \<or> url_Hostname u = [] then refused
             else let database = TrimPrefix (url_Path u) ''/'' in
               if database = [] \<or> CHR 0x2F \<in> set database then Inl (OtherError ''invalid MySQL database name'')
               else and_then (mysql_tls cs u) (\<lambda>tls. Inr
                 \<lparr>mc_User = user, mc_Passwd = url_Password u, mc_Net = ''tcp'',
                  mc_Addr = JoinHostPort (url_Hostname u) (if url_Port u = [] then ''3306'' else url_Port u),
                  mc_DBName = database, mc_ParseTime = True, mc_Timeout = 3000, mc_ReadTimeout = 10000,
                  mc_WriteTimeout = 10000, mc_Collation = ''utf8mb4_bin'',
                  mc_TimeZone = [CHR 0x27] @ ''+00:00'' @ [CHR 0x27], mc_TLS = tls\<rparr>)))"

text \<open>What is opened: \<open>reach\<close> opens the pool and pings the server.\<close>

datatype engine = PostgreSQL bytes | MySQL mysql_config

definition ConnectProvider :: "(bytes \<Rightarrow> full_url option) \<Rightarrow> certificates \<Rightarrow> (engine \<Rightarrow> goerr option) \<Rightarrow> bytes \<Rightarrow> bytes \<Rightarrow>
    goerr + engine" where
  "ConnectProvider parse cs reach provider raw =
     and_then (if provider = [] \<or> provider = ''postgresql'' then Inr (PostgreSQL raw)
       else if provider \<noteq> ''mysql'' then Inl (OtherError ''DB_PROVIDER must be postgresql or mysql'')
       else and_then (MySQLConfig parse cs raw) (\<lambda>c. Inr (MySQL c))) (\<lambda>x.
     case reach x of Some y \<Rightarrow> Inl y | None \<Rightarrow> Inr x)"

subsection \<open>Migrations\<close>

text \<open>The session's time zone is set in the URL, unless the URL sets it.\<close>

definition with_timezone :: "bytes \<Rightarrow> bytes" where
  "with_timezone url = (if Contains url ''timezone='' then url
     else url @ (if Contains url ''?'' then ''&'' else ''?'') @ ''timezone=UTC'')"

text \<open>The engine, and the revision to go to, if one is named; the tool applies what is missing.\<close>

definition migration :: "(bytes \<Rightarrow> full_url option) \<Rightarrow> certificates \<Rightarrow> bytes \<Rightarrow> bytes \<Rightarrow> int \<Rightarrow> goerr + engine \<times> int option" where
  "migration parse cs provider url version = (let target = (if version > 0 then Some version else None) in
     if provider = ''mysql'' then and_then (MySQLConfig parse cs url) (\<lambda>c. Inr (MySQL c, target))
     else if provider \<noteq> [] \<and> provider \<noteq> ''postgresql'' then Inl (OtherError ''invalid DB_PROVIDER'')
     else Inr (PostgreSQL (with_timezone url), target))"

definition MigrateProvider :: "(bytes \<Rightarrow> full_url option) \<Rightarrow> certificates \<Rightarrow> (engine \<Rightarrow> int option \<Rightarrow> goerr option) \<Rightarrow>
    bytes \<Rightarrow> bytes \<Rightarrow> int \<Rightarrow> goerr + unit" where
  "MigrateProvider parse cs goose provider url version =
     and_then (migration parse cs provider url version) (\<lambda>(x, target).
     case goose x target of Some y \<Rightarrow> Inl y | None \<Rightarrow> Inr ())"

text \<open>\<open>cmd/migrate\<close>, after the environment file.\<close>

definition migrate_command :: "(bytes \<Rightarrow> full_url option) \<Rightarrow> certificates \<Rightarrow> (engine \<Rightarrow> int option \<Rightarrow> goerr option) \<Rightarrow>
    environ \<Rightarrow> int \<Rightarrow> goerr + unit" where
  "migrate_command parse cs goose g version =
     and_then (demand (\<not> version < 0) ''to-version must not be negative'') (\<lambda>_.
     and_then (demand (getenv g ''DATABASE_URL'' [] \<noteq> []) ''DATABASE_URL is required'') (\<lambda>_.
     MigrateProvider parse cs goose (getenv g ''DB_PROVIDER'' []) (getenv g ''DATABASE_URL'' []) version))"

subsection \<open>The time zone is set once\<close>

lemma Contains_appended: "Contains s p \<Longrightarrow> Contains (a @ s) p"
  by (auto simp: Contains_iff) (metis append.assoc)

lemma with_timezone_set: "Contains (with_timezone url) ''timezone=''"
proof -
  have "Contains ''timezone=UTC'' ''timezone=''" by code_simp
  then have "Contains (url @ sep @ ''timezone=UTC'') ''timezone=''" for sep
    using Contains_appended [of "''timezone=UTC''" "''timezone=''" "url @ sep"] by simp
  then show ?thesis by (simp add: with_timezone_def)
qed

lemma with_timezone_once: "with_timezone (with_timezone url) = with_timezone url"
  using with_timezone_set by (simp add: with_timezone_def)

subsection \<open>A configuration that loads can be connected\<close>

lemma check_database_url:
  assumes "check_database ps c = Inr u"
  shows "\<exists>x. parse_url ps (cf_DatabaseURL c) = Some x
    \<and> (cf_DatabaseProvider c = ''mysql'' \<longrightarrow> url_Scheme x = ''mysql'')
    \<and> (\<exists>n. url_User x = Some n \<and> sql_identifier n) \<and> sql_identifier (TrimPrefix (url_Path x) ''/'')"
  using assms
  by (auto simp: check_database_def demand_def and_then_def Let_def sql_identifier_def split: option.splits if_splits)

lemma identifier_no_slash: "sql_identifier s \<Longrightarrow> s \<noteq> [] \<and> CHR 0x2F \<notin> set s"
  by (auto simp: sql_identifier_def list_all_iff letter_def between_def digit_def byte_def)

text \<open>Once \<open>Load\<close> has accepted the URL, \<open>MySQLConfig\<close> can object to the host and to the TLS settings only.\<close>

lemma MySQLConfig_of_loaded:
  assumes "check_database ps c = Inr x" and "cf_DatabaseProvider c = ''mysql''"
    and "parse_url ps (cf_DatabaseURL c) = map_option url.truncate (parse (cf_DatabaseURL c))"
    and "parse (cf_DatabaseURL c) = Some u" and "url_Hostname u \<noteq> []" and "mysql_tls cs u = Inr tls"
  shows "\<exists>m. MySQLConfig parse cs (cf_DatabaseURL c) = Inr m \<and> sql_identifier (mc_User m) \<and> sql_identifier (mc_DBName m)
    \<and> mc_TLS m = tls"
proof -
  from check_database_url [OF assms(1)] assms(2-4) obtain n where "url_Scheme u = ''mysql''" "url_User u = Some n"
    "sql_identifier n" "sql_identifier (TrimPrefix (url_Path u) ''/'')"
    by (auto simp: url.truncate_def)
  with assms(4-6) identifier_no_slash show ?thesis by (auto simp: MySQLConfig_def Let_def and_then_def)
qed

end
