(* ===== verification/Seed.thy ===== *)
theory Seed
  imports Config SystemInvariant
begin

text \<open>
  \<open>cmd/seed\<close>: the roles and permissions of the system, the grants of the administrator's role and
  the two accounts of the environment.  Every statement runs by itself, and \<open>log.Fatal\<close> ends the
  command at the first error, with what was written before it.  Connecting is I/O.
\<close>

definition seed_roles :: "bytes list" where
  "seed_roles = [''admin'', ''user'']"

definition seed_permissions :: "bytes list" where
  "seed_permissions = [''manage_users'', ''manage_roles'', ''manage_permissions'', ''manage_uploads'', ''manage_notifications'']"

text \<open>One account: an e-mail address, a password and the name of its role.\<close>

definition seed_account :: "environ \<Rightarrow> bytes \<Rightarrow> bytes \<Rightarrow> bytes \<Rightarrow> unit op" where
  "seed_account g email password role =
     (if email = [] \<or> password = [] then returnE ()
      else if length password < 6 then failE (OtherError ''bootstrap password must contain at least six characters'')
      else if getenv g ''NODE_ENV'' [] = ''production'' \<and> (length password < 12 \<or> Contains (ToLower password) ''replace'')
      then failE (OtherError ''bootstrap passwords must be generated values of at least 12 characters in production'')
      else bindE (bcrypt_Generate password) (\<lambda>hash. Q (SeedUser (TrimSpace email) hash role)))"

definition seed :: "environ \<Rightarrow> unit op" where
  "seed g =
     (if getenv g ''DATABASE_URL'' [] = [] then failE (OtherError ''DATABASE_URL is required'')
      else bindE (forE seed_roles (\<lambda>name. Q (SeedRole name))) (\<lambda>_.
       bindE (forE seed_permissions (\<lambda>name. Q (SeedPermission name))) (\<lambda>_.
       bindE (Q SeedAdminPermissions) (\<lambda>_.
       bindE (seed_account g (getenv g ''ADMIN_EMAIL'' []) (getenv g ''ADMIN_PASSWORD'' []) ''admin'') (\<lambda>_.
       seed_account g (getenv g ''USER_EMAIL'' []) (getenv g ''USER_PASSWORD'' []) ''user'')))))"

subsection \<open>The invariants\<close>

definition invariants :: "env \<Rightarrow> database \<Rightarrow> bool" where
  "invariants e d \<longleftrightarrow> sound e d \<and> sess_sound e d"

text \<open>A statement that adds rows with new ids only.\<close>

definition row_ids :: "database \<Rightarrow> bytes set" where
  "row_ids d = r_id ` set (roles d) \<union> p_id ` set (permissions d) \<union> u_id ` set (users d)"

lemma keeps_invariants:
  assumes wf: "evolves (keeps wf_db) e (stmt f)" and sessions: "evolves (fixed session_view) e (stmt f)"
    and new: "\<And>now n d a d'. f e now (gen_uuid e n) d = Inr (a, d') \<Longrightarrow> row_ids d' \<subseteq> insert (gen_uuid e n) (row_ids d)"
  shows "evolves (keeps (invariants e)) e (stmt f)"
proof -
  have "invariants e (db w')" if inv: "invariants e (db w)" and run: "stmt f e w = (r, w')" for w r w'
  proof (cases r)
    case (Inl x)
    then show ?thesis using run stmt_Inl_db inv by fastforce
  next
    case (Inr a)
    from run Inr obtain d where d: "f e (txnow w) (gen_uuid e (tick w)) (db w) = Inr (a, d)" "db w' = d"
      by (auto simp: run_simps)
    have ids: "row_ids (db w') \<subseteq> insert (gen_uuid e (tick w)) (row_ids (db w))"
      using new [OF d(1)] d(2) by simp
    have "wf_db (db w')" using keeps_run [OF wf run] inv by (simp add: invariants_def sound_def)
    moreover have "session_view (db w') = session_view (db w)"
      using evolvesD [OF sessions run] by (simp add: fixed_def)
    moreover have "uuid_in e (gen_uuid e (tick w)) = Some (gen_uuid e (tick w))"
      using inv by (simp add: invariants_def sound_def uuid_laws_def)
    ultimately show ?thesis
      using inv ids unfolding invariants_def sound_def sess_sound_def canonical_ids_def canonical_sessions_def
        user_ids_def row_ids_def sessions_ok_def session_view_def by auto
  qed
  then show ?thesis by (auto simp: evolves_def keeps_def) (metis prod.collapse)
qed

lemma seed_statements:
  "evolves (keeps (invariants e)) e (SeedRole n)" "evolves (keeps (invariants e)) e (SeedPermission n)"
  "evolves (keeps (invariants e)) e SeedAdminPermissions" "evolves (keeps (invariants e)) e (SeedUser m p r)"
  subgoal unfolding SeedRole_def
    by (rule keeps_invariants) (auto simp: SeedRole_def [symmetric] row_ids_def run_simps split: if_splits intro: writes frames)
  subgoal unfolding SeedPermission_def
    by (rule keeps_invariants) (auto simp: SeedPermission_def [symmetric] row_ids_def run_simps split: if_splits intro: writes frames)
  subgoal unfolding SeedAdminPermissions_def
    by (rule keeps_invariants) (auto simp: SeedAdminPermissions_def [symmetric] row_ids_def run_simps intro: writes frames)
  subgoal unfolding SeedUser_def
    by (rule keeps_invariants)
      (auto simp: SeedUser_def [symmetric] row_ids_def run_simps set_update_where split: if_splits option.splits intro: writes frames)
  done

lemma seed_invariants: "evolves (keeps (invariants e)) e (seed g)"
  unfolding seed_def seed_account_def by (intro keeps.ev_rules seed_statements)

subsection \<open>What is there after a successful run\<close>

definition grows :: "database \<Rightarrow> database \<Rightarrow> bool" where
  "grows d d' \<longleftrightarrow> set (roles d) \<subseteq> set (roles d') \<and> set (permissions d) \<subseteq> set (permissions d')
     \<and> set (role_permissions d) \<subseteq> set (role_permissions d')"

interpretation grows: evolution grows
  by unfold_locales (auto simp: grows_def)

lemma seed_grows:
  "evolves grows e (SeedRole n)" "evolves grows e (SeedPermission n)" "evolves grows e SeedAdminPermissions"
  "evolves grows e (SeedUser m p r)"
  unfolding SeedRole_def SeedPermission_def SeedAdminPermissions_def SeedUser_def
  by (rule grows.ev_stmt, auto simp: grows_def split: if_splits option.splits)+

lemma seed_loop_names:
  assumes "forE names (\<lambda>n. Q (st n)) e w = (Inr u, w')" and "\<And>n. evolves grows e (st n)"
    and "\<And>n v v' u. st n e v = (Inr u, v') \<Longrightarrow> P n (db v')"
    and "\<And>n d d'. P n d \<Longrightarrow> grows d d' \<Longrightarrow> P n d'"
  shows "\<forall>n \<in> set names. P n (db w')"
  using assms(1)
proof (induction names arbitrary: w)
  case (Cons n names)
  then obtain v where run: "Q (st n) e w = (Inr (), v)" and rest: "forE names (\<lambda>n. Q (st n)) e v = (Inr u, w')"
    by (auto simp: run_bindE_Inr)
  from run have "P n (db v)" using assms(3) [of n "w\<lparr>txnow := db_now e (tick w)\<rparr>"] by (simp add: Q_def)
  have "evolves grows e (forE names (\<lambda>n. Q (st n)))" by (intro grows.ev_rules assms(2))
  then have "grows (db v) (db w')" using rest by (rule evolvesD)
  with \<open>P n (db v)\<close> have "P n (db w')" using assms(4) by blast
  with Cons.IH [OF rest] show ?case by simp
qed simp

lemma SeedRole_there: "SeedRole n e v = (Inr u, v') \<Longrightarrow> n \<in> r_name ` set (roles (db v'))"
  by (auto simp: SeedRole_def run_simps split: if_splits)

lemma SeedPermission_there: "SeedPermission n e v = (Inr u, v') \<Longrightarrow> n \<in> p_name ` set (permissions (db v'))"
  by (auto simp: SeedPermission_def run_simps split: if_splits)

definition admin_complete :: "database \<Rightarrow> bool" where
  "admin_complete d \<longleftrightarrow> (\<forall>r \<in> set (roles d). \<forall>p \<in> set (permissions d). r_name r = ''admin'' \<longrightarrow>
     \<lparr>rp_role_id = r_id r, rp_permission_id = p_id p\<rparr> \<in> set (role_permissions d))"

lemma SeedAdminPermissions_complete: "SeedAdminPermissions e v = (Inr u, v') \<Longrightarrow> admin_complete (db v')"
  by (auto simp: SeedAdminPermissions_def run_simps admin_complete_def admin_grants_def)

text \<open>What an account keeps and changes.\<close>

lemma SeedUser_account:
  assumes "SeedUser m hash role e v = (Inr u, v')"
  shows "roles (db v') = roles (db v) \<and> permissions (db v') = permissions (db v)
    \<and> role_permissions (db v') = role_permissions (db v)
    \<and> (\<forall>x \<in> set (users (db v)). u_email x \<noteq> ToLower m \<longrightarrow> x \<in> set (users (db v')))
    \<and> (role \<in> r_name ` set (roles (db v)) \<longrightarrow> (\<exists>x \<in> set (users (db v')). u_email x = ToLower m
        \<and> u_deleted_at x = None \<and> (\<exists>r \<in> set (roles (db v)). r_name r = role \<and> u_role_id x = r_id r)))"
proof -
  from assms obtain d where d: "db v' = d" and sql: "(case select_one (\<lambda>r. r_name r = role) (roles (db v)) of
       None \<Rightarrow> Inr ((), db v)
     | Some r \<Rightarrow>
         if ToLower m \<in> u_email ` set (users (db v))
         then Inr ((), (db v)\<lparr>users := update_where (\<lambda>u. u_email u = ToLower m)
                (\<lambda>u. u\<lparr>u_role_id := r_id r, u_deleted_at := None, u_updated_at := txnow v\<rparr>) (users (db v))\<rparr>)
         else if gen_uuid e (tick v) \<in> u_id ` set (users (db v)) then Inl unique_violation
         else Inr ((), (db v)\<lparr>users := users (db v) @ [\<lparr>u_id = gen_uuid e (tick v), u_email = ToLower m, u_password = hash,
                u_role_id = r_id r, u_deleted_at = None, u_created_at = txnow v, u_updated_at = txnow v\<rparr>]\<rparr>)) = Inr ((), d)"
    by (auto simp: SeedUser_def run_stmt_Inr)
  show ?thesis
  proof (cases "select_one (\<lambda>r. r_name r = role) (roles (db v))")
    case None
    then have "db v' = db v" using sql d by simp
    moreover have "role \<notin> r_name ` set (roles (db v))" using None by (auto simp: select_one_None)
    ultimately show ?thesis by simp
  next
    case (Some r)
    then have r: "r \<in> set (roles (db v))" "r_name r = role" using select_one_Some by fastforce+
    show ?thesis
    proof (cases "ToLower m \<in> u_email ` set (users (db v))")
      case True
      then obtain x where x: "x \<in> set (users (db v))" "u_email x = ToLower m" by auto
      let ?f = "\<lambda>u. u\<lparr>u_role_id := r_id r, u_deleted_at := None, u_updated_at := txnow v\<rparr>"
      have after: "db v' = (db v)\<lparr>users := update_where (\<lambda>u. u_email u = ToLower m) ?f (users (db v))\<rparr>"
        using sql Some True d by simp
      then have "y \<in> set (users (db v'))" if "y \<in> set (users (db v))" "u_email y \<noteq> ToLower m" for y
        using that by (simp add: set_update_where) metis
      moreover have "?f x \<in> set (users (db v'))" using after x by (simp add: set_update_where) metis
      ultimately show ?thesis using after r x(2) by (intro conjI impI bexI [of _ "?f x"]) auto
    next
      case False
      then have "db v' = (db v)\<lparr>users := users (db v) @ [\<lparr>u_id = gen_uuid e (tick v), u_email = ToLower m, u_password = hash,
          u_role_id = r_id r, u_deleted_at = None, u_created_at = txnow v, u_updated_at = txnow v\<rparr>]\<rparr>"
        using sql Some d by (simp split: if_splits)
      then show ?thesis using r by auto
    qed
  qed
qed

text \<open>An account of the environment is there, active, with its role; other accounts stay.\<close>

lemma seed_account_run:
  assumes "seed_account g email password role e v = (Inr u, v')"
  shows "roles (db v') = roles (db v) \<and> permissions (db v') = permissions (db v)
    \<and> role_permissions (db v') = role_permissions (db v)
    \<and> (\<forall>x \<in> set (users (db v)). u_email x \<noteq> ToLower (TrimSpace email) \<longrightarrow> x \<in> set (users (db v')))
    \<and> (email \<noteq> [] \<and> password \<noteq> [] \<and> role \<in> r_name ` set (roles (db v)) \<longrightarrow> (\<exists>x \<in> set (users (db v')).
        u_email x = ToLower (TrimSpace email) \<and> u_deleted_at x = None
        \<and> (\<exists>r \<in> set (roles (db v)). r_name r = role \<and> u_role_id x = r_id r)))"
proof (cases "email = [] \<or> password = []")
  case True
  then show ?thesis using assms by (auto simp: seed_account_def run_simps)
next
  case False
  then obtain h v1 where "SeedUser (TrimSpace email) h role e v1 = (Inr u, v')" "db v1 = db v"
    using assms by (auto simp: seed_account_def run_simps split: if_splits)
  from SeedUser_account [OF this(1)] this(2) show ?thesis by simp
qed

lemma seed_run:
  assumes run: "seed g e w = (Inr u, w')"
    and given: "getenv g ''ADMIN_EMAIL'' [] \<noteq> []" "getenv g ''ADMIN_PASSWORD'' [] \<noteq> []"
    and other: "ToLower (TrimSpace (getenv g ''USER_EMAIL'' [])) \<noteq> ToLower (TrimSpace (getenv g ''ADMIN_EMAIL'' []))"
  shows "\<exists>x \<in> set (users (db w')). u_email x = ToLower (TrimSpace (getenv g ''ADMIN_EMAIL'' [])) \<and> u_deleted_at x = None
    \<and> (\<forall>name \<in> set SystemPermissions. holds_permission (db w') x name)"
proof -
  from run obtain w1 w2 w3 w4 where
    r: "forE seed_roles (\<lambda>name. Q (SeedRole name)) e w = (Inr (), w1)" and
    p: "forE seed_permissions (\<lambda>name. Q (SeedPermission name)) e w1 = (Inr (), w2)" and
    a: "Q SeedAdminPermissions e w2 = (Inr (), w3)" and
    admin: "seed_account g (getenv g ''ADMIN_EMAIL'' []) (getenv g ''ADMIN_PASSWORD'' []) ''admin'' e w3 = (Inr (), w4)" and
    plain: "seed_account g (getenv g ''USER_EMAIL'' []) (getenv g ''USER_PASSWORD'' []) ''user'' e w4 = (Inr u, w')"
    by (auto simp: seed_def run_bindE_Inr run_failE split: if_splits)
  have "evolves grows e (Q SeedAdminPermissions)" "evolves grows e (forE seed_permissions (\<lambda>name. Q (SeedPermission name)))"
    by (intro grows.ev_rules seed_grows)+
  then have rest: "grows (db w2) (db w3)" "grows (db w1) (db w2)" using a p evolvesD by blast+
  have "\<forall>n \<in> set seed_roles. n \<in> r_name ` set (roles (db w1))"
    by (rule seed_loop_names [where st = SeedRole, OF r seed_grows(1)]) (auto simp: grows_def dest: SeedRole_there)
  then have role: "''admin'' \<in> r_name ` set (roles (db w3))"
    using rest by (auto simp: seed_roles_def grows_def)
  have "\<forall>n \<in> set seed_permissions. n \<in> p_name ` set (permissions (db w2))"
    by (rule seed_loop_names [where st = SeedPermission, OF p seed_grows(2)]) (auto simp: grows_def dest: SeedPermission_there)
  then have perms: "set SystemPermissions \<subseteq> p_name ` set (permissions (db w3))"
    using rest by (fastforce simp: seed_permissions_def SystemPermissions_def grows_def)
  have complete: "admin_complete (db w3)" using a SeedAdminPermissions_complete by (auto simp: Q_def)
  note adm = seed_account_run [OF admin] and pl = seed_account_run [OF plain]
  from adm given role obtain x r where x: "x \<in> set (users (db w4))" "u_email x = ToLower (TrimSpace (getenv g ''ADMIN_EMAIL'' []))"
    "u_deleted_at x = None" and r: "r \<in> set (roles (db w3))" "r_name r = ''admin''" "u_role_id x = r_id r" by blast
  have "x \<in> set (users (db w'))" using pl x(1,2) other by metis
  moreover have "holds_permission (db w') x name" if "name \<in> set SystemPermissions" for name
  proof -
    from that perms obtain q where q: "q \<in> set (permissions (db w3))" "p_name q = name" by auto
    then have "\<lparr>rp_role_id = r_id r, rp_permission_id = p_id q\<rparr> \<in> set (role_permissions (db w3))"
      using complete r by (simp add: admin_complete_def)
    then show ?thesis using q r(3) adm pl unfolding holds_permission_def by (metis role_permission_row.select_convs(1,2))
  qed
  ultimately show ?thesis using x by blast
qed

text \<open>C39. Seeding makes the system governable, and it stays so.  After a successful run of \<open>seed\<close> the
  account of \<open>ADMIN_EMAIL\<close> is active and its role holds every system permission, provided
  \<open>USER_EMAIL\<close> is another address; the invariants of the access rules and of the sessions hold if
  they held before, as they do in an empty database; and whatever the services, the workers and the
  cleanup do afterwards, every system permission is held by an active user.\<close>

theorem seeded_system_governable:
  assumes "invariants e (db w)" and "seed g e w = (Inr u, w')"
    and "getenv g ''ADMIN_EMAIL'' [] \<noteq> []" and "getenv g ''ADMIN_PASSWORD'' [] \<noteq> []"
    and "ToLower (TrimSpace (getenv g ''USER_EMAIL'' [])) \<noteq> ToLower (TrimSpace (getenv g ''ADMIN_EMAIL'' []))"
    and "system_run e c w' v"
  shows "(\<exists>x \<in> set (users (db w')). u_email x = ToLower (TrimSpace (getenv g ''ADMIN_EMAIL'' [])) \<and> u_deleted_at x = None
      \<and> (\<forall>name \<in> set SystemPermissions. holds_permission (db w') x name))
    \<and> invariants e (db v)
    \<and> (\<forall>name \<in> set SystemPermissions. \<exists>x \<in> set (users (db v)). u_deleted_at x = None \<and> holds_permission (db v) x name)"
proof -
  note account = seed_run [OF assms(2-5)]
  have inv: "invariants e (db w')" using keeps_run [OF seed_invariants assms(2)] assms(1) by blast
  note step = system_run_step [OF assms(6)]
  have "invariants e (db v)" using inv step by (simp add: invariants_def system_step_def rbac_step_def sess_step_def)
  moreover have "still_held (db w') (db v)" using inv step by (simp add: invariants_def system_step_def rbac_step_def)
  ultimately show ?thesis using account holders_exist unfolding still_held_def by blast
qed

text \<open>A new installation: an empty database, one administrator, and a request after it.\<close>

definition seed_environ :: environ where
  "seed_environ = (\<lambda>_. None)(''DATABASE_URL'' := Some ''postgresql://db/app'', ''ADMIN_EMAIL'' := Some '' Root@example.com'',
     ''ADMIN_PASSWORD'' := Some ''secret1'')"

definition new_world :: world where
  "new_world = \<lparr>db = empty_db, tick = 0, txnow = 0\<rparr>"

definition seeded_world :: world where
  "seeded_world = snd (seed seed_environ sample_env new_world)"

lemma empty_invariants: "uuid_laws e \<Longrightarrow> invariants e empty_db"
  using wf_empty_db by (simp add: invariants_def sound_def sess_sound_def canonical_ids_def canonical_sessions_def
      user_ids_def sessions_ok_def empty_db_def)

theorem seeded_system_governable_witness:
  "(\<exists>x \<in> set (users (db seeded_world)). u_email x = ''root@example.com'' \<and> u_deleted_at x = None)
   \<and> (\<exists>x \<in> set (users (db seeded_world)). u_deleted_at x = None \<and> holds_permission (db seeded_world) x ''manage_roles'')"
proof -
  have "case seed seed_environ sample_env new_world of (Inl x, w') \<Rightarrow> False | (Inr u, w') \<Rightarrow> True" by code_simp
  then have run: "seed seed_environ sample_env new_world = (Inr (), seeded_world)"
    by (auto simp: seeded_world_def split: prod.splits sum.splits)
  have inv: "invariants sample_env (db new_world)"
    using empty_invariants sample_sound by (simp add: new_world_def sound_def)
  have mails: "getenv seed_environ ''ADMIN_EMAIL'' [] = '' Root@example.com''" "getenv seed_environ ''USER_EMAIL'' [] = []"
    "getenv seed_environ ''ADMIN_PASSWORD'' [] = ''secret1''"
    by (simp_all add: getenv_def seed_environ_def)
  have lower: "ToLower (TrimSpace '' Root@example.com'') = ''root@example.com''" "ToLower (TrimSpace []) = []" by code_simp+
  from seeded_system_governable [OF inv run _ _ _ system_run.start] show ?thesis
    unfolding mails lower by (auto simp: SystemPermissions_def)
qed

end
