(* ===== verification/Streaming.thy ===== *)
theory Streaming
  imports OutboxProperties
begin

text \<open>
  The event stream of \<open>internal/httpapi/notifications.go\<close>: the loop that sends what is new.  The
  connection is a parameter: \<open>co_write n\<close> says whether the \<open>n\<close>-th write reaches the client and
  \<open>co_beat n\<close> whether a heartbeat is due after it.  The loop of \<open>poll\<close> takes fuel, and the lemmas show
  how much is enough.
\<close>

datatype chunk = Event item | Heartbeat

record connection =
  co_write :: "nat \<Rightarrow> bool"
  co_beat :: "nat \<Rightarrow> bool"

text \<open>The variables of the stream, the number of writes and what has been sent.\<close>

record stream =
  sm_sequence :: int
  sm_has :: bool
  sm_unreadOnly :: bool
  sm_writes :: nat
  sm_sent :: "chunk list"

definition write_chunk :: "connection \<Rightarrow> chunk \<Rightarrow> stream \<Rightarrow> bool \<times> stream" where
  "write_chunk co c s = (if co_write co (sm_writes s)
     then (True, s\<lparr>sm_writes := Suc (sm_writes s), sm_sent := sm_sent s @ [c]\<rparr>)
     else (False, s\<lparr>sm_writes := Suc (sm_writes s)\<rparr>))"

text \<open>The loop over the values of one page.\<close>

fun send_values :: "connection \<Rightarrow> stream_item list \<Rightarrow> stream \<Rightarrow> bool \<times> stream" where
  "send_values co [] s = (True, s)"
| "send_values co (v # vs) s = (case write_chunk co (Event (si_Item v)) s of
     (False, s1) \<Rightarrow> (False, s1)
   | (True, s1) \<Rightarrow> (let s2 = s1\<lparr>sm_sequence := si_Sequence v, sm_has := True\<rparr> in
       if co_beat co (sm_writes s2) then (case write_chunk co Heartbeat s2 of
           (False, s3) \<Rightarrow> (False, s3) | (True, s3) \<Rightarrow> send_values co vs s3)
       else send_values co vs s2))"

fun poll :: "nat \<Rightarrow> connection \<Rightarrow> bytes \<Rightarrow> stream \<Rightarrow> (bool \<times> stream) option op" where
  "poll 0 co recipient s = returnE None"
| "poll (Suc fuel) co recipient s =
     bindE (attempt (Backlog recipient (sm_sequence s) (sm_has s) (sm_unreadOnly s))) (\<lambda>r. case r of
       Inl x \<Rightarrow> returnE (Some (False, s))
     | Inr (values, active) \<Rightarrow>
         if \<not> active then returnE (Some (False, s))
         else (case send_values co values s of
             (False, s') \<Rightarrow> returnE (Some (False, s'))
           | (True, s') \<Rightarrow> if length values < 50 then returnE (Some (True, s')) else poll fuel co recipient s'))"

text \<open>How a stream opens: a client that reconnects names the last event it saw, and a fresh one is
  sent what is unread.\<close>

definition open_stream :: "bytes \<Rightarrow> bytes \<Rightarrow> stream op" where
  "open_stream recipient lastEventID = bindE (Cursor recipient lastEventID) (\<lambda>(sequence, has).
     returnE \<lparr>sm_sequence = sequence, sm_has = has, sm_unreadOnly = (\<not> has), sm_writes = 0, sm_sent = []\<rparr>)"

text \<open>What the stream waits for after its first poll, and what it does then; \<open>False\<close> ends it.  Requests of
  others run between the signals.\<close>

datatype signal = Done | Tick | Beat

definition stream_step :: "nat \<Rightarrow> connection \<Rightarrow> bytes \<Rightarrow> signal \<Rightarrow> stream \<Rightarrow> (bool \<times> stream) option op" where
  "stream_step fuel co recipient sig s = (case sig of
     Done \<Rightarrow> returnE (Some (False, s))
   | Tick \<Rightarrow> poll fuel co recipient s
   | Beat \<Rightarrow> returnE (Some (write_chunk co Heartbeat s)))"

subsection \<open>What is due\<close>

definition events :: "chunk list \<Rightarrow> item list" where
  "events cs = concat (map (\<lambda>c. case c of Event x \<Rightarrow> [x] | Heartbeat \<Rightarrow> []) cs)"

text \<open>The rows a stream has still to send, oldest first, without the limit of a page.\<close>

definition due :: "database \<Rightarrow> bytes \<Rightarrow> stream \<Rightarrow> notification_row list" where
  "due d i s = sort_key n_sequence (filter (\<lambda>n. n_recipient_id n = i
     \<and> ((sm_has s \<and> n_sequence n > sm_sequence s) \<or> (\<not> sm_has s \<and> n_read_at n = None))
     \<and> (\<not> sm_unreadOnly s \<or> n_read_at n = None)) (notifications d))"

lemma backlog_due: "backlog_rows d i (sm_has s) (sm_sequence s) (sm_unreadOnly s) = take 50 (due d i s)"
  by (simp add: backlog_rows_def due_def)

lemma events_append [simp]: "events (a @ b) = events a @ events b"
  by (simp add: events_def)

lemma events_simps [simp]: "events [] = []" "events (Event x # cs) = x # events cs" "events (Heartbeat # cs) = events cs"
  by (simp_all add: events_def)

text \<open>Some of the values are sent, in order, and all of them if no write fails; the cursor is the last one sent.\<close>

definition sent_some :: "stream_item list \<Rightarrow> nat \<Rightarrow> stream \<Rightarrow> stream \<Rightarrow> bool" where
  "sent_some vs k s s' \<longleftrightarrow> k \<le> length vs \<and> events (sm_sent s') = events (sm_sent s) @ map si_Item (take k vs)
     \<and> sm_unreadOnly s' = sm_unreadOnly s
     \<and> (if k = 0 then sm_sequence s' = sm_sequence s \<and> sm_has s' = sm_has s
        else sm_sequence s' = si_Sequence (vs ! (k - 1)) \<and> sm_has s')"

lemma write_chunk_fields:
  "write_chunk co c s = (b, s') \<Longrightarrow> sm_sequence s' = sm_sequence s \<and> sm_has s' = sm_has s \<and> sm_unreadOnly s' = sm_unreadOnly s
    \<and> sm_sent s' = (if b then sm_sent s @ [c] else sm_sent s)"
  by (auto simp: write_chunk_def split: if_splits)

lemma sent_some_Cons:
  assumes "sent_some vs k s2 s'" "events (sm_sent s2) = events (sm_sent s) @ [si_Item v]"
    "sm_sequence s2 = si_Sequence v" "sm_has s2" "sm_unreadOnly s2 = sm_unreadOnly s"
  shows "sent_some (v # vs) (Suc k) s s'"
  using assms by (cases k) (auto simp: sent_some_def)

lemma send_values_some:
  "send_values co vs s = (b, s') \<Longrightarrow> \<exists>k. sent_some vs k s s' \<and> (b \<longrightarrow> k = length vs)"
proof (induction co vs s arbitrary: b s' rule: send_values.induct)
  case (1 co s)
  then show ?case by (auto simp: sent_some_def)
next
  case (2 co v vs s)
  obtain b1 s1 where w1: "write_chunk co (Event (si_Item v)) s = (b1, s1)" by fastforce
  note f1 = write_chunk_fields [OF w1]
  let ?s2 = "s1\<lparr>sm_sequence := si_Sequence v, sm_has := True\<rparr>"
  show ?case
  proof (cases b1)
    case False
    then show ?thesis using 2(3) w1 f1 by (intro exI [of _ 0]) (auto simp: sent_some_def)
  next
    case True
    then have b1: "(True, s1) = write_chunk co (Event (si_Item v)) s" using w1 by simp
    show ?thesis
    proof (cases "co_beat co (sm_writes ?s2)")
      case False
      have "send_values co vs ?s2 = (b, s')" using 2(3) b1 [symmetric] False by (simp add: Let_def)
      from 2(2) [OF b1 refl refl False this] obtain k where "sent_some vs k ?s2 s'" "b \<longrightarrow> k = length vs" by blast
      then show ?thesis using f1 \<open>b1\<close> by (intro exI [of _ "Suc k"]) (auto intro: sent_some_Cons)
    next
      case True
      note beat = True
      obtain b3 s3 where w3: "write_chunk co Heartbeat ?s2 = (b3, s3)" by fastforce
      note f3 = write_chunk_fields [OF w3]
      show ?thesis
      proof (cases b3)
        case False
        have "b = False" "s' = s3" using 2(3) b1 [symmetric] beat w3 False by (simp_all add: Let_def)
        then show ?thesis using f1 f3 \<open>b1\<close> False by (intro exI [of _ "Suc 0"]) (auto simp: sent_some_def)
      next
        case True
        then have w3t: "(True, s3) = write_chunk co Heartbeat ?s2" using w3 by simp
        then have "send_values co vs s3 = (b, s')" using 2(3) b1 [symmetric] beat w3t [symmetric] by (simp add: Let_def)
        from 2(1) [OF b1 refl refl beat w3t refl this]
        obtain k where "sent_some vs k s3 s'" "b \<longrightarrow> k = length vs" by blast
        then show ?thesis using f1 f3 \<open>b1\<close> \<open>b3\<close> by (intro exI [of _ "Suc k"]) (auto intro: sent_some_Cons)
      qed
    qed
  qed
qed

subsection \<open>A poll sends what is due\<close>

text \<open>A stream without a cursor is one that sends unread notifications only.\<close>

definition opened :: "stream \<Rightarrow> bool" where
  "opened s \<longleftrightarrow> sm_has s \<or> sm_unreadOnly s"

lemma filter_beyond:
  assumes "sorted_wrt (<) (map f xs)" "0 < k" "k \<le> length xs"
  shows "filter (\<lambda>x. f (xs ! (k - 1)) < (f x :: int)) xs = drop k xs"
proof -
  let ?P = "\<lambda>x. f (xs ! (k - 1)) < f x"
  have less: "f (xs ! a) < f (xs ! b)" if "a < b" "b < length xs" for a b
    using sorted_wrt_nth_less [OF assms(1), of a b] that by simp
  have "f x \<le> f (xs ! (k - 1))" if "x \<in> set (take k xs)" for x
  proof -
    obtain j where "x = xs ! j" "j < k" "j < length xs" using \<open>x \<in> set (take k xs)\<close> by (auto simp: in_set_conv_nth)
    then have "j = k - 1 \<or> j < k - 1" by linarith
    moreover have "k - 1 < length xs" using assms(2,3) by linarith
    ultimately show ?thesis using less [of j "k - 1"] \<open>x = xs ! j\<close> by auto
  qed
  then have "filter ?P (take k xs) = []" by (auto simp: filter_empty_conv not_less)
  moreover have "f (xs ! (k - 1)) < f x" if "x \<in> set (drop k xs)" for x
  proof -
    obtain j where "x = xs ! (k + j)" "k + j < length xs" using \<open>x \<in> set (drop k xs)\<close> by (auto simp: in_set_conv_nth)
    then show ?thesis using less [of "k - 1" "k + j"] assms(2) by simp
  qed
  then have "filter ?P (drop k xs) = drop k xs" by (simp add: filter_id_conv)
  ultimately show ?thesis by (metis append_take_drop_id filter_append append_Nil)
qed

lemma due_sorted:
  assumes "wf_db d"
  shows "sorted_wrt (<) (map n_sequence (due d i s))"
proof -
  let ?own = "filter (\<lambda>n. n_recipient_id n = i
     \<and> ((sm_has s \<and> n_sequence n > sm_sequence s) \<or> (\<not> sm_has s \<and> n_read_at n = None))
     \<and> (\<not> sm_unreadOnly s \<or> n_read_at n = None)) (notifications d)"
  have "distinct (map (\<lambda>n. (n_recipient_id n, n_sequence n)) (notifications d))"
    using assms by (simp add: wf_db_def wf_notifications_def)
  then have "distinct (map (\<lambda>n. (n_recipient_id n, n_sequence n)) ?own)" by (rule distinct_map_filter)
  moreover have "map (\<lambda>n. (n_recipient_id n, n_sequence n)) ?own = map (Pair i) (map n_sequence ?own)" by simp
  ultimately have "distinct (map (Pair i) (map n_sequence ?own))" by (simp only:)
  then have "distinct (map n_sequence ?own)" unfolding distinct_map by simp
  then have "distinct (map n_sequence (due d i s))" unfolding due_def distinct_map by simp
  then show ?thesis by (simp add: due_def strict_sorted_iff)
qed

lemma due_after:
  assumes "wf_db d" "opened s" and some: "sent_some (map stream_item_of (take 50 (due d i s))) k s s'"
  shows "due d i s' = drop k (due d i s)" and "opened s'"
proof -
  let ?due = "due d i s"
  have fields: "sm_unreadOnly s' = sm_unreadOnly s" and k: "k \<le> length (take 50 ?due)" using some by (simp_all add: sent_some_def)
  show "opened s'" using some assms(2) by (auto simp: sent_some_def opened_def split: if_splits)
  show "due d i s' = drop k ?due"
  proof (cases "k = 0")
    case True
    then show ?thesis using some by (simp add: sent_some_def due_def)
  next
    case False
    let ?last = "?due ! (k - 1)"
    have "k - 1 < length (take 50 ?due)" using k False by linarith
    then have seq: "sm_sequence s' = n_sequence ?last" "sm_has s'"
      using some False k by (simp_all add: sent_some_def stream_item_of_def nth_map)
    have "k - 1 < length ?due" using k False by simp linarith
    then have "?last \<in> set ?due" using False k by simp
    then have beyond: "sm_has s \<Longrightarrow> sm_sequence s < n_sequence ?last" by (simp add: due_def)
    define z where "z = n_sequence ?last"
    have "due d i s' = sort_key n_sequence (filter (\<lambda>n. z < n_sequence n) (filter (\<lambda>n. n_recipient_id n = i
     \<and> ((sm_has s \<and> n_sequence n > sm_sequence s) \<or> (\<not> sm_has s \<and> n_read_at n = None))
     \<and> (\<not> sm_unreadOnly s \<or> n_read_at n = None)) (notifications d)))"
      unfolding due_def filter_filter using beyond assms(2) seq fields unfolding z_def [symmetric]
      by (intro arg_cong [where f = "sort_key n_sequence"] filter_cong) (auto simp: opened_def)
    also have "\<dots> = filter (\<lambda>n. z < n_sequence n) ?due" by (simp add: due_def filter_sort)
    also have "\<dots> = drop k ?due"
      unfolding z_def by (rule filter_beyond [OF due_sorted [OF assms(1)]]) (use False k in simp_all)
    finally show ?thesis .
  qed
qed

lemma Backlog_cases:
  assumes "uuid_in e recipient = Some i" and "Backlog recipient seq has unread e w = (r, w')"
  shows "db w' = db w \<and> (case r of Inl x \<Rightarrow> True
    | Inr (vs, active) \<Rightarrow> active \<longrightarrow> vs = map stream_item_of (backlog_rows (db w) i has seq unread))"
proof -
  have "db w' = db w" using evolvesD [OF notification_reads(4) assms(2)] by simp
  moreover have "vs = map stream_item_of (backlog_rows (db w) i has seq unread)" if r: "r = Inr (vs, True)" for vs
  proof -
    obtain u w1 where find: "Q (FindActiveUserByID recipient) e w = (u, w1)" by fastforce
    with assms(2) r obtain y where "u = Inr y" "vs = map stream_item_of (backlog_rows (db w1) i has seq unread)"
      by (cases u) (auto simp: Backlog_def run_simps NotificationBacklog_def with_uuid_def assms(1) Q_def bindE_def attempt_def
          returnE_def failE_def stmt_def select_rows_def split: if_splits option.splits sum.splits prod.splits)
    have "evolves (=) e (Q (FindActiveUserByID recipient))" by (intro same.ev_rules reads)
    from evolvesD [OF this find] show ?thesis using \<open>vs = _\<close> by simp
  qed
  ultimately show ?thesis by (cases r) auto
qed

lemma open_stream_opened: "open_stream recipient ident e w = (Inr s, w') \<Longrightarrow> opened s \<and> events (sm_sent s) = []"
  by (auto simp: open_stream_def opened_def run_bindE_Inr returnE_def)

lemma poll_due:
  assumes "wf_db (db w)" and "opened s" and "uuid_in e recipient = Some i"
    and "length (due (db w) i s) div 50 < fuel"
  shows "\<exists>alive s' w' k. poll fuel co recipient s e w = (Inr (Some (alive, s')), w') \<and> db w' = db w
    \<and> opened s' \<and> events (sm_sent s') = events (sm_sent s) @ map project (take k (due (db w) i s))
    \<and> (alive \<longrightarrow> k = length (due (db w) i s) \<and> due (db w) i s' = [])"
  using assms
proof (induction fuel arbitrary: s w)
  case 0
  then show ?case by simp
next
  case (Suc fuel)
  let ?due = "due (db w) i s"
  obtain r w1 where run: "Backlog recipient (sm_sequence s) (sm_has s) (sm_unreadOnly s) e w = (r, w1)" by fastforce
  note b = Backlog_cases [OF Suc.prems(3) run]
  show ?case
  proof (cases "\<exists>vs. r = Inr (vs, True)")
    case False
    have "poll (Suc fuel) co recipient s e w = (Inr (Some (False, s)), w1)"
      using False run by (cases r) (auto simp: bindE_def attempt_def returnE_def)
    then show ?thesis using b Suc.prems(2) by (intro exI [of _ False] exI [of _ s] exI [of _ w1] exI [of _ 0]) simp
  next
    case True
    then have r: "r = Inr (map stream_item_of (take 50 ?due), True)" using b by (auto simp: backlog_due)
    let ?vs = "map stream_item_of (take 50 ?due)"
    obtain ok s1 where send: "send_values co ?vs s = (ok, s1)" by fastforce
    from send_values_some [OF send] obtain k where some: "sent_some ?vs k s s1" and all: "ok \<Longrightarrow> k = length ?vs" by blast
    have k: "k \<le> length (take 50 ?due)" using some by (simp add: sent_some_def)
    then have "min k 50 = k" by simp
    then have ev: "events (sm_sent s1) = events (sm_sent s) @ map project (take k ?due)"
      using some by (simp add: sent_some_def take_map stream_item_of_def comp_def)
    note after = due_after [OF Suc.prems(1,2) some]
    have step: "poll (Suc fuel) co recipient s e w = (if \<not> ok then (Inr (Some (False, s1)), w1)
        else if length ?due < 50 then (Inr (Some (True, s1)), w1) else poll fuel co recipient s1 e w1)"
      using run r send by (simp add: bindE_def attempt_def returnE_def min_def split: bool.splits)
    show ?thesis
    proof (cases "ok \<and> \<not> length ?due < 50")
      case False
      then show ?thesis using step b ev after all
        by (intro exI [of _ ok] exI [of _ s1] exI [of _ w1] exI [of _ k]) auto
    next
      case True
      then have "k = 50" "50 \<le> length ?due" using all by simp_all
      then have "length (drop 50 ?due) div 50 < fuel" using Suc.prems(4) by (simp add: le_div_geq)
      then obtain alive s' w' j where rec: "poll fuel co recipient s1 e w1 = (Inr (Some (alive, s')), w')" "db w' = db w" "opened s'"
        "events (sm_sent s') = events (sm_sent s1) @ map project (take j (drop 50 ?due))"
        "alive \<longrightarrow> j = length (drop 50 ?due) \<and> due (db w) i s' = []"
        using Suc.IH [of w1 s1] Suc.prems(1,3) b after \<open>k = 50\<close> by auto
      have "take 50 ?due @ take j (drop 50 ?due) = take (50 + j) ?due" by (simp add: take_add)
      then show ?thesis using step True rec ev \<open>k = 50\<close> \<open>50 \<le> length ?due\<close>
        by (intro exI [of _ alive] exI [of _ s'] exI [of _ w'] exI [of _ "50 + j"])
           (auto simp flip: map_append)
    qed
  qed
qed


text \<open>A fresh stream of the plain user.\<close>

definition sample_stream :: stream where
  "sample_stream = \<lparr>sm_sequence = 0, sm_has = False, sm_unreadOnly = True, sm_writes = 0, sm_sent = []\<rparr>"

definition sample_connection :: connection where
  "sample_connection = \<lparr>co_write = \<lambda>n. True, co_beat = \<lambda>n. n = 1\<rparr>"


end
