(* ===== verification/Spec2Isabelle.thy ===== *)
theory Spec2Isabelle
  imports AuditProperties MySqlAgreement HttpProperties Docs Mailer InitProject Connect Seed Streaming
begin

text \<open>
  \<^bold>\<open>A Go backend for authentication, role-based access control and notifications.\<close>

  The program (\<open>src/\<close>) is an HTTP service with a worker and maintenance commands over one SQL
  database.  A request passes the middleware and \<open>enforce\<close> (\<open>internal/httpapi\<close>): token, throttling
  (\<open>internal/ratelimit\<close>), actor, permission; \<open>register\<close> then asks the cache (\<open>internal/cache\<close>) or the
  handler, which calls a service (\<open>internal/auth\<close>, \<open>user\<close>, \<open>role\<close>, \<open>permission\<close>, \<open>notification\<close>,
  \<open>upload\<close>).  A service runs its statements (\<open>internal/db/sqlc\<close>, or \<open>internal/db/mysql_adapter.go\<close> on
  MySQL) in a transaction joined with an audit row (\<open>internal/audit\<close>).  Notifications that ask for a
  mail leave a job in the outbox table, which the workers (\<open>internal/jobs\<close>) claim under a lease, deliver
  and complete; two cleanups delete what is past its retention and files nothing refers to.  The
  environment decides how all this is put together (\<open>internal/config\<close>, \<open>internal/app\<close>, \<open>cmd/\<close>).

  \<^bold>\<open>How code becomes definitions.\<close>  A Go struct is a record, an enumeration a datatype, a Go error
  a value of \<open>goerr\<close>, a table a list of rows.  An operation on the database is a value of \<open>'a op\<close> (theory
  \<open>Runtime\<close>): a function from the environment and the world to a result or an error and a new
  world.  \<open>if err != nil { return err }\<close> is \<open>bindE\<close>; \<open>fault.DB(err)\<close> around it is \<open>mapE DB\<close>;
  \<open>Transaction\<close> rolls back on every error; every statement, commit and clock reading consumes a
  tick, at which the environment may inject a failure.  What also uses Redis, the memory of the
  limiter or the file store is a value of \<open>('x, 'a) wop\<close> (theory \<open>Web\<close>), with \<open>bindW\<close> and \<open>mapW\<close>;
  \<open>service\<close> runs an \<open>op\<close> in it.  The reading of the environment is a value of \<open>goerr + 'a\<close>, composed by
  \<open>and_then\<close>.  \<open>mod\<close> and wrap-around are written out where a width matters (\<open>int64\<close>, \<open>int32\<close>).

  \<^bold>\<open>Parameters.\<close>  The record \<open>env\<close> holds what is not under \<open>src/\<close>: the two clocks, UUID
  generation and parsing, the random source, SHA-256, bcrypt, the JWT library, and the schedule of
  failures.  \<open>web_env\<close> adds the failures of Redis and of the store, the order in which Go ranges over a
  map, the detection of content types and \<open>net.ParseIP\<close>; \<open>parsers\<close>, \<open>full_url\<close> and \<open>certificates\<close> the
  readers of URLs, addresses, JSON and PEM files; \<open>mail_library\<close> the mail library; a function the reader
  of \<open>godotenv\<close> and the encoder of answers.  Redis itself is a key space with expiry, on which the commands
  and the script of the limiter are defined.  The named hypotheses are \<open>uuid_laws\<close> (the engine reads a
  canonical UUID as it is, and generated ones are canonical), \<open>library_errors\<close> (libraries report errors
  of their own), \<open>dotenv_laws\<close> (a line \<open>KEY=word\<close> is read as it is written) and, for liveness, an
  environment without failures.  Every property with hypotheses is instantiated at \<open>sample_env\<close> and
  \<open>sample_world\<close> (theory \<open>Sample\<close>) or a variant.

  \<^bold>\<open>Theories.\<close>
  \<^item> \<open>Prelude\<close>, \<open>GoStrings\<close>, \<open>Strconv\<close>, \<open>Fault\<close>, \<open>Json\<close>: rows and keys, the functions of the Go
    library on strings and numbers, \<open>internal/fault\<close>, and JSON values.
  \<^item> \<open>Schema\<close>, \<open>Runtime\<close>, \<open>QueriesAuth\<close>, \<open>QueriesRbac\<close>, \<open>QueriesOutbox\<close>, \<open>Frames\<close>, \<open>Sample\<close>:
    the tables and constraints of the migrations, the runtime, every statement of
    \<open>internal/db/sqlc\<close>, and which tables a statement leaves alone.  The locale \<open>evolution\<close> is the
    interface between a property of the database and the services: a reflexive and transitive
    relation that the statements respect is respected by everything composed of them.
  \<^item> \<open>MySqlQueries\<close>, \<open>MySqlAdapter\<close>, \<open>MySqlAgreement\<close>: the statements of the other engine, the adapter
    that makes them answer as the first, and where the two agree and differ.
  \<^item> \<open>Projection\<close>, \<open>AuditLog\<close>: \<open>internal/model\<close>, \<open>internal/db/projection\<close> and
    \<open>internal/audit\<close>; the locale \<open>audited\<close> extends \<open>evolution\<close> to audited transactions.
  \<^item> \<open>Privilege\<close>, \<open>RbacSafety\<close>, \<open>RoleService\<close>, \<open>PermissionService\<close>, \<open>UserService\<close>: the access
    rules and the three services that change them; \<open>rbac_step\<close> is what each of them keeps.
  \<^item> \<open>AuthService\<close>, \<open>SessionSafety\<close>, \<open>Errors\<close>: sessions and refresh tokens; \<open>sess_step\<close> is
    their invariant and \<open>session_step\<close> the relation along which consumed tokens stay consumed.
  \<^item> \<open>NotificationService\<close>, \<open>Streaming\<close>, \<open>OutboxWorker\<close>, \<open>OutboxSafety\<close>, \<open>Mailer\<close>: notifications, the
    loop of the event stream, the outbox, and how a mail is sent; \<open>outbox_step\<close> is what every operation
    keeps of the outbox.
  \<^item> \<open>AuthProperties\<close>, \<open>OutboxProperties\<close>, \<open>OutboxSystem\<close>, \<open>CleanupProperties\<close>, \<open>RbacProperties\<close>,
    \<open>SystemInvariant\<close>, \<open>AccessProperties\<close>, \<open>AuditProperties\<close>: the properties of the services, alone and
    under any sequence or interleaving of operations (\<open>system_run\<close>, \<open>outbox_run\<close>, \<open>race\<close>).
  \<^item> \<open>Web\<close>, \<open>RateLimit\<close>, \<open>Cache\<close>, \<open>Registry\<close>, \<open>Upload\<close>: the limiter in memory and in Redis, which both
    satisfy the locale \<open>counter_store\<close>; the response cache; the table of endpoints and its overrides; the
    two file stores, which satisfy the locale \<open>object_store\<close>, the upload service and the cleanup of files.
  \<^item> \<open>Http\<close>, \<open>Api\<close>, \<open>ApiSafety\<close>, \<open>HttpProperties\<close>, \<open>Docs\<close>: errors, middleware, \<open>enforce\<close>, \<open>register\<close> and
    the cookies; the handlers of each file and \<open>serve\<close>, the whole way of a request; that any sequence of
    requests keeps the invariants of the system and that nobody is served without the permission.
  \<^item> \<open>Config\<close>, \<open>Dotenv\<close>, \<open>InitProject\<close>, \<open>Connect\<close>, \<open>Startup\<close>, \<open>Seed\<close>: the environment file and its
    generator, \<open>Load\<close> with its checks, the choice of the engine, the server that starts, and the seeding
    of a database, from which the invariants hold.

  \<^bold>\<open>Bounds and fuel.\<close>  Page numbers and offsets are computed with the wrap-around of 64 and 32 bits; counts
  and sequence numbers of rows are unbounded (the tables never reach \<open>2\<^sup>63\<close> rows).  Times are
  milliseconds, the resolution of the columns; \<open>days\<close> stays far below the \<open>2\<^sup>63\<close> nanoseconds of a Go
  duration, as \<open>Load\<close> allows 3650 days at most.  Loops run over lists, except \<open>poll\<close> and the client
  \<open>walk\<close> over pages, which take fuel: one page more than the full ones is proved to be enough.

  \<^bold>\<open>Not modelled.\<close>  Telemetry (spans, metrics, the generated wrapper of the queries): no result depends on
  it.  Sockets, signals, goroutine scheduling below a transaction, timeouts other than as failed calls,
  pool sizes.  The router and Huma: what Huma rejects in a request is an argument of \<open>serve\<close>.  The text of
  events, log lines and JSON numbers that are no integers.  The migration runner, whose outcome is
  \<open>Schema\<close>, and of \<open>initproject\<close> the terminal, directories and the Go tool.
\<close>

end
